(* ===== verification/Prelude.thy ===== *)
theory Prelude
  imports Main "HOL-Library.Word"
begin

text \<open>
  Shared vocabulary of the development: Rust's machine integers as words, the result
  type as a sum with its sequencing operator, the iterator adaptors the sources use
  (\<open>max_by_key\<close>, \<open>find_map\<close>), and the generic lemmas on them.  The lemmas about
  newest rows are collected in \<open>newest_simps\<close>, and the rules that split a
  successful sequence of fallible calls in \<open>result_elims\<close>.
\<close>

named_theorems newest_simps
named_theorems result_elims

section \<open>Machine integers\<close>

type_synonym u8 = "8 word"
type_synonym u32 = "32 word"
type_synonym u64 = "64 word"
type_synonym u128 = "128 word"

text \<open>Rust's \<open>checked_add\<close>: no value when the sum does not fit.\<close>

definition checked_add :: "'w::len word \<Rightarrow> 'w word \<Rightarrow> 'w word option" where
  "checked_add a b = (if unat a + unat b < 2 ^ LENGTH('w) then Some (a + b) else None)"

text \<open>The overflow tests without leaving the word, for evaluation.\<close>

lemma add_fits_iff: "unat a + unat b < 2 ^ LENGTH('w) \<longleftrightarrow> a \<le> a + b" for a b :: "'w::len word"
  using no_olen_add_nat [of a b] by simp

lemma checked_add_code [code]: "checked_add a b = (if a \<le> a + b then Some (a + b) else None)"
  by (simp add: checked_add_def add_fits_iff)

lemma checked_add_Some:
  "checked_add a b = Some c \<Longrightarrow> unat c = unat a + unat b"
  unfolding checked_add_def by (metis option.distinct(1) option.inject unat_add_lem)

lemma checked_add_one_less:
  assumes "checked_add a (1 :: 'w::len word) = Some b" shows "a < b"
proof -
  have "unat b = unat a + unat (1 :: 'w word)" using assms by (rule checked_add_Some)
  then have "unat a < unat b" by (simp only: unat_1)
  then show ?thesis by (simp only: word_less_nat_alt)
qed

text \<open>Rust's \<open>saturating_add\<close>.\<close>

definition saturating_add :: "'w::len word \<Rightarrow> 'w word \<Rightarrow> 'w word" where
  "saturating_add a b = (case checked_add a b of Some c \<Rightarrow> c | None \<Rightarrow> - 1)"

text \<open>Rust's \<open>checked_mul\<close> and \<open>saturating_mul\<close>.\<close>

definition checked_mul :: "'w::len word \<Rightarrow> 'w word \<Rightarrow> 'w word option" where
  "checked_mul a b = (if uint a * uint b < 2 ^ LENGTH('w) then Some (a * b) else None)"

definition saturating_mul :: "'w::len word \<Rightarrow> 'w word \<Rightarrow> 'w word" where
  "saturating_mul a b = (case checked_mul a b of Some c \<Rightarrow> c | None \<Rightarrow> - 1)"

section \<open>Results\<close>

type_synonym ('e, 'a) result = "'e + 'a"

text \<open>The question mark operator: an error returns early, a value goes on.\<close>

fun rbind :: "('e, 'a) result \<Rightarrow> ('a \<Rightarrow> ('e, 'b) result) \<Rightarrow> ('e, 'b) result" where
  "rbind (Inl e) f = Inl e"
| "rbind (Inr x) f = f x"

text \<open>Evaluation takes the rest of a chain only once the value is known.\<close>

lemma rbind_unfold [code_unfold]: "rbind m f = (case m of Inl e \<Rightarrow> Inl e | Inr x \<Rightarrow> f x)"
  by (cases m) simp_all

text \<open>\<open>Option::ok_or\<close>.\<close>

fun ok_or :: "'e \<Rightarrow> 'a option \<Rightarrow> ('e, 'a) result" where
  "ok_or e None = Inl e"
| "ok_or e (Some x) = Inr x"

text \<open>\<open>Result::map_err\<close>, which the error conversions of the question mark use.\<close>

fun map_err :: "('d \<Rightarrow> 'e) \<Rightarrow> ('d, 'a) result \<Rightarrow> ('e, 'a) result" where
  "map_err f (Inl e) = Inl (f e)"
| "map_err f (Inr x) = Inr x"

text \<open>A guard that returns the error when the condition holds.\<close>

definition err_if :: "bool \<Rightarrow> 'e \<Rightarrow> ('e, unit) result" where
  "err_if c e = (if c then Inl e else Inr ())"

lemma rbind_Inr_iff [simp]: "rbind m f = Inr y \<longleftrightarrow> (\<exists>x. m = Inr x \<and> f x = Inr y)"
  by (cases m) auto

lemma ok_or_Inr_iff [simp]: "ok_or e x = Inr y \<longleftrightarrow> x = Some y"
  by (cases x) auto

lemma map_err_Inr_iff [simp]: "map_err f m = Inr y \<longleftrightarrow> m = Inr y"
  by (cases m) auto

lemma err_if_Inr_iff [simp]: "err_if c e = Inr u \<longleftrightarrow> \<not> c"
  by (auto simp: err_if_def)

lemma rbind_InrE [result_elims]:
  assumes "rbind m f = Inr y"
  obtains x where "m = Inr x" "f x = Inr y"
  using assms by auto

section \<open>Iterator adaptors\<close>

text \<open>\<open>Iterator::max_by_key\<close> returns the last of the elements with the largest key.\<close>

fun max_from :: "('a \<Rightarrow> 'k::linorder) \<Rightarrow> 'a \<Rightarrow> 'a list \<Rightarrow> 'a" where
  "max_from f m [] = m"
| "max_from f m (x # xs) = max_from f (if f m \<le> f x then x else m) xs"

fun max_by_key :: "('a \<Rightarrow> 'k::linorder) \<Rightarrow> 'a list \<Rightarrow> 'a option" where
  "max_by_key f [] = None"
| "max_by_key f (x # xs) = Some (max_from f x xs)"

text \<open>\<open>Iterator::find_map\<close>.\<close>

fun find_map :: "('a \<Rightarrow> 'b option) \<Rightarrow> 'a list \<Rightarrow> 'b option" where
  "find_map f [] = None"
| "find_map f (x # xs) = (case f x of Some y \<Rightarrow> Some y | None \<Rightarrow> find_map f xs)"

text \<open>\<open>Option::filter\<close>.\<close>

fun option_filter :: "('a \<Rightarrow> bool) \<Rightarrow> 'a option \<Rightarrow> 'a option" where
  "option_filter P None = None"
| "option_filter P (Some x) = (if P x then Some x else None)"

lemma option_filter_Some_iff [simp]:
  "option_filter P x = Some y \<longleftrightarrow> x = Some y \<and> P y"
  by (cases x) auto

lemma option_filter_None_iff:
  "option_filter P x = None \<longleftrightarrow> (\<forall>y. x = Some y \<longrightarrow> \<not> P y)"
  by (cases x) auto

text \<open>\<open>Option::unwrap_or\<close>.\<close>

fun the_default :: "'a \<Rightarrow> 'a option \<Rightarrow> 'a" where
  "the_default d None = d"
| "the_default d (Some x) = x"

text \<open>\<open>Option::into_iter\<close>.\<close>

fun option_list :: "'a option \<Rightarrow> 'a list" where
  "option_list None = []"
| "option_list (Some x) = [x]"

lemma set_option_list [simp]: "set (option_list x) = set_option x"
  by (cases x) auto

lemma max_from_mem: "max_from f m xs \<in> insert m (set xs)"
proof (induction xs arbitrary: m)
  case Nil
  then show ?case by simp
next
  case (Cons x xs)
  from Cons [of "if f m \<le> f x then x else m"] show ?case by (auto split: if_splits)
qed

lemma max_from_ge: "f m \<le> f (max_from f m xs) \<and> (\<forall>x\<in>set xs. f x \<le> f (max_from f m xs))"
proof (induction xs arbitrary: m)
  case Nil
  then show ?case by simp
next
  case (Cons x xs)
  from Cons [of "if f m \<le> f x then x else m"] show ?case
    by (auto split: if_splits intro: order.trans)
qed

lemma max_from_snoc:
  "max_from f m (xs @ [x]) = (if f (max_from f m xs) \<le> f x then x else max_from f m xs)"
  by (induction xs arbitrary: m) auto

lemma max_by_key_snoc [newest_simps]:
  "max_by_key f (xs @ [x]) =
     (case max_by_key f xs of None \<Rightarrow> Some x | Some m \<Rightarrow> Some (if f m \<le> f x then x else m))"
  by (cases xs) (auto simp: max_from_snoc)

lemma max_by_key_None_iff [simp]: "max_by_key f xs = None \<longleftrightarrow> xs = []"
  by (cases xs) auto

lemma max_by_key_mem:
  assumes "max_by_key f xs = Some m" shows "m \<in> set xs"
proof (cases xs)
  case (Cons a as)
  with assms max_from_mem [of f a as] show ?thesis by simp
qed (use assms in simp)

lemma max_by_key_ge:
  assumes "max_by_key f xs = Some m" "x \<in> set xs" shows "f x \<le> f m"
proof (cases xs)
  case (Cons a as)
  with assms max_from_ge [of f a as] show ?thesis by auto
qed (use assms in simp)

lemma max_by_key_unique:
  assumes "m \<in> set xs" "\<And>x. x \<in> set xs \<Longrightarrow> f x \<le> f m" "inj_on f (set xs)"
  shows "max_by_key f xs = Some m"
proof -
  obtain n where n: "max_by_key f xs = Some n" using assms(1) by (cases xs) auto
  from n have "n \<in> set xs" by (rule max_by_key_mem)
  moreover have "f n = f m"
    using assms(2) [OF \<open>n \<in> set xs\<close>] max_by_key_ge [OF n assms(1)] by simp
  ultimately have "n = m" using assms(1,3) by (auto dest: inj_onD)
  with n show ?thesis by simp
qed

text \<open>
  A reader that looks at only some of the rows finds the same newest row as a reader of
  all of them, as long as what it looks at includes that row.
\<close>

lemma max_by_key_subset:
  assumes "set ys \<subseteq> set xs" "max_by_key f xs = Some m" "m \<in> set ys" "inj_on f (set xs)"
  shows "max_by_key f ys = Some m"
proof (rule max_by_key_unique)
  show "m \<in> set ys" by (rule assms(3))
  show "f x \<le> f m" if "x \<in> set ys" for x
    using that assms(1) by (auto intro: max_by_key_ge [OF assms(2)])
  show "inj_on f (set ys)" using assms(4,1) by (rule inj_on_subset)
qed

text \<open>A newest element of a list under an order, with any choice among equal ones.\<close>

definition newest_of :: "('a \<Rightarrow> 'k::linorder) \<Rightarrow> 'a list \<Rightarrow> 'a option \<Rightarrow> bool" where
  "newest_of f xs m =
     (case m of None \<Rightarrow> xs = [] | Some r \<Rightarrow> r \<in> set xs \<and> (\<forall>x\<in>set xs. f x \<le> f r))"

lemma newest_of_Nil [simp]: "newest_of f [] m \<longleftrightarrow> m = None"
  by (cases m) (simp_all add: newest_of_def)

lemma newest_of_None [simp]: "newest_of f xs None \<longleftrightarrow> xs = []"
  by (simp add: newest_of_def)

lemma newest_of_Some: "newest_of f xs (Some r) \<longleftrightarrow> r \<in> set xs \<and> (\<forall>x\<in>set xs. f x \<le> f r)"
  by (simp add: newest_of_def)

lemma newest_of_max_by_key: "newest_of f xs (max_by_key f xs)"
  by (cases "max_by_key f xs") (auto simp: newest_of_Some dest: max_by_key_mem max_by_key_ge)

lemma max_by_key_newest_of:
  assumes "newest_of f xs m" "inj_on f (set xs)" shows "max_by_key f xs = m"
proof (cases m)
  case None
  with assms show ?thesis by simp
next
  case (Some r)
  with assms show ?thesis by (auto simp: newest_of_Some intro: max_by_key_unique)
qed

lemma newest_of_snoc:
  "newest_of f (xs @ [x]) (case m of None \<Rightarrow> Some x | Some r \<Rightarrow> Some (if f r < f x then x else r))"
  if "newest_of f xs m"
  using that by (cases m) (auto simp: newest_of_Some dest: order.trans [OF _ less_imp_le])

section \<open>Newest rows of a history in order\<close>

text \<open>The last element, when there is one.\<close>

definition last_opt :: "'a list \<Rightarrow> 'a option" where
  "last_opt xs = (if xs = [] then None else Some (last xs))"

lemma last_opt_Nil [simp]: "last_opt [] = None"
  by (simp add: last_opt_def)

lemma last_opt_snoc [simp]: "last_opt (xs @ [x]) = Some x"
  by (simp add: last_opt_def)

lemma last_opt_mem: "last_opt xs = Some x \<Longrightarrow> x \<in> set xs"
  by (auto simp: last_opt_def split: if_splits)

text \<open>A history whose keys increase: its newest element is the last one.\<close>

abbreviation increasing :: "('a \<Rightarrow> 'k::linorder) \<Rightarrow> 'a list \<Rightarrow> bool" where
  "increasing f \<equiv> sorted_wrt (\<lambda>x y. f x < f y)"

lemma increasing_snoc:
  "increasing f (xs @ [x]) \<longleftrightarrow> increasing f xs \<and> (\<forall>y\<in>set xs. f y < f x)"
  by (simp add: sorted_wrt_append)

lemma increasing_filter: "increasing f xs \<Longrightarrow> increasing f (filter P xs)"
  by (rule sorted_wrt_filter)

lemma increasing_inj_on: "increasing f xs \<Longrightarrow> inj_on f (set xs)"
proof (induction xs)
  case Nil
  then show ?case by simp
next
  case (Cons x xs)
  then have "inj_on f (set xs)" and "\<forall>y\<in>set xs. f x < f y" by auto
  then show ?case by (auto simp: inj_on_insert)
qed

lemma max_by_key_increasing [newest_simps]:
  "increasing f xs \<Longrightarrow> max_by_key f xs = last_opt xs"
proof (induction xs rule: rev_induct)
  case Nil
  then show ?case by simp
next
  case (snoc x xs)
  then have IH: "max_by_key f xs = last_opt xs" and lt: "\<forall>y\<in>set xs. f y < f x"
    by (auto simp: increasing_snoc)
  show ?case
  proof (cases "last_opt xs")
    case None
    with IH show ?thesis by (simp add: max_by_key_snoc del: max_by_key_None_iff)
  next
    case (Some m)
    with lt have "f m \<le> f x" by (auto dest: last_opt_mem intro: less_imp_le)
    with IH Some show ?thesis by (simp add: max_by_key_snoc)
  qed
qed

lemma max_by_key_filter_increasing [newest_simps]:
  "increasing f xs \<Longrightarrow> max_by_key f (filter P xs) = last_opt (filter P xs)"
  by (rule max_by_key_increasing [OF increasing_filter])

text \<open>The newest element with a property.\<close>

definition latest :: "('a \<Rightarrow> bool) \<Rightarrow> 'a list \<Rightarrow> 'a option" where
  "latest P xs = last_opt (filter P xs)"

lemma latest_Nil [simp]: "latest P [] = None"
  by (simp add: latest_def)

lemma latest_snoc [simp]: "latest P (xs @ [x]) = (if P x then Some x else latest P xs)"
  by (simp add: latest_def)

lemma latest_Some: "latest P xs = Some x \<Longrightarrow> x \<in> set xs \<and> P x"
  by (auto simp: latest_def dest: last_opt_mem)

lemma latest_None_iff: "latest P xs = None \<longleftrightarrow> (\<forall>x\<in>set xs. \<not> P x)"
  by (auto simp: latest_def last_opt_def filter_empty_conv)

lemma latest_cong: "(\<And>x. x \<in> set xs \<Longrightarrow> P x = Q x) \<Longrightarrow> latest P xs = latest Q xs"
  unfolding latest_def by (metis filter_cong)

lemma max_by_key_latest:
  assumes "increasing f xs" "\<And>x. x \<in> set xs \<Longrightarrow> P x = Q x"
  shows "max_by_key f (filter P xs) = latest Q xs"
proof -
  have "filter P xs = filter Q xs" using assms(2) by (rule filter_cong [OF refl])
  then show ?thesis using assms(1) by (simp add: latest_def max_by_key_filter_increasing)
qed

section \<open>Searching\<close>

lemma find_distinct_key:
  "distinct (map k xs) \<Longrightarrow> x \<in> set xs \<Longrightarrow> Q x \<Longrightarrow> find (\<lambda>y. k y = k x \<and> Q y) xs = Some x"
  by (induction xs) (auto simp: image_iff)

section \<open>Ordered maps\<close>

text \<open>A \<open>BTreeMap\<close> as its entries in key order; inserting replaces an equal key's value.\<close>

fun btree_insert :: "'k::linorder \<Rightarrow> 'v \<Rightarrow> ('k \<times> 'v) list \<Rightarrow> ('k \<times> 'v) list" where
  "btree_insert k v [] = [(k, v)]"
| "btree_insert k v ((k', v') # es) =
     (if k < k' then (k, v) # (k', v') # es
      else if k = k' then (k, v) # es
      else (k', v') # btree_insert k v es)"

lemma set_map_fst_btree_insert [simp]:
  "fst ` set (btree_insert k v es) = insert k (fst ` set es)"
  by (induction k v es rule: btree_insert.induct) (simp_all add: insert_commute)

lemma strict_sorted_btree_insert:
  "sorted_wrt (<) (map fst es) \<Longrightarrow> sorted_wrt (<) (map fst (btree_insert k v es))"
proof (induction k v es rule: btree_insert.induct)
  case (2 k v k' v' es)
  from 2(2) have tail: "sorted_wrt (<) (map fst es)" and below: "\<forall>x\<in>fst ` set es. k' < x"
    by simp_all
  show ?case
  proof (cases k k' rule: linorder_cases)
    case less
    with below have "\<forall>x\<in>fst ` set es. k < x" by (blast intro: less_trans)
    with less 2(2) show ?thesis by simp
  next
    case equal
    with 2(2) show ?thesis by simp
  next
    case greater
    with 2(1) tail have "sorted_wrt (<) (map fst (btree_insert k v es))" by simp
    moreover have "\<forall>x\<in>fst ` set (btree_insert k v es). k' < x" using below greater by simp
    ultimately show ?thesis using greater by auto
  qed
qed simp

lemma map_of_btree_insert:
  "sorted_wrt (<) (map fst es) \<Longrightarrow> map_of (btree_insert k v es) = (map_of es)(k \<mapsto> v)"
  by (induction k v es rule: btree_insert.induct) (simp_all add: fun_upd_twist)

lemma map_of_iff_mem:
  "sorted_wrt (<) (map fst es) \<Longrightarrow> (k, v) \<in> set es \<longleftrightarrow> map_of es (k :: 'k :: linorder) = Some v"
  by (simp add: strict_sorted_iff)

text \<open>Filling a map from keys, each with the value a function has for it.\<close>

lemma btree_fill:
  assumes "\<And>k v. f k = Some v \<Longrightarrow> key v = k"
  defines "fill \<equiv> \<lambda>ks es. fold (\<lambda>k es. case f k of Some v \<Rightarrow> btree_insert (key v) v es | None \<Rightarrow> es) ks es"
  shows "sorted_wrt (<) (map fst es) \<Longrightarrow> sorted_wrt (<) (map fst (fill ks es)) \<and>
    map_of (fill ks es) k = (if k \<in> set ks \<and> f k \<noteq> None then f k else map_of es k)"
proof (induction ks arbitrary: es)
  case Nil
  then show ?case by (simp add: fill_def)
next
  case (Cons x ks)
  have unfold: "fill (x # ks) es = fill ks (case f x of Some v \<Rightarrow> btree_insert (key v) v es | None \<Rightarrow> es)"
    by (simp add: fill_def)
  show ?case
  proof (cases "f x")
    case None
    with Cons show ?thesis unfolding unfold by auto
  next
    case (Some v)
    with assms(1) have "key v = x" by blast
    with Some Cons.IH [OF strict_sorted_btree_insert [OF Cons.prems, of x v]] Cons.prems show ?thesis
      unfolding unfold by (auto simp: map_of_btree_insert)
  qed
qed

end
