(* ===== verification/Vocabulary.thy ===== *)
theory Vocabulary
  imports Prelude
begin

unbundle bit_operations_syntax

text \<open>
  The value types of \<open>loonfs-types\<close> that metadata rows and commits are built from:
  identifiers and ordinals, inode kinds, positions in the committed history, content
  references and layouts, and access rights.  A Rust string is the \<open>string\<close> of its
  UTF-8 bytes, a numeric identifier is the word of its width, and a \<open>BTreeMap\<close> is the
  association list of its entries in key order.
\<close>

section \<open>Identifiers and ordinals\<close>

type_synonym inode_id = u128
type_synonym change_seq = u64
type_synonym revision_no = u64
type_synonym attributes_revision_no = u64
type_synonym access_revision_no = u64
type_synonym namespace_id = string
type_synonym commit_id = string
type_synonym content_id = string
type_synonym actor_id = string
type_synonym principal_id = string
type_synonym name_key = string
type_synonym display_name = string
type_synonym commit_fingerprint = string

text \<open>The root directory has the identifier of all zero bits.\<close>

definition ROOT_INODE_ID :: inode_id where
  "ROOT_INODE_ID = 0"

text \<open>The largest ordinal the API exposes, and the successor of an ordinal.\<close>

definition MAX_PUBLIC_INTEGER :: u64 where
  "MAX_PUBLIC_INTEGER = 9007199254740991"

definition next_public_ordinal :: "u64 \<Rightarrow> u64 option" where
  "next_public_ordinal current =
     option_filter (\<lambda>n. n \<le> MAX_PUBLIC_INTEGER) (checked_add current 1)"

datatype public_ordinal_range_error = PublicOrdinalRangeError

definition parse_public_ordinal :: "u64 \<Rightarrow> (public_ordinal_range_error, u64) result" where
  "parse_public_ordinal v = (if v > MAX_PUBLIC_INTEGER then Inl PublicOrdinalRangeError else Inr v)"

definition successor :: "u64 \<Rightarrow> (public_ordinal_range_error, u64) result" where
  "successor n = ok_or PublicOrdinalRangeError (next_public_ordinal n)"

lemma next_public_ordinal_Some:
  assumes "next_public_ordinal n = Some m"
  shows "n < m" "unat m = unat n + 1" "m \<le> MAX_PUBLIC_INTEGER"
proof -
  from assms have c: "checked_add n 1 = Some m" and "m \<le> MAX_PUBLIC_INTEGER"
    by (simp_all add: next_public_ordinal_def)
  then show "m \<le> MAX_PUBLIC_INTEGER" by simp
  show "n < m" using c by (rule checked_add_one_less)
  show "unat m = unat n + 1" using checked_add_Some [OF c] by (simp only: unat_1)
qed

text \<open>
  \<open>InodeId::generate\<close>: the low half of the commit sequence, the number of the create
  within its commit, and 64 random bits, which are an argument here.
\<close>

definition generate_inode_id :: "change_seq \<Rightarrow> u32 \<Rightarrow> u64 \<Rightarrow> inode_id" where
  "generate_inode_id committed_seq create_no random =
     (let seq_bits = push_bit 96 (ucast committed_seq AND 0xFFFFFFFF);
          create_no_bits = push_bit 64 (ucast create_no);
          random_bits = ucast random
      in seq_bits OR create_no_bits OR random_bits)"

section \<open>Inode kinds\<close>

datatype inode_kind = File | Directory

fun inode_kind_as_str :: "inode_kind \<Rightarrow> string" where
  "inode_kind_as_str File = ''file''"
| "inode_kind_as_str Directory = ''dir''"

section \<open>Positions in the committed history\<close>

text \<open>
  The position of one delta: the sequence of its commit, then its index within the
  commit.  The order is the lexicographic one that \<open>derive(PartialOrd, Ord)\<close> gives.
\<close>

datatype delta_position = DeltaPosition (dp_seq: change_seq) (dp_delta_index: u32)

instantiation delta_position :: linorder
begin

definition less_eq_delta_position :: "delta_position \<Rightarrow> delta_position \<Rightarrow> bool" where
  "p \<le> q \<longleftrightarrow> dp_seq p < dp_seq q \<or> dp_seq p = dp_seq q \<and> dp_delta_index p \<le> dp_delta_index q"

definition less_delta_position :: "delta_position \<Rightarrow> delta_position \<Rightarrow> bool" where
  "p < q \<longleftrightarrow> dp_seq p < dp_seq q \<or> dp_seq p = dp_seq q \<and> dp_delta_index p < dp_delta_index q"

instance
  by standard
    (auto simp: less_eq_delta_position_def less_delta_position_def intro: delta_position.expand)

end

lemma delta_position_less_iff [simp]:
  "DeltaPosition s i < DeltaPosition t j \<longleftrightarrow> s < t \<or> s = t \<and> i < j"
  by (simp add: less_delta_position_def)

lemma delta_position_le_iff [simp]:
  "DeltaPosition s i \<le> DeltaPosition t j \<longleftrightarrow> s < t \<or> s = t \<and> i \<le> j"
  by (simp add: less_eq_delta_position_def)

section \<open>Content references and layouts\<close>

datatype content_ref_kind = BlobV1

datatype checksum_algorithm = Crc64nvme | Crc32c

fun value_bytes :: "checksum_algorithm \<Rightarrow> nat" where
  "value_bytes Crc64nvme = 8"
| "value_bytes Crc32c = 4"

datatype checksum = Checksum (ck_algorithm: checksum_algorithm) (ck_value: string)

datatype checksum_validation_error =
  InvalidWidth checksum_algorithm nat nat

definition checksum_new ::
  "checksum_algorithm \<Rightarrow> string \<Rightarrow> (checksum_validation_error, checksum) result" where
  "checksum_new algorithm v =
     (let expected_bytes = value_bytes algorithm * 2; actual_bytes = length v
      in if actual_bytes \<noteq> expected_bytes
         then Inl (InvalidWidth algorithm expected_bytes actual_bytes)
         else Inr (Checksum algorithm v))"

record content_ref =
  ct_kind :: content_ref_kind
  ct_content_id :: content_id
  ct_size_bytes :: u64
  ct_checksum :: checksum

datatype extent_object = Whole | Span u64 u64

record content_extent =
  ex_content_id :: content_id
  ex_object :: extent_object
  ex_offset :: u64
  ex_length :: u64

record content_layout =
  ly_creator_namespace_id :: namespace_id
  ly_extents :: "content_extent list"

text \<open>The total length of the extents; the sum wraps at 64 bits in a release build.\<close>

definition layout_size_bytes :: "content_layout \<Rightarrow> u64" where
  "layout_size_bytes layout = sum_list (map ex_length (ly_extents layout))"

datatype content_layout_error =
    ZeroBytesRequireOneWholeExtent
  | ExtentLengthsMustBePositive
  | ExtentObjectRangeOverflows
  | ExtentRangeMustFitWithinTheSpan
  | LayoutLengthOverflows
  | ExtentLengthsMustEqualTheChainSize

fun is_empty_whole :: "content_extent list \<Rightarrow> bool" where
  "is_empty_whole [e] = (ex_object e = Whole \<and> ex_length e = 0)"
| "is_empty_whole _ = False"

definition span_fits :: "extent_object \<Rightarrow> u64 \<Rightarrow> bool" where
  "span_fits object object_end =
     (case object of Whole \<Rightarrow> True
      | Span start end \<Rightarrow> \<not> (start \<ge> end \<or> object_end > end - start))"

text \<open>The loop of \<open>ContentLayout::validate\<close>: it returns the accumulated length.\<close>

fun validate_extents ::
  "u64 \<Rightarrow> u64 \<Rightarrow> content_extent list \<Rightarrow> (content_layout_error, u64) result" where
  "validate_extents size_bytes len [] = Inr len"
| "validate_extents size_bytes len (extent # extents) =
     rbind (err_if (size_bytes > 0 \<and> ex_length extent = 0) ExtentLengthsMustBePositive) (\<lambda>_.
     rbind (ok_or ExtentObjectRangeOverflows
              (checked_add (ex_offset extent) (ex_length extent))) (\<lambda>object_end.
     rbind (err_if (\<not> span_fits (ex_object extent) object_end)
              ExtentRangeMustFitWithinTheSpan) (\<lambda>_.
     rbind (ok_or LayoutLengthOverflows (checked_add len (ex_length extent))) (\<lambda>len.
     validate_extents size_bytes len extents))))"

definition validate_layout :: "content_layout \<Rightarrow> u64 \<Rightarrow> (content_layout_error, unit) result" where
  "validate_layout layout size_bytes =
     rbind (err_if (size_bytes = 0 \<and> \<not> is_empty_whole (ly_extents layout))
              ZeroBytesRequireOneWholeExtent) (\<lambda>_.
     rbind (validate_extents size_bytes 0 (ly_extents layout)) (\<lambda>len.
     err_if (len \<noteq> size_bytes) ExtentLengthsMustEqualTheChainSize))"

section \<open>Access rights\<close>

datatype access_right = Read | History | Write | Create | Remove | Share | Manage | Admin

definition ALL_RIGHTS :: "access_right list" where
  "ALL_RIGHTS = [Read, History, Write, Create, Remove, Share, Manage, Admin]"

fun right_as_str :: "access_right \<Rightarrow> string" where
  "right_as_str Read = ''read''"
| "right_as_str History = ''history''"
| "right_as_str Write = ''write''"
| "right_as_str Create = ''create''"
| "right_as_str Remove = ''remove''"
| "right_as_str Share = ''share''"
| "right_as_str Manage = ''manage''"
| "right_as_str Admin = ''admin''"

text \<open>The discriminant of a right, and the bit \<open>1 << (self as u8)\<close> it stands for.\<close>

fun right_index :: "access_right \<Rightarrow> nat" where
  "right_index Read = 0"
| "right_index History = 1"
| "right_index Write = 2"
| "right_index Create = 3"
| "right_index Remove = 4"
| "right_index Share = 5"
| "right_index Manage = 6"
| "right_index Admin = 7"

definition right_bit :: "access_right \<Rightarrow> u8" where
  "right_bit r = push_bit (right_index r) 1"

datatype access_rights_error = UnknownRight string | RepeatedRight access_right

definition right_from_str :: "string \<Rightarrow> (access_rights_error, access_right) result" where
  "right_from_str name =
     ok_or (UnknownRight name) (find (\<lambda>r. right_as_str r = name) ALL_RIGHTS)"

type_synonym access_rights = u8

definition EMPTY_RIGHTS :: access_rights where
  "EMPTY_RIGHTS = 0"

definition ALL_ACCESS_RIGHTS :: access_rights where
  "ALL_ACCESS_RIGHTS = drop_bit (8 - length ALL_RIGHTS) (- 1)"

definition ADMIN_RIGHTS :: access_rights where
  "ADMIN_RIGHTS = right_bit Admin"

definition rights_contains :: "access_rights \<Rightarrow> access_right \<Rightarrow> bool" where
  "rights_contains s r \<longleftrightarrow> s AND right_bit r \<noteq> 0"

definition rights_insert :: "access_rights \<Rightarrow> access_right \<Rightarrow> access_rights" where
  "rights_insert s r = s OR right_bit r"

definition rights_union :: "access_rights \<Rightarrow> access_rights \<Rightarrow> access_rights" where
  "rights_union s t = s OR t"

definition rights_difference :: "access_rights \<Rightarrow> access_rights \<Rightarrow> access_rights" where
  "rights_difference s t = s AND NOT t"

definition rights_subset :: "access_rights \<Rightarrow> access_rights \<Rightarrow> bool" where
  "rights_subset s t \<longleftrightarrow> s AND NOT t = 0"

definition rights_is_empty :: "access_rights \<Rightarrow> bool" where
  "rights_is_empty s \<longleftrightarrow> s = 0"

definition rights_iter :: "access_rights \<Rightarrow> access_right list" where
  "rights_iter s = filter (rights_contains s) ALL_RIGHTS"

fun from_distinct_loop ::
  "access_rights \<Rightarrow> access_right list \<Rightarrow> (access_rights_error, access_rights) result" where
  "from_distinct_loop s [] = Inr s"
| "from_distinct_loop s (r # rs) =
     (if rights_contains s r then Inl (RepeatedRight r) else from_distinct_loop (rights_insert s r) rs)"

definition from_distinct :: "access_right list \<Rightarrow> (access_rights_error, access_rights) result" where
  "from_distinct rs = from_distinct_loop EMPTY_RIGHTS rs"

definition rights_from_iter :: "access_right list \<Rightarrow> access_rights" where
  "rights_from_iter rs = fold (\<lambda>r s. rights_insert s r) rs EMPTY_RIGHTS"

section \<open>Access grants\<close>

type_synonym access_grants = "(principal_id \<times> access_rights) list"

datatype access_grants_error =
    DuplicatePrincipal principal_id
  | TooManyEntries nat
  | TooManyPrincipalBytes nat
  | EmptyRights principal_id

definition MAX_ACCESS_GRANT_ENTRIES :: nat where
  "MAX_ACCESS_GRANT_ENTRIES = 1000"

definition MAX_ACCESS_GRANTS_PRINCIPAL_BYTES :: nat where
  "MAX_ACCESS_GRANTS_PRINCIPAL_BYTES = 65536"

definition access_grants_new ::
  "(principal_id \<times> access_rights) list \<Rightarrow> (access_grants_error, access_grants) result" where
  "access_grants_new entries =
     rbind (err_if (length entries > MAX_ACCESS_GRANT_ENTRIES) (TooManyEntries (length entries))) (\<lambda>_.
     case find (\<lambda>(_, rights). rights_is_empty rights) entries of
       Some (p, _) \<Rightarrow> Inl (EmptyRights p)
     | None \<Rightarrow>
         (let principal_bytes = sum_list (map (length \<circ> fst) entries)
          in if principal_bytes > MAX_ACCESS_GRANTS_PRINCIPAL_BYTES
             then Inl (TooManyPrincipalBytes principal_bytes)
             else Inr entries))"

definition grants_get :: "access_grants \<Rightarrow> principal_id \<Rightarrow> access_rights" where
  "grants_get grants p = (case map_of grants p of Some r \<Rightarrow> r | None \<Rightarrow> EMPTY_RIGHTS)"

definition grants_logical_bytes :: "access_grants \<Rightarrow> nat" where
  "grants_logical_bytes grants =
     sum_list (map (\<lambda>(p, rights). length p + length (rights_iter rights)) grants)"

section \<open>Forks\<close>

record manifest_ref =
  mref_owner_namespace_id :: namespace_id
  mref_manifest_no :: u64
  mref_head_seq :: change_seq
  mref_payload_checksum :: string

record rebased_from =
  rb_source_namespace_id :: namespace_id
  rb_resume_after_seq :: change_seq

record fork_basis =
  fb_manifest :: manifest_ref
  fb_source_pin_id :: string
  fb_rebased_from :: "rebased_from option"

end
