(* ===== verification/Rows.thy ===== *)
theory Rows
  imports Vocabulary
begin

text \<open>
  The metadata rows of \<open>loonfs-types/src/metadata_rows.rs\<close> and the write-ahead-log
  records of \<open>loonfs-types/src/wal.rs\<close> that rows are derived from.  Every struct is a
  record whose fields stand in the order of the source, every enum a datatype whose
  constructors take their fields in the order of the source.
\<close>

section \<open>Row families\<close>

datatype metadata_row_family =
    Inodes
  | DirentryBinds
  | DirentryChildBinds
  | Revisions
  | Tombstones
  | ActiveDeletions
  | CommitReceipts
  | Commits
  | ContentLayouts
  | AttributesFamily
  | AccessFamily
  | Merges

definition metadata_row_family_ALL :: "metadata_row_family list" where
  "metadata_row_family_ALL =
     [Inodes, DirentryBinds, DirentryChildBinds, Revisions, Tombstones, ActiveDeletions,
      CommitReceipts, Commits, ContentLayouts, AttributesFamily, AccessFamily, Merges]"

fun metadata_row_family_as_str :: "metadata_row_family \<Rightarrow> string" where
  "metadata_row_family_as_str Inodes = ''inodes''"
| "metadata_row_family_as_str DirentryBinds = ''direntry_binds''"
| "metadata_row_family_as_str DirentryChildBinds = ''direntry_child_binds''"
| "metadata_row_family_as_str Revisions = ''revisions''"
| "metadata_row_family_as_str Tombstones = ''tombstones''"
| "metadata_row_family_as_str ActiveDeletions = ''active_deletions''"
| "metadata_row_family_as_str CommitReceipts = ''commit_receipts''"
| "metadata_row_family_as_str Commits = ''commits''"
| "metadata_row_family_as_str ContentLayouts = ''content_layouts''"
| "metadata_row_family_as_str AttributesFamily = ''attributes''"
| "metadata_row_family_as_str AccessFamily = ''access''"
| "metadata_row_family_as_str Merges = ''merges''"

datatype metadata_family_group =
    BindingsGroup
  | RevisionsGroup
  | InodesGroup
  | TombstonesGroup
  | ActiveDeletionsGroup
  | CommitsGroup
  | ContentLayoutsGroup
  | AttributesGroup
  | AccessGroup

definition metadata_family_group_ALL :: "metadata_family_group list" where
  "metadata_family_group_ALL =
     [BindingsGroup, RevisionsGroup, InodesGroup, TombstonesGroup, ActiveDeletionsGroup,
      CommitsGroup, ContentLayoutsGroup, AttributesGroup, AccessGroup]"

fun metadata_family_group_as_str :: "metadata_family_group \<Rightarrow> string" where
  "metadata_family_group_as_str BindingsGroup = ''bindings''"
| "metadata_family_group_as_str RevisionsGroup = ''revisions''"
| "metadata_family_group_as_str InodesGroup = ''inodes''"
| "metadata_family_group_as_str TombstonesGroup = ''tombstones''"
| "metadata_family_group_as_str ActiveDeletionsGroup = ''active_deletions''"
| "metadata_family_group_as_str CommitsGroup = ''commits''"
| "metadata_family_group_as_str ContentLayoutsGroup = ''content_layouts''"
| "metadata_family_group_as_str AttributesGroup = ''attributes''"
| "metadata_family_group_as_str AccessGroup = ''access''"

fun group_families :: "metadata_family_group \<Rightarrow> metadata_row_family list" where
  "group_families BindingsGroup = [DirentryBinds, DirentryChildBinds]"
| "group_families RevisionsGroup = [Revisions]"
| "group_families InodesGroup = [Inodes]"
| "group_families TombstonesGroup = [Tombstones]"
| "group_families ActiveDeletionsGroup = [ActiveDeletions]"
| "group_families CommitsGroup = [Commits, CommitReceipts, Merges]"
| "group_families ContentLayoutsGroup = [ContentLayouts]"
| "group_families AttributesGroup = [AttributesFamily]"
| "group_families AccessGroup = [AccessFamily]"

section \<open>Metadata rows\<close>

record inode_record =
  ir_inode_id :: inode_id
  ir_inode_kind :: inode_kind
  ir_committed_seq :: change_seq
  ir_commit_id :: commit_id
  ir_committed_by :: actor_id
  ir_committed_at_ms :: u64

record revision_summary =
  rs_revision_no :: revision_no
  rs_size_bytes :: u64
  rs_committed_by :: actor_id
  rs_committed_at_ms :: u64

datatype direntry_binding_state = Bound display_name "revision_summary option" | Unbound

record direntry_binding_record =
  db_parent_inode_id :: inode_id
  db_name_key :: name_key
  db_child_inode_id :: inode_id
  db_child_kind :: inode_kind
  db_child_created_by :: actor_id
  db_child_created_at_ms :: u64
  db_committed_seq :: change_seq
  db_delta_index :: u32
  db_commit_id :: commit_id
  db_committed_by :: actor_id
  db_committed_at_ms :: u64
  db_bind_position :: delta_position
  db_state :: direntry_binding_state

definition db_position :: "direntry_binding_record \<Rightarrow> delta_position" where
  "db_position row = DeltaPosition (db_committed_seq row) (db_delta_index row)"

definition db_display_name :: "direntry_binding_record \<Rightarrow> display_name option" where
  "db_display_name row =
     (case db_state row of Bound display_name _ \<Rightarrow> Some display_name | Unbound \<Rightarrow> None)"

definition db_revision :: "direntry_binding_record \<Rightarrow> revision_summary option" where
  "db_revision row = (case db_state row of Bound _ revision \<Rightarrow> revision | Unbound \<Rightarrow> None)"

definition is_bound :: "direntry_binding_record \<Rightarrow> bool" where
  "is_bound row = (case db_state row of Bound _ _ \<Rightarrow> True | Unbound \<Rightarrow> False)"

definition is_binding_event :: "direntry_binding_record \<Rightarrow> bool" where
  "is_binding_event row \<longleftrightarrow> \<not> is_bound row \<or> db_position row = db_bind_position row"

record revision_record =
  rv_inode_id :: inode_id
  rv_revision_no :: revision_no
  rv_committed_seq :: change_seq
  rv_commit_id :: commit_id
  rv_committed_by :: actor_id
  rv_committed_at_ms :: u64
  rv_delta_index :: u32
  rv_content_ref :: content_ref

record deleted_binding =
  dl_parent_inode_id :: inode_id
  dl_name_key :: name_key
  dl_display_name :: display_name

datatype tombstone_row_action = Set inode_kind deleted_binding | Revoke delta_position

fun hides_subtree :: "tombstone_row_action \<Rightarrow> bool" where
  "hides_subtree (Set _ _) = True"
| "hides_subtree (Revoke _) = False"

record subtree_tombstone_record =
  tb_root_inode_id :: inode_id
  tb_committed_seq :: change_seq
  tb_delta_index :: u32
  tb_commit_id :: commit_id
  tb_action :: tombstone_row_action
  tb_committed_by :: actor_id
  tb_committed_at_ms :: u64

definition tb_position :: "subtree_tombstone_record \<Rightarrow> delta_position" where
  "tb_position row = DeltaPosition (tb_committed_seq row) (tb_delta_index row)"

datatype active_deletion_row_action =
    Listed inode_kind u64 actor_id deleted_binding
  | Removed change_seq

record active_deletion_record =
  ad_root_inode_id :: inode_id
  ad_deletion_seq :: change_seq
  ad_action :: active_deletion_row_action

record content_layout_record =
  cl_content_id :: content_id
  cl_committed_seq :: change_seq
  cl_size_bytes :: u64
  cl_layout :: content_layout

record commit_receipt_record =
  cr_commit_id :: commit_id
  cr_committed_seq :: change_seq

type_synonym attributes = "(string \<times> string) list"

record attributes_revision_record =
  ar_inode_id :: inode_id
  ar_attributes_revision_no :: attributes_revision_no
  ar_committed_seq :: change_seq
  ar_commit_id :: commit_id
  ar_delta_index :: u32
  ar_committed_by :: actor_id
  ar_committed_at_ms :: u64
  ar_attributes :: attributes

record access_revision_record =
  xr_inode_id :: inode_id
  xr_access_revision_no :: access_revision_no
  xr_committed_seq :: change_seq
  xr_commit_id :: commit_id
  xr_delta_index :: u32
  xr_committed_by :: actor_id
  xr_committed_at_ms :: u64
  xr_boundary :: bool
  xr_grants :: access_grants

section \<open>Write-ahead-log records\<close>

text \<open>
  The fields of the larger constructors, in order: \<open>BindDirentry\<close> has the delta index,
  the parent, the name key, the display name, the child, its kind, its creator and
  creation time, and the revision summary; \<open>UnbindDirentry\<close> has the same with the
  retired bind position at the end; \<open>AppendFileRevision\<close> has the delta index, the
  inode, the parent, name key, display name and bind position of the current edge, the
  creator and creation time, the revision number, the content reference, the layout and
  the append offset.
\<close>

datatype wal_delta =
    CreateInode u32 inode_id inode_kind
  | BindDirentry u32 inode_id name_key display_name inode_id inode_kind actor_id u64
      "revision_summary option"
  | UnbindDirentry u32 inode_id name_key display_name inode_id inode_kind actor_id u64
      delta_position
  | AppendFileRevision u32 inode_id inode_id name_key display_name delta_position actor_id u64
      revision_no content_ref "content_layout option" "u64 option"
  | TombstoneSubtree u32 inode_id inode_kind deleted_binding
  | RevokeSubtreeTombstone u32 inode_id delta_position
  | AppendAttributesRevision u32 inode_id attributes_revision_no attributes
  | AppendAccessRevision u32 inode_id access_revision_no bool access_grants

text \<open>The delta index every delta starts with.\<close>

fun wal_delta_index :: "wal_delta \<Rightarrow> u32" where
  "wal_delta_index (CreateInode i _ _) = i"
| "wal_delta_index (BindDirentry i _ _ _ _ _ _ _ _) = i"
| "wal_delta_index (UnbindDirentry i _ _ _ _ _ _ _ _) = i"
| "wal_delta_index (AppendFileRevision i _ _ _ _ _ _ _ _ _ _ _) = i"
| "wal_delta_index (TombstoneSubtree i _ _ _) = i"
| "wal_delta_index (RevokeSubtreeTombstone i _ _) = i"
| "wal_delta_index (AppendAttributesRevision i _ _ _) = i"
| "wal_delta_index (AppendAccessRevision i _ _ _ _) = i"

record wal_commit_delta =
  wd_semantic_operation_index :: u32
  wd_delta :: wal_delta

record wal_inline_content =
  ic_content_id :: content_id
  ic_offset :: u64
  ic_bytes :: "u8 list"

record merge_record =
  mr_source_namespace_id :: namespace_id
  mr_source_after_seq :: change_seq
  mr_source_through_seq :: change_seq

record wal_commit_payload =
  wc_committed_seq :: change_seq
  wc_commit_id :: commit_id
  wc_committed_by :: actor_id
  wc_semantic_commit_fingerprint :: commit_fingerprint
  wc_committed_at_ms :: u64
  wc_message :: "string option"
  wc_merge :: "merge_record option"
  wc_deltas :: "wal_commit_delta list"
  wc_inline_content :: "wal_inline_content list"

record merge_index_record =
  mi_source_namespace_id :: namespace_id
  mi_committed_seq :: change_seq
  mi_source_after_seq :: change_seq
  mi_source_through_seq :: change_seq

definition merge_index_from_commit :: "wal_commit_payload \<Rightarrow> merge_index_record option" where
  "merge_index_from_commit commit =
     map_option (\<lambda>merge. \<lparr> mi_source_namespace_id = mr_source_namespace_id merge,
                            mi_committed_seq = wc_committed_seq commit,
                            mi_source_after_seq = mr_source_after_seq merge,
                            mi_source_through_seq = mr_source_through_seq merge \<rparr>)
       (wc_merge commit)"

datatype metadata_row =
    InodeRow inode_record
  | DirentryBindingRow direntry_binding_record
  | FileRevisionRow revision_record
  | TombstoneRow subtree_tombstone_record
  | ActiveDeletionRow active_deletion_record
  | CommitReceiptRow commit_receipt_record
  | CommitRow wal_commit_payload
  | MergeRow merge_index_record
  | ContentLayoutRow content_layout_record
  | AttributesRevisionRow attributes_revision_record
  | AccessRevisionRow access_revision_record

section \<open>Activity of a committed record\<close>

text \<open>\<open>slice::chunk_by\<close> on the semantic operation index.\<close>

fun semantic_operation_groups :: "wal_commit_delta list \<Rightarrow> wal_commit_delta list list" where
  "semantic_operation_groups [] = []"
| "semantic_operation_groups (d # ds) =
     (case semantic_operation_groups ds of
        [] \<Rightarrow> [[d]]
      | [] # gs \<Rightarrow> [d] # gs
      | (e # es) # gs \<Rightarrow>
          if wd_semantic_operation_index d = wd_semantic_operation_index e
          then (d # e # es) # gs
          else [d] # (e # es) # gs)"

text \<open>\<open>ActivityCounter::checked_add\<close>: a counter stays within the public integers.\<close>

definition counter_checked_add :: "u64 \<Rightarrow> u64 \<Rightarrow> u64 option" where
  "counter_checked_add a b = option_filter (\<lambda>n. n \<le> MAX_PUBLIC_INTEGER) (checked_add a b)"

record manifest_activity =
  ma_content_bytes :: u64
  ma_file_revisions :: u64
  ma_mutations :: u64

definition activity_checked_add ::
  "manifest_activity \<Rightarrow> manifest_activity \<Rightarrow> manifest_activity option" where
  "activity_checked_add a b =
     Option.bind (counter_checked_add (ma_content_bytes a) (ma_content_bytes b)) (\<lambda>content_bytes.
     Option.bind (counter_checked_add (ma_file_revisions a) (ma_file_revisions b)) (\<lambda>file_revisions.
     Option.bind (counter_checked_add (ma_mutations a) (ma_mutations b)) (\<lambda>mutations.
     Some \<lparr> ma_content_bytes = content_bytes, ma_file_revisions = file_revisions,
            ma_mutations = mutations \<rparr>)))"

definition inline_ends :: "wal_inline_content list \<Rightarrow> content_id \<rightharpoonup> u64" where
  "inline_ends entries =
     fold (\<lambda>entry ends.
             let end = (case ends (ic_content_id entry) of Some e \<Rightarrow> e | None \<Rightarrow> ic_offset entry)
             in ends(ic_content_id entry \<mapsto> min end (ic_offset entry)))
          entries Map.empty"

fun count_delta ::
  "wal_delta \<Rightarrow> (content_id \<rightharpoonup> u64) \<times> manifest_activity
    \<Rightarrow> ((content_id \<rightharpoonup> u64) \<times> manifest_activity) option" where
  "count_delta (AppendFileRevision _ _ _ _ _ _ _ _ _ content _ _) (ends, activity) =
     (let size_bytes = ct_size_bytes content;
          (counted, ends') =
            (case ends (ct_content_id content) of
               Some end \<Rightarrow> if size_bytes > end
                           then (size_bytes - end, ends(ct_content_id content \<mapsto> size_bytes))
                           else (size_bytes, ends)
             | None \<Rightarrow> (size_bytes, ends))
      in Option.bind (counter_checked_add (ma_content_bytes activity) counted) (\<lambda>bytes.
         Option.bind (counter_checked_add (ma_file_revisions activity) 1) (\<lambda>revisions.
         Some (ends', activity \<lparr> ma_content_bytes := bytes, ma_file_revisions := revisions \<rparr>))))"
| "count_delta _ s = Some s"

fun count_deltas ::
  "wal_commit_delta list \<Rightarrow> (content_id \<rightharpoonup> u64) \<times> manifest_activity
    \<Rightarrow> ((content_id \<rightharpoonup> u64) \<times> manifest_activity) option" where
  "count_deltas [] s = Some s"
| "count_deltas (d # ds) s = Option.bind (count_delta (wd_delta d) s) (count_deltas ds)"

fun count_groups ::
  "wal_commit_delta list list \<Rightarrow> (content_id \<rightharpoonup> u64) \<times> manifest_activity
    \<Rightarrow> ((content_id \<rightharpoonup> u64) \<times> manifest_activity) option" where
  "count_groups [] s = Some s"
| "count_groups (grp # groups) (ends, activity) =
     Option.bind (counter_checked_add (ma_mutations activity) 1) (\<lambda>mutations.
     Option.bind (count_deltas grp (ends, activity \<lparr> ma_mutations := mutations \<rparr>))
       (count_groups groups))"

definition committed_activity :: "wal_commit_payload \<Rightarrow> manifest_activity option" where
  "committed_activity payload =
     map_option snd (count_groups (semantic_operation_groups (wc_deltas payload))
       (inline_ends (wc_inline_content payload),
        \<lparr> ma_content_bytes = 0, ma_file_revisions = 0, ma_mutations = 0 \<rparr>))"

section \<open>Facts on rows\<close>

lemma hides_subtree_iff: "hides_subtree a \<longleftrightarrow> (\<exists>k b. a = Set k b)"
  by (cases a) auto

lemma is_bound_iff: "is_bound row \<longleftrightarrow> (\<exists>d r. db_state row = Bound d r)"
  by (auto simp: is_bound_def split: direntry_binding_state.splits)

lemma db_display_name_Some_iff:
  "db_display_name row = Some d \<longleftrightarrow> (\<exists>r. db_state row = Bound d r)"
  by (auto simp: db_display_name_def split: direntry_binding_state.splits)

lemma dp_seq_db_position [simp]: "dp_seq (db_position row) = db_committed_seq row"
  by (simp add: db_position_def)

lemma dp_seq_tb_position [simp]: "dp_seq (tb_position row) = tb_committed_seq row"
  by (simp add: tb_position_def)

text \<open>The groups of a commit's deltas partition them in order.\<close>

lemma concat_semantic_operation_groups: "concat (semantic_operation_groups ds) = ds"
  by (induction ds) (auto split: list.splits)

lemma count_deltas_append:
  "count_deltas (ds @ es) s = Option.bind (count_deltas ds s) (count_deltas es)"
proof (induction ds arbitrary: s)
  case (Cons d ds)
  then show ?case by (cases "count_delta (wd_delta d) s") (auto simp del: count_delta.simps)
qed simp

end
