(* ===== verification/Paths.thy ===== *)
theory Paths
  imports Vocabulary
begin

text \<open>
  Absolute paths (\<open>loonfs-types/src/path.rs\<close>) and the folding of display names into
  name keys (\<open>loonfs-types/src/name_policy.rs\<close>).  The Unicode tables behind the folding
  belong to third-party crates and are parameters.
\<close>

section \<open>Name keys\<close>

text \<open>
  The two operations of the \<open>icu\<close> crates the folding calls: composing normalisation and
  full case folding.
\<close>

record unicode_tables =
  uc_nfc :: "string \<Rightarrow> string"
  uc_fold :: "string \<Rightarrow> string"

definition name_key_for_display_name :: "unicode_tables \<Rightarrow> display_name \<Rightarrow> name_key" where
  "name_key_for_display_name u display_name =
     (let normalized = uc_nfc u display_name; folded = uc_fold u normalized
      in uc_nfc u folded)"

section \<open>Absolute paths\<close>

record absolute_path =
  ap_normalized :: string
  ap_components :: "display_name list"

text \<open>\<open>slice::join\<close>.\<close>

fun join_strings :: "string \<Rightarrow> string list \<Rightarrow> string" where
  "join_strings sep [] = []"
| "join_strings sep [x] = x"
| "join_strings sep (x # y # ys) = x @ sep @ join_strings sep (y # ys)"

definition normalized_path :: "display_name list \<Rightarrow> string" where
  "normalized_path components =
     (if components = [] then ''/'' else ''/'' @ join_strings ''/'' components)"

definition from_components :: "display_name list \<Rightarrow> absolute_path" where
  "from_components components =
     \<lparr> ap_normalized = normalized_path components, ap_components = components \<rparr>"

definition root_path :: absolute_path where
  "root_path = \<lparr> ap_normalized = ''/'', ap_components = [] \<rparr>"

definition is_root_path :: "absolute_path \<Rightarrow> bool" where
  "is_root_path path \<longleftrightarrow> ap_components path = []"

definition parent_path :: "absolute_path \<Rightarrow> absolute_path option" where
  "parent_path path =
     (if is_root_path path then None
      else if length (ap_components path) = 1 then Some root_path
      else Some (from_components (butlast (ap_components path))))"

definition final_component :: "absolute_path \<Rightarrow> display_name option" where
  "final_component path = last_opt (ap_components path)"

definition join_path :: "absolute_path \<Rightarrow> display_name \<Rightarrow> absolute_path" where
  "join_path path display_name = from_components (ap_components path @ [display_name])"

text \<open>A path is canonical when its spelling is the one of its components.\<close>

definition canonical_path :: "absolute_path \<Rightarrow> bool" where
  "canonical_path path \<longleftrightarrow> ap_normalized path = normalized_path (ap_components path)"

lemma canonical_path_iff: "canonical_path path \<longleftrightarrow> path = from_components (ap_components path)"
  by (cases path) (auto simp: canonical_path_def from_components_def)

lemma ap_components_join [simp]: "ap_components (join_path path d) = ap_components path @ [d]"
  by (simp add: join_path_def from_components_def)

lemma ap_components_root [simp]: "ap_components root_path = []"
  by (simp add: root_path_def)

lemma ap_components_from [simp]: "ap_components (from_components ds) = ds"
  by (simp add: from_components_def)

lemma canonical_root [simp]: "canonical_path root_path"
  by (simp add: canonical_path_def root_path_def normalized_path_def)

lemma canonical_from [simp]: "canonical_path (from_components ds)"
  by (simp add: canonical_path_def from_components_def)

lemma canonical_join [simp]: "canonical_path (join_path path d)"
  by (simp add: join_path_def)

end
