(* ===== verification/Reference_Model.thy ===== *)
theory Reference_Model
  imports Rows Paths "HOL-Library.Char_ord" "HOL-Library.List_Lexorder" "HOL-Library.Product_Lexorder"
begin

text \<open>
  The executable reference model (\<open>loonfs-model/src\<close>): its rows and the application of one
  commit's deltas (\<open>metadata.rs\<close>), the rules directory bindings keep (\<open>bindings.rs\<close>),
  visibility, path resolution and listings (\<open>visibility.rs\<close>) and the genesis state
  (\<open>genesis.rs\<close>).  The model's \<open>DeltaPosition\<close> has the fields and the order of the core's,
  and the theory uses that one type for both.
\<close>

section \<open>Rows\<close>

record model_inode =
  min_inode_id :: inode_id
  min_inode_kind :: inode_kind
  min_committed_seq :: change_seq
  min_commit_id :: commit_id
  min_committed_by :: actor_id
  min_committed_at_ms :: u64

datatype model_binding_state = ModelBound display_name | ModelUnbound

record model_binding =
  mdb_parent_inode_id :: inode_id
  mdb_name_key :: name_key
  mdb_child_inode_id :: inode_id
  mdb_committed_seq :: change_seq
  mdb_delta_index :: u32
  mdb_state :: model_binding_state

record model_layout =
  mly_content_id :: content_id
  mly_committed_seq :: change_seq
  mly_size_bytes :: u64
  mly_layout :: content_layout

record model_revision =
  mrv_inode_id :: inode_id
  mrv_revision_no :: revision_no
  mrv_committed_seq :: change_seq
  mrv_commit_id :: commit_id
  mrv_committed_at_ms :: u64
  mrv_committed_by :: actor_id
  mrv_revision_delta_index :: u32
  mrv_content_ref :: content_ref

record model_deleted_binding =
  mdl_parent_inode_id :: inode_id
  mdl_name_key :: string
  mdl_display_name :: string

datatype model_tombstone_action =
    ModelSet inode_kind model_deleted_binding
  | ModelRevoke delta_position

record model_tombstone =
  mtb_root_inode_id :: inode_id
  mtb_committed_seq :: change_seq
  mtb_delta_index :: u32
  mtb_commit_id :: commit_id
  mtb_committed_at_ms :: u64
  mtb_committed_by :: actor_id
  mtb_action :: model_tombstone_action

record attribute_entry =
  ae_key :: string
  ae_value :: string

record model_attribute_revision =
  mar_inode_id :: inode_id
  mar_revision_no :: u64
  mar_committed_seq :: change_seq
  mar_commit_id :: commit_id
  mar_delta_index :: u32
  mar_committed_by :: actor_id
  mar_committed_at_ms :: u64
  mar_entries :: "attribute_entry list"

record grant_entry =
  ge_principal_id :: string
  ge_rights :: "string list"

record model_access_revision =
  mxr_inode_id :: inode_id
  mxr_revision_no :: u64
  mxr_committed_seq :: change_seq
  mxr_commit_id :: commit_id
  mxr_delta_index :: u32
  mxr_committed_by :: actor_id
  mxr_committed_at_ms :: u64
  mxr_boundary :: bool
  mxr_grants :: "grant_entry list"

record model_state =
  md_inodes :: "model_inode list"
  md_direntry_binds :: "model_binding list"
  md_revisions :: "model_revision list"
  md_content_layouts :: "model_layout list"
  md_subtree_tombstones :: "model_tombstone list"
  md_attribute_revisions :: "model_attribute_revision list"
  md_access_revisions :: "model_access_revision list"

definition model_default :: model_state where
  "model_default =
     \<lparr> md_inodes = [], md_direntry_binds = [], md_revisions = [], md_content_layouts = [],
       md_subtree_tombstones = [], md_attribute_revisions = [], md_access_revisions = [] \<rparr>"

section \<open>Genesis\<close>

definition GENESIS_COMMIT_ID :: commit_id where
  "GENESIS_COMMIT_ID = ''c_00000000000000000000000000000000''"

definition LOONFS_ACTOR :: actor_id where
  "LOONFS_ACTOR = ''loonfs''"

definition bootstrap_metadata_state :: "u64 \<Rightarrow> model_state" where
  "bootstrap_metadata_state created_at_ms =
     model_default
       \<lparr> md_inodes :=
           [\<lparr> min_inode_id = ROOT_INODE_ID, min_inode_kind = Directory, min_committed_seq = 0,
              min_commit_id = GENESIS_COMMIT_ID, min_committed_by = LOONFS_ACTOR,
              min_committed_at_ms = created_at_ms \<rparr>] \<rparr>"

section \<open>Bindings\<close>

datatype model_error =
    ChildHasTwoParents change_seq inode_id delta_position delta_position
  | SlotHasTwoChildren change_seq inode_id name_key delta_position delta_position
  | BindingIndexesDisagree change_seq delta_position
  | AncestorCycle change_seq inode_id

definition mdb_position :: "model_binding \<Rightarrow> delta_position" where
  "mdb_position row = DeltaPosition (mdb_committed_seq row) (mdb_delta_index row)"

definition model_is_bound :: "model_binding \<Rightarrow> bool" where
  "model_is_bound row = (case mdb_state row of ModelBound _ \<Rightarrow> True | ModelUnbound \<Rightarrow> False)"

definition slot_value ::
  "model_state \<Rightarrow> inode_id \<Rightarrow> name_key \<Rightarrow> change_seq \<Rightarrow> model_binding option" where
  "slot_value md parent name_key seq =
     max_by_key mdb_position
       (filter (\<lambda>row. mdb_parent_inode_id row = parent \<and> mdb_name_key row = name_key
                        \<and> mdb_committed_seq row \<le> seq) (md_direntry_binds md))"

definition parent_binding :: "model_state \<Rightarrow> inode_id \<Rightarrow> change_seq \<Rightarrow> model_binding option" where
  "parent_binding md child seq =
     option_filter model_is_bound
       (max_by_key mdb_position
          (filter (\<lambda>row. mdb_child_inode_id row = child \<and> mdb_committed_seq row \<le> seq)
             (md_direntry_binds md)))"

text \<open>The loop of \<open>ancestry\<close>, with the inodes found so far; a repeated one ends it.\<close>

function ancestry_loop ::
  "model_state \<Rightarrow> change_seq \<Rightarrow> inode_id list \<Rightarrow> inode_id \<Rightarrow> (model_error, inode_id list) result" where
  "ancestry_loop md seq found current =
     (case parent_binding md current seq of
        None \<Rightarrow> Inr found
      | Some binding \<Rightarrow>
          (let current = mdb_parent_inode_id binding
           in if current \<in> set found then Inl (AncestorCycle seq current)
              else ancestry_loop md seq (found @ [current]) current))"
  by pat_completeness auto

termination
proof (relation "measure (\<lambda>(md, seq, found, current). card (- set found))", simp, goal_cases)
  case (1 md seq found current binding x)
  then have "- set (found @ [x]) \<subset> - set found" by auto
  then show ?case by (auto intro!: psubset_card_mono)
qed

declare ancestry_loop.simps [simp del]

definition ancestry :: "model_state \<Rightarrow> inode_id \<Rightarrow> change_seq \<Rightarrow> (model_error, inode_id list) result" where
  "ancestry md inode_id seq = ancestry_loop md seq [inode_id] inode_id"

text \<open>Maps ordered by key, filled in the order of the rows.\<close>

definition bound_by_slot :: "model_state \<Rightarrow> change_seq \<Rightarrow> ((inode_id \<times> name_key) \<times> model_binding) list" where
  "bound_by_slot md seq =
     fold (\<lambda>row by_slot.
             case option_filter model_is_bound
                    (slot_value md (mdb_parent_inode_id row) (mdb_name_key row) seq) of
               Some v \<Rightarrow> btree_insert (mdb_parent_inode_id v, mdb_name_key v) v by_slot
             | None \<Rightarrow> by_slot) (md_direntry_binds md) []"

definition bound_by_child :: "model_state \<Rightarrow> change_seq \<Rightarrow> (inode_id \<times> model_binding) list" where
  "bound_by_child md seq =
     fold (\<lambda>row by_child.
             case parent_binding md (mdb_child_inode_id row) seq of
               Some v \<Rightarrow> btree_insert (mdb_child_inode_id v) v by_child
             | None \<Rightarrow> by_child) (md_direntry_binds md) []"

fun check_slot_of_child ::
  "change_seq \<Rightarrow> (inode_id \<rightharpoonup> delta_position) \<Rightarrow> model_binding list \<Rightarrow> (model_error, unit) result" where
  "check_slot_of_child seq slot_of_child [] = Inr ()"
| "check_slot_of_child seq slot_of_child (v # vs) =
     (case slot_of_child (mdb_child_inode_id v) of
        Some other \<Rightarrow> Inl (ChildHasTwoParents seq (mdb_child_inode_id v) other (mdb_position v))
      | None \<Rightarrow> check_slot_of_child seq (slot_of_child(mdb_child_inode_id v \<mapsto> mdb_position v)) vs)"

fun check_child_of_slot ::
  "change_seq \<Rightarrow> (inode_id \<times> name_key \<rightharpoonup> delta_position) \<Rightarrow> model_binding list
    \<Rightarrow> (model_error, unit) result" where
  "check_child_of_slot seq child_of_slot [] = Inr ()"
| "check_child_of_slot seq child_of_slot (v # vs) =
     (let slot = (mdb_parent_inode_id v, mdb_name_key v)
      in case child_of_slot slot of
           Some other \<Rightarrow> Inl (SlotHasTwoChildren seq (mdb_parent_inode_id v) (mdb_name_key v) other
                                (mdb_position v))
         | None \<Rightarrow> check_child_of_slot seq (child_of_slot(slot \<mapsto> mdb_position v)) vs)"

fun check_ancestries :: "model_state \<Rightarrow> change_seq \<Rightarrow> inode_id list \<Rightarrow> (model_error, unit) result" where
  "check_ancestries md seq [] = Inr ()"
| "check_ancestries md seq (c # cs) = rbind (ancestry md c seq) (\<lambda>_. check_ancestries md seq cs)"

definition verify_bindings :: "model_state \<Rightarrow> change_seq \<Rightarrow> (model_error, unit) result" where
  "verify_bindings md seq =
     (let by_slot = bound_by_slot md seq;
          by_child = bound_by_child md seq
      in rbind (check_slot_of_child seq Map.empty (map snd by_slot)) (\<lambda>_.
         rbind (check_child_of_slot seq Map.empty (map snd by_child)) (\<lambda>_.
         let slot_order = set (map (mdb_position \<circ> snd) by_slot);
             child_order = set (map (mdb_position \<circ> snd) by_child);
             differing = (slot_order - child_order) \<union> (child_order - slot_order)
         in rbind (err_if (differing \<noteq> {}) (BindingIndexesDisagree seq (Min differing))) (\<lambda>_.
            check_ancestries md seq (map fst by_child)))))"

section \<open>Applying a commit\<close>

fun model_push_delta ::
  "change_seq \<Rightarrow> commit_id \<Rightarrow> actor_id \<Rightarrow> u64 \<Rightarrow> wal_delta \<Rightarrow> model_state \<Rightarrow> model_state" where
  "model_push_delta seq commit_id actor ms (CreateInode _ inode_id inode_kind) md =
     md \<lparr> md_inodes := md_inodes md @
            [\<lparr> min_inode_id = inode_id, min_inode_kind = inode_kind, min_committed_seq = seq,
               min_commit_id = commit_id, min_committed_by = actor, min_committed_at_ms = ms \<rparr>] \<rparr>"
| "model_push_delta seq commit_id actor ms
     (BindDirentry delta_index parent name_key display_name child _ _ _ _) md =
     md \<lparr> md_direntry_binds := md_direntry_binds md @
            [\<lparr> mdb_parent_inode_id = parent, mdb_name_key = name_key, mdb_child_inode_id = child,
               mdb_committed_seq = seq, mdb_delta_index = delta_index,
               mdb_state = ModelBound display_name \<rparr>] \<rparr>"
| "model_push_delta seq commit_id actor ms
     (UnbindDirentry delta_index parent name_key _ child _ _ _ _) md =
     md \<lparr> md_direntry_binds := md_direntry_binds md @
            [\<lparr> mdb_parent_inode_id = parent, mdb_name_key = name_key, mdb_child_inode_id = child,
               mdb_committed_seq = seq, mdb_delta_index = delta_index,
               mdb_state = ModelUnbound \<rparr>] \<rparr>"
| "model_push_delta seq commit_id actor ms
     (AppendFileRevision delta_index inode_id _ _ _ _ _ _ revision_no content layout _) md =
     (let md = (case layout of
                  Some layout \<Rightarrow>
                    md \<lparr> md_content_layouts := md_content_layouts md @
                           [\<lparr> mly_content_id = ct_content_id content, mly_committed_seq = seq,
                              mly_size_bytes = layout_size_bytes layout, mly_layout = layout \<rparr>] \<rparr>
                | None \<Rightarrow> md)
      in md \<lparr> md_revisions := md_revisions md @
                [\<lparr> mrv_inode_id = inode_id, mrv_revision_no = revision_no, mrv_committed_seq = seq,
                   mrv_commit_id = commit_id, mrv_committed_at_ms = ms, mrv_committed_by = actor,
                   mrv_revision_delta_index = delta_index, mrv_content_ref = content \<rparr>] \<rparr>)"
| "model_push_delta seq commit_id actor ms
     (TombstoneSubtree delta_index root_inode_id root_kind deleted_binding) md =
     md \<lparr> md_subtree_tombstones := md_subtree_tombstones md @
            [\<lparr> mtb_root_inode_id = root_inode_id, mtb_committed_seq = seq,
               mtb_delta_index = delta_index, mtb_commit_id = commit_id,
               mtb_committed_at_ms = ms, mtb_committed_by = actor,
               mtb_action = ModelSet root_kind
                 \<lparr> mdl_parent_inode_id = dl_parent_inode_id deleted_binding,
                   mdl_name_key = dl_name_key deleted_binding,
                   mdl_display_name = dl_display_name deleted_binding \<rparr> \<rparr>] \<rparr>"
| "model_push_delta seq commit_id actor ms
     (RevokeSubtreeTombstone delta_index root_inode_id target) md =
     md \<lparr> md_subtree_tombstones := md_subtree_tombstones md @
            [\<lparr> mtb_root_inode_id = root_inode_id, mtb_committed_seq = seq,
               mtb_delta_index = delta_index, mtb_commit_id = commit_id,
               mtb_committed_at_ms = ms, mtb_committed_by = actor,
               mtb_action = ModelRevoke (DeltaPosition (dp_seq target) (dp_delta_index target)) \<rparr>] \<rparr>"
| "model_push_delta seq commit_id actor ms
     (AppendAttributesRevision delta_index inode_id attributes_revision_no attributes) md =
     md \<lparr> md_attribute_revisions := md_attribute_revisions md @
            [\<lparr> mar_inode_id = inode_id, mar_revision_no = attributes_revision_no,
               mar_committed_seq = seq, mar_commit_id = commit_id, mar_delta_index = delta_index,
               mar_committed_by = actor, mar_committed_at_ms = ms,
               mar_entries = map (\<lambda>(key, v). \<lparr> ae_key = key, ae_value = v \<rparr>) attributes \<rparr>] \<rparr>"
| "model_push_delta seq commit_id actor ms
     (AppendAccessRevision delta_index inode_id access_revision_no boundary grants) md =
     md \<lparr> md_access_revisions := md_access_revisions md @
            [\<lparr> mxr_inode_id = inode_id, mxr_revision_no = access_revision_no,
               mxr_committed_seq = seq, mxr_commit_id = commit_id, mxr_delta_index = delta_index,
               mxr_committed_by = actor, mxr_committed_at_ms = ms, mxr_boundary = boundary,
               mxr_grants =
                 map (\<lambda>(principal, rights).
                        \<lparr> ge_principal_id = principal,
                          ge_rights = map right_as_str (rights_iter rights) \<rparr>) grants \<rparr>] \<rparr>"

definition model_apply_committed_wal_deltas ::
  "change_seq \<Rightarrow> commit_id \<Rightarrow> actor_id \<Rightarrow> u64 \<Rightarrow> wal_delta list \<Rightarrow> model_state
    \<Rightarrow> (model_error, model_state) result" where
  "model_apply_committed_wal_deltas seq commit_id actor ms deltas md =
     (let md = fold (model_push_delta seq commit_id actor ms) deltas md
      in rbind (verify_bindings md seq) (\<lambda>_. Inr md))"

section \<open>Visibility\<close>

datatype resolved_path =
    Found string model_inode "model_binding option"
  | NotFound string
  | NotADirectory string model_inode

record listed_entry =
  le_binding :: model_binding
  le_display_name :: display_name
  le_child :: model_inode

definition is_hidden_root :: "model_state \<Rightarrow> inode_id \<Rightarrow> change_seq \<Rightarrow> bool" where
  "is_hidden_root md root seq =
     (case max_by_key (\<lambda>event. (mtb_committed_seq event, mtb_delta_index event))
             (filter (\<lambda>event. mtb_root_inode_id event = root \<and> mtb_committed_seq event \<le> seq)
                (md_subtree_tombstones md)) of
        None \<Rightarrow> False
      | Some event \<Rightarrow> (case mtb_action event of ModelSet _ _ \<Rightarrow> True | ModelRevoke _ \<Rightarrow> False))"

definition model_visible_inode ::
  "model_state \<Rightarrow> inode_id \<Rightarrow> change_seq \<Rightarrow> (model_error, model_inode option) result" where
  "model_visible_inode md inode_id seq =
     (case find (\<lambda>inode. min_inode_id inode = inode_id \<and> min_committed_seq inode \<le> seq)
             (md_inodes md) of
        None \<Rightarrow> Inr None
      | Some inode \<Rightarrow>
          rbind (ancestry md inode_id seq) (\<lambda>members.
            Inr (if list_ex (\<lambda>member. is_hidden_root md member seq) members then None
                 else Some inode)))"

definition visible_entry ::
  "model_state \<Rightarrow> inode_id \<Rightarrow> name_key \<Rightarrow> change_seq \<Rightarrow> (model_error, listed_entry option) result" where
  "visible_entry md parent name_key seq =
     (case slot_value md parent name_key seq of
        None \<Rightarrow> Inr None
      | Some binding \<Rightarrow>
          (case mdb_state binding of
             ModelUnbound \<Rightarrow> Inr None
           | ModelBound display_name \<Rightarrow>
               rbind (model_visible_inode md (mdb_child_inode_id binding) seq) (\<lambda>child.
                 Inr (map_option (\<lambda>child. \<lparr> le_binding = binding, le_display_name = display_name,
                                            le_child = child \<rparr>) child))))"

definition model_absolute_path :: "string list \<Rightarrow> string" where
  "model_absolute_path names = ''/'' @ join_strings ''/'' names"

fun model_resolve_loop ::
  "unicode_tables \<Rightarrow> model_state \<Rightarrow> change_seq \<Rightarrow> model_inode \<Rightarrow> model_binding option \<Rightarrow> string list
    \<Rightarrow> display_name list \<Rightarrow> (model_error, resolved_path) result" where
  "model_resolve_loop u md seq inode binding names [] =
     Inr (Found (model_absolute_path names) inode binding)"
| "model_resolve_loop u md seq inode binding names (component # components) =
     (if min_inode_kind inode \<noteq> Directory
      then Inr (NotADirectory (model_absolute_path names) inode)
      else rbind (visible_entry md (min_inode_id inode) (name_key_for_display_name u component) seq)
             (\<lambda>entry.
                case entry of
                  None \<Rightarrow> Inr (NotFound (model_absolute_path (names @ [component])))
                | Some entry \<Rightarrow>
                    model_resolve_loop u md seq (le_child entry) (Some (le_binding entry))
                      (names @ [le_display_name entry]) components))"

definition resolve_path ::
  "unicode_tables \<Rightarrow> model_state \<Rightarrow> absolute_path \<Rightarrow> change_seq \<Rightarrow> (model_error, resolved_path) result" where
  "resolve_path u md path seq =
     rbind (model_visible_inode md ROOT_INODE_ID seq) (\<lambda>inode.
       case inode of
         None \<Rightarrow> Inr (NotFound (model_absolute_path []))
       | Some inode \<Rightarrow> model_resolve_loop u md seq inode None [] (ap_components path))"

fun collect_entries ::
  "model_state \<Rightarrow> inode_id \<Rightarrow> change_seq \<Rightarrow> name_key list \<Rightarrow> (model_error, listed_entry list) result" where
  "collect_entries md parent seq [] = Inr []"
| "collect_entries md parent seq (name_key # name_keys) =
     rbind (visible_entry md parent name_key seq) (\<lambda>entry.
     rbind (collect_entries md parent seq name_keys) (\<lambda>entries.
     Inr (option_list entry @ entries)))"

definition list_directory ::
  "model_state \<Rightarrow> inode_id \<Rightarrow> change_seq \<Rightarrow> (model_error, listed_entry list) result" where
  "list_directory md parent seq =
     collect_entries md parent seq
       (sort (remdups (map mdb_name_key
          (filter (\<lambda>row. mdb_parent_inode_id row = parent) (md_direntry_binds md)))))"

definition would_create_cycle ::
  "model_state \<Rightarrow> inode_id \<Rightarrow> inode_id \<Rightarrow> change_seq \<Rightarrow> (model_error, bool) result" where
  "would_create_cycle md inode_id new_parent seq =
     rbind (ancestry md new_parent seq) (\<lambda>members. Inr (inode_id \<in> set members))"

end
