(* ===== verification/Metadata_State.thy ===== *)
theory Metadata_State
  imports Rows "HOL-Library.Product_Lexorder"
begin

text \<open>
  The in-memory metadata state of \<open>loonfs-core\<close>: the row lists with their at-head
  indexes (\<open>metadata/rows.rs\<close>, \<open>metadata/indexes.rs\<close>) and the application of committed
  write-ahead-log deltas to them (\<open>metadata/apply.rs\<close>).  The invariant
  \<open>indexes_ok\<close> says that each index holds a newest row of its key and that no row is
  above the indexed sequence; every push keeps it, so every applied commit does.  The
  byte counts that only feed cache accounting (\<open>row_heap_bytes\<close>, \<open>owned_heap_bytes\<close>)
  are left out: no read depends on them.
\<close>

section \<open>Indexes\<close>

record metadata_indexes =
  ix_indexed_seq :: change_seq
  ix_inode_by_id :: "inode_id \<rightharpoonup> inode_record"
  ix_latest_bind_by_parent_name :: "inode_id \<times> name_key \<rightharpoonup> direntry_binding_record"
  ix_latest_binding_by_child :: "inode_id \<rightharpoonup> direntry_binding_record"
  ix_tombstone_by_root :: "inode_id \<rightharpoonup> subtree_tombstone_record"
  ix_commit_receipt_by_id :: "commit_id \<rightharpoonup> commit_receipt_record"
  ix_content_layout_by_id :: "content_id \<rightharpoonup> content_layout_record"

definition default_indexes :: metadata_indexes where
  "default_indexes =
     \<lparr> ix_indexed_seq = 0, ix_inode_by_id = Map.empty, ix_latest_bind_by_parent_name = Map.empty,
       ix_latest_binding_by_child = Map.empty, ix_tombstone_by_root = Map.empty,
       ix_commit_receipt_by_id = Map.empty, ix_content_layout_by_id = Map.empty \<rparr>"

text \<open>The first of two rows with equal order keeps its place.\<close>

definition replace_if_newer ::
  "('k \<rightharpoonup> 'v) \<Rightarrow> 'k \<Rightarrow> 'v \<Rightarrow> ('v \<Rightarrow> 'o::linorder) \<Rightarrow> ('k \<rightharpoonup> 'v)" where
  "replace_if_newer m k v ord =
     (case m k of
        Some existing \<Rightarrow> if ord v > ord existing then m(k \<mapsto> v) else m
      | None \<Rightarrow> m(k \<mapsto> v))"

definition tombstone_order_key :: "subtree_tombstone_record \<Rightarrow> change_seq \<times> u32" where
  "tombstone_order_key row = (tb_committed_seq row, tb_delta_index row)"

definition bump_seq :: "change_seq \<Rightarrow> metadata_indexes \<Rightarrow> metadata_indexes" where
  "bump_seq s ix = ix \<lparr> ix_indexed_seq := max (ix_indexed_seq ix) s \<rparr>"

definition record_inode :: "inode_record \<Rightarrow> metadata_indexes \<Rightarrow> metadata_indexes" where
  "record_inode row ix =
     (bump_seq (ir_committed_seq row) ix)
       \<lparr> ix_inode_by_id := (ix_inode_by_id ix)(ir_inode_id row \<mapsto> row) \<rparr>"

definition record_binding :: "direntry_binding_record \<Rightarrow> metadata_indexes \<Rightarrow> metadata_indexes" where
  "record_binding row ix =
     (let ix = bump_seq (db_committed_seq row) ix;
          ix = ix \<lparr> ix_latest_bind_by_parent_name :=
                      replace_if_newer (ix_latest_bind_by_parent_name ix)
                        (db_parent_inode_id row, db_name_key row) row db_position \<rparr>
      in if is_binding_event row
         then ix \<lparr> ix_latest_binding_by_child :=
                     replace_if_newer (ix_latest_binding_by_child ix)
                       (db_child_inode_id row) row db_position \<rparr>
         else ix)"

definition record_revision :: "revision_record \<Rightarrow> metadata_indexes \<Rightarrow> metadata_indexes" where
  "record_revision row ix = bump_seq (rv_committed_seq row) ix"

definition record_tombstone :: "subtree_tombstone_record \<Rightarrow> metadata_indexes \<Rightarrow> metadata_indexes" where
  "record_tombstone row ix =
     (let ix = bump_seq (tb_committed_seq row) ix
      in ix \<lparr> ix_tombstone_by_root :=
                replace_if_newer (ix_tombstone_by_root ix) (tb_root_inode_id row) row
                  tombstone_order_key \<rparr>)"

definition record_content_layout :: "content_layout_record \<Rightarrow> metadata_indexes \<Rightarrow> metadata_indexes" where
  "record_content_layout row ix =
     (let ix = bump_seq (cl_committed_seq row) ix
      in ix \<lparr> ix_content_layout_by_id :=
                replace_if_newer (ix_content_layout_by_id ix) (cl_content_id row) row
                  (\<lambda>row. (cl_size_bytes row, cl_committed_seq row)) \<rparr>)"

definition record_commit_receipt :: "commit_receipt_record \<Rightarrow> metadata_indexes \<Rightarrow> metadata_indexes" where
  "record_commit_receipt row ix =
     (let ix = bump_seq (cr_committed_seq row) ix
      in ix \<lparr> ix_commit_receipt_by_id :=
                replace_if_newer (ix_commit_receipt_by_id ix) (cr_commit_id row) row
                  cr_committed_seq \<rparr>)"

definition record_attributes_revision ::
  "attributes_revision_record \<Rightarrow> metadata_indexes \<Rightarrow> metadata_indexes" where
  "record_attributes_revision row ix = bump_seq (ar_committed_seq row) ix"

definition record_access_revision ::
  "access_revision_record \<Rightarrow> metadata_indexes \<Rightarrow> metadata_indexes" where
  "record_access_revision row ix = bump_seq (xr_committed_seq row) ix"

text \<open>The lookups on the indexes.\<close>

definition ix_active_child ::
  "metadata_indexes \<Rightarrow> inode_id \<Rightarrow> name_key \<Rightarrow> direntry_binding_record option" where
  "ix_active_child ix parent name =
     option_filter is_bound (ix_latest_bind_by_parent_name ix (parent, name))"

definition ix_active_parent_for_child ::
  "metadata_indexes \<Rightarrow> inode_id \<Rightarrow> direntry_binding_record option" where
  "ix_active_parent_for_child ix child =
     option_filter is_bound (ix_latest_binding_by_child ix child)"

definition ix_hiding_tombstone ::
  "metadata_indexes \<Rightarrow> inode_id \<Rightarrow> subtree_tombstone_record option" where
  "ix_hiding_tombstone ix root =
     option_filter (\<lambda>row. hides_subtree (tb_action row)) (ix_tombstone_by_root ix root)"

section \<open>The state and its pushes\<close>

record metadata_state =
  ms_inodes :: "inode_record list"
  ms_direntry_binds :: "direntry_binding_record list"
  ms_revisions :: "revision_record list"
  ms_subtree_tombstones :: "subtree_tombstone_record list"
  ms_commit_receipts :: "commit_receipt_record list"
  ms_commits :: "wal_commit_payload list"
  ms_content_layouts :: "content_layout_record list"
  ms_attributes_revisions :: "attributes_revision_record list"
  ms_access_revisions :: "access_revision_record list"
  ms_row_count :: u64
  ms_indexes :: metadata_indexes

definition indexed_seq :: "metadata_state \<Rightarrow> change_seq" where
  "indexed_seq st = ix_indexed_seq (ms_indexes st)"

definition record_row_weight :: "metadata_state \<Rightarrow> metadata_state" where
  "record_row_weight st = st \<lparr> ms_row_count := saturating_add (ms_row_count st) 1 \<rparr>"

definition push_inode_record :: "inode_record \<Rightarrow> metadata_state \<Rightarrow> metadata_state" where
  "push_inode_record row st =
     (record_row_weight st) \<lparr> ms_indexes := record_inode row (ms_indexes st),
                              ms_inodes := ms_inodes st @ [row] \<rparr>"

definition push_direntry_binding_record ::
  "direntry_binding_record \<Rightarrow> metadata_state \<Rightarrow> metadata_state" where
  "push_direntry_binding_record row st =
     (record_row_weight st) \<lparr> ms_indexes := record_binding row (ms_indexes st),
                              ms_direntry_binds := ms_direntry_binds st @ [row] \<rparr>"

definition push_revision_record :: "revision_record \<Rightarrow> metadata_state \<Rightarrow> metadata_state" where
  "push_revision_record row st =
     (record_row_weight st) \<lparr> ms_indexes := record_revision row (ms_indexes st),
                              ms_revisions := ms_revisions st @ [row] \<rparr>"

definition push_subtree_tombstone_record ::
  "subtree_tombstone_record \<Rightarrow> metadata_state \<Rightarrow> metadata_state" where
  "push_subtree_tombstone_record row st =
     (record_row_weight st) \<lparr> ms_indexes := record_tombstone row (ms_indexes st),
                              ms_subtree_tombstones := ms_subtree_tombstones st @ [row] \<rparr>"

definition push_commit_receipt_record ::
  "commit_receipt_record \<Rightarrow> metadata_state \<Rightarrow> metadata_state" where
  "push_commit_receipt_record row st =
     (record_row_weight st) \<lparr> ms_indexes := record_commit_receipt row (ms_indexes st),
                              ms_commit_receipts := ms_commit_receipts st @ [row] \<rparr>"

definition push_commit_record :: "wal_commit_payload \<Rightarrow> metadata_state \<Rightarrow> metadata_state" where
  "push_commit_record row st =
     (record_row_weight st) \<lparr> ms_commits := ms_commits st @ [row] \<rparr>"

definition push_content_layout_record ::
  "content_layout_record \<Rightarrow> metadata_state \<Rightarrow> metadata_state" where
  "push_content_layout_record row st =
     (record_row_weight st) \<lparr> ms_indexes := record_content_layout row (ms_indexes st),
                              ms_content_layouts := ms_content_layouts st @ [row] \<rparr>"

definition push_attributes_revision_record ::
  "attributes_revision_record \<Rightarrow> metadata_state \<Rightarrow> metadata_state" where
  "push_attributes_revision_record row st =
     (record_row_weight st) \<lparr> ms_indexes := record_attributes_revision row (ms_indexes st),
                              ms_attributes_revisions := ms_attributes_revisions st @ [row] \<rparr>"

definition push_access_revision_record ::
  "access_revision_record \<Rightarrow> metadata_state \<Rightarrow> metadata_state" where
  "push_access_revision_record row st =
     (record_row_weight st) \<lparr> ms_indexes := record_access_revision row (ms_indexes st),
                              ms_access_revisions := ms_access_revisions st @ [row] \<rparr>"

text \<open>What a push does to each list of rows.\<close>

lemma push_inode_record_sel [simp]:
  shows "ms_inodes (push_inode_record row st) = ms_inodes st @ [row]"
    and "ms_direntry_binds (push_inode_record row st) = ms_direntry_binds st"
    and "ms_revisions (push_inode_record row st) = ms_revisions st"
    and "ms_subtree_tombstones (push_inode_record row st) = ms_subtree_tombstones st"
    and "ms_content_layouts (push_inode_record row st) = ms_content_layouts st"
    and "ms_commit_receipts (push_inode_record row st) = ms_commit_receipts st"
    and "ms_attributes_revisions (push_inode_record row st) = ms_attributes_revisions st"
    and "ms_access_revisions (push_inode_record row st) = ms_access_revisions st"
    and "ms_commits (push_inode_record row st) = ms_commits st"
  by (simp_all add: push_inode_record_def record_row_weight_def)

lemma push_direntry_binding_record_sel [simp]:
  shows "ms_inodes (push_direntry_binding_record row st) = ms_inodes st"
    and "ms_direntry_binds (push_direntry_binding_record row st) = ms_direntry_binds st @ [row]"
    and "ms_revisions (push_direntry_binding_record row st) = ms_revisions st"
    and "ms_subtree_tombstones (push_direntry_binding_record row st) = ms_subtree_tombstones st"
    and "ms_content_layouts (push_direntry_binding_record row st) = ms_content_layouts st"
    and "ms_commit_receipts (push_direntry_binding_record row st) = ms_commit_receipts st"
    and "ms_attributes_revisions (push_direntry_binding_record row st) = ms_attributes_revisions st"
    and "ms_access_revisions (push_direntry_binding_record row st) = ms_access_revisions st"
    and "ms_commits (push_direntry_binding_record row st) = ms_commits st"
  by (simp_all add: push_direntry_binding_record_def record_row_weight_def)

lemma push_revision_record_sel [simp]:
  shows "ms_inodes (push_revision_record row st) = ms_inodes st"
    and "ms_direntry_binds (push_revision_record row st) = ms_direntry_binds st"
    and "ms_revisions (push_revision_record row st) = ms_revisions st @ [row]"
    and "ms_subtree_tombstones (push_revision_record row st) = ms_subtree_tombstones st"
    and "ms_content_layouts (push_revision_record row st) = ms_content_layouts st"
    and "ms_commit_receipts (push_revision_record row st) = ms_commit_receipts st"
    and "ms_attributes_revisions (push_revision_record row st) = ms_attributes_revisions st"
    and "ms_access_revisions (push_revision_record row st) = ms_access_revisions st"
    and "ms_commits (push_revision_record row st) = ms_commits st"
  by (simp_all add: push_revision_record_def record_row_weight_def)

lemma push_subtree_tombstone_record_sel [simp]:
  shows "ms_inodes (push_subtree_tombstone_record row st) = ms_inodes st"
    and "ms_direntry_binds (push_subtree_tombstone_record row st) = ms_direntry_binds st"
    and "ms_revisions (push_subtree_tombstone_record row st) = ms_revisions st"
    and "ms_subtree_tombstones (push_subtree_tombstone_record row st) = ms_subtree_tombstones st @ [row]"
    and "ms_content_layouts (push_subtree_tombstone_record row st) = ms_content_layouts st"
    and "ms_commit_receipts (push_subtree_tombstone_record row st) = ms_commit_receipts st"
    and "ms_attributes_revisions (push_subtree_tombstone_record row st) = ms_attributes_revisions st"
    and "ms_access_revisions (push_subtree_tombstone_record row st) = ms_access_revisions st"
    and "ms_commits (push_subtree_tombstone_record row st) = ms_commits st"
  by (simp_all add: push_subtree_tombstone_record_def record_row_weight_def)

lemma push_content_layout_record_sel [simp]:
  shows "ms_inodes (push_content_layout_record row st) = ms_inodes st"
    and "ms_direntry_binds (push_content_layout_record row st) = ms_direntry_binds st"
    and "ms_revisions (push_content_layout_record row st) = ms_revisions st"
    and "ms_subtree_tombstones (push_content_layout_record row st) = ms_subtree_tombstones st"
    and "ms_content_layouts (push_content_layout_record row st) = ms_content_layouts st @ [row]"
    and "ms_commit_receipts (push_content_layout_record row st) = ms_commit_receipts st"
    and "ms_attributes_revisions (push_content_layout_record row st) = ms_attributes_revisions st"
    and "ms_access_revisions (push_content_layout_record row st) = ms_access_revisions st"
    and "ms_commits (push_content_layout_record row st) = ms_commits st"
  by (simp_all add: push_content_layout_record_def record_row_weight_def)

lemma push_commit_receipt_record_sel [simp]:
  shows "ms_inodes (push_commit_receipt_record row st) = ms_inodes st"
    and "ms_direntry_binds (push_commit_receipt_record row st) = ms_direntry_binds st"
    and "ms_revisions (push_commit_receipt_record row st) = ms_revisions st"
    and "ms_subtree_tombstones (push_commit_receipt_record row st) = ms_subtree_tombstones st"
    and "ms_content_layouts (push_commit_receipt_record row st) = ms_content_layouts st"
    and "ms_commit_receipts (push_commit_receipt_record row st) = ms_commit_receipts st @ [row]"
    and "ms_attributes_revisions (push_commit_receipt_record row st) = ms_attributes_revisions st"
    and "ms_access_revisions (push_commit_receipt_record row st) = ms_access_revisions st"
    and "ms_commits (push_commit_receipt_record row st) = ms_commits st"
  by (simp_all add: push_commit_receipt_record_def record_row_weight_def)

lemma push_attributes_revision_record_sel [simp]:
  shows "ms_inodes (push_attributes_revision_record row st) = ms_inodes st"
    and "ms_direntry_binds (push_attributes_revision_record row st) = ms_direntry_binds st"
    and "ms_revisions (push_attributes_revision_record row st) = ms_revisions st"
    and "ms_subtree_tombstones (push_attributes_revision_record row st) = ms_subtree_tombstones st"
    and "ms_content_layouts (push_attributes_revision_record row st) = ms_content_layouts st"
    and "ms_commit_receipts (push_attributes_revision_record row st) = ms_commit_receipts st"
    and "ms_attributes_revisions (push_attributes_revision_record row st) = ms_attributes_revisions st @ [row]"
    and "ms_access_revisions (push_attributes_revision_record row st) = ms_access_revisions st"
    and "ms_commits (push_attributes_revision_record row st) = ms_commits st"
  by (simp_all add: push_attributes_revision_record_def record_row_weight_def)

lemma push_access_revision_record_sel [simp]:
  shows "ms_inodes (push_access_revision_record row st) = ms_inodes st"
    and "ms_direntry_binds (push_access_revision_record row st) = ms_direntry_binds st"
    and "ms_revisions (push_access_revision_record row st) = ms_revisions st"
    and "ms_subtree_tombstones (push_access_revision_record row st) = ms_subtree_tombstones st"
    and "ms_content_layouts (push_access_revision_record row st) = ms_content_layouts st"
    and "ms_commit_receipts (push_access_revision_record row st) = ms_commit_receipts st"
    and "ms_attributes_revisions (push_access_revision_record row st) = ms_attributes_revisions st"
    and "ms_access_revisions (push_access_revision_record row st) = ms_access_revisions st @ [row]"
    and "ms_commits (push_access_revision_record row st) = ms_commits st"
  by (simp_all add: push_access_revision_record_def record_row_weight_def)

lemma push_commit_record_sel [simp]:
  shows "ms_inodes (push_commit_record row st) = ms_inodes st"
    and "ms_direntry_binds (push_commit_record row st) = ms_direntry_binds st"
    and "ms_revisions (push_commit_record row st) = ms_revisions st"
    and "ms_subtree_tombstones (push_commit_record row st) = ms_subtree_tombstones st"
    and "ms_content_layouts (push_commit_record row st) = ms_content_layouts st"
    and "ms_commit_receipts (push_commit_record row st) = ms_commit_receipts st"
    and "ms_attributes_revisions (push_commit_record row st) = ms_attributes_revisions st"
    and "ms_access_revisions (push_commit_record row st) = ms_access_revisions st"
    and "ms_commits (push_commit_record row st) = ms_commits st @ [row]"
  by (simp_all add: push_commit_record_def record_row_weight_def)

section \<open>Building a state from rows\<close>

definition rebuild :: "metadata_state \<Rightarrow> metadata_indexes" where
  "rebuild st =
     (fold record_access_revision (ms_access_revisions st) \<circ>
      fold record_attributes_revision (ms_attributes_revisions st) \<circ>
      fold record_commit_receipt (ms_commit_receipts st) \<circ>
      fold record_content_layout (ms_content_layouts st) \<circ>
      fold record_tombstone (ms_subtree_tombstones st) \<circ>
      fold record_revision (ms_revisions st) \<circ>
      fold record_binding (ms_direntry_binds st) \<circ>
      fold record_inode (ms_inodes st)) default_indexes"

definition metadata_row_count :: "metadata_state \<Rightarrow> u64" where
  "metadata_row_count st =
     fold (\<lambda>n acc. saturating_add acc (of_nat n))
       [length (ms_direntry_binds st), length (ms_revisions st), length (ms_subtree_tombstones st),
        length (ms_commit_receipts st), length (ms_commits st), length (ms_content_layouts st),
        length (ms_attributes_revisions st), length (ms_access_revisions st)]
       (of_nat (length (ms_inodes st)))"

definition rebuild_indexes :: "metadata_state \<Rightarrow> metadata_state" where
  "rebuild_indexes st =
     (let st = st \<lparr> ms_row_count := metadata_row_count st \<rparr>
      in st \<lparr> ms_indexes := rebuild st \<rparr>)"

definition from_rows ::
  "inode_record list \<Rightarrow> direntry_binding_record list \<Rightarrow> revision_record list
    \<Rightarrow> subtree_tombstone_record list \<Rightarrow> commit_receipt_record list \<Rightarrow> wal_commit_payload list
    \<Rightarrow> attributes_revision_record list \<Rightarrow> content_layout_record list
    \<Rightarrow> access_revision_record list \<Rightarrow> metadata_state" where
  "from_rows inodes direntry_binds revisions subtree_tombstones commit_receipts commits
     attributes_revisions content_layouts access_revisions =
     rebuild_indexes
       \<lparr> ms_inodes = inodes, ms_direntry_binds = direntry_binds, ms_revisions = revisions,
         ms_subtree_tombstones = subtree_tombstones, ms_commit_receipts = commit_receipts,
         ms_commits = commits, ms_content_layouts = content_layouts,
         ms_attributes_revisions = attributes_revisions, ms_access_revisions = access_revisions,
         ms_row_count = 0, ms_indexes = default_indexes \<rparr>"

definition default_state :: metadata_state where
  "default_state = from_rows [] [] [] [] [] [] [] [] []"

section \<open>Tombstone events and recoverable deletions\<close>

text \<open>Among a root's events at or below a sequence, the newest one speaks for the root.\<close>

definition newest_tombstone_from_records ::
  "subtree_tombstone_record list \<Rightarrow> change_seq \<Rightarrow> subtree_tombstone_record option" where
  "newest_tombstone_from_records rows visible_seq =
     max_by_key tb_position (filter (\<lambda>row. tb_committed_seq row \<le> visible_seq) rows)"

definition hiding_tombstone_from_records ::
  "subtree_tombstone_record list \<Rightarrow> change_seq \<Rightarrow> subtree_tombstone_record option" where
  "hiding_tombstone_from_records rows visible_seq =
     option_filter (\<lambda>row. hides_subtree (tb_action row))
       (newest_tombstone_from_records rows visible_seq)"

definition active_deletion_from_tombstone :: "subtree_tombstone_record \<Rightarrow> active_deletion_record" where
  "active_deletion_from_tombstone row =
     (case tb_action row of
        Set root_kind deleted_binding \<Rightarrow>
          \<lparr> ad_root_inode_id = tb_root_inode_id row, ad_deletion_seq = tb_committed_seq row,
            ad_action = Listed root_kind (tb_committed_at_ms row) (tb_committed_by row)
                          deleted_binding \<rparr>
      | Revoke target \<Rightarrow>
          \<lparr> ad_root_inode_id = tb_root_inode_id row, ad_deletion_seq = dp_seq target,
            ad_action = Removed (tb_committed_seq row) \<rparr>)"

record recoverable_deletion =
  rd_root_inode_id :: inode_id
  rd_inode_kind :: inode_kind
  rd_deletion_seq :: change_seq
  rd_deleted_at_ms :: u64
  rd_deleted_by :: actor_id
  rd_deleted_binding :: deleted_binding

definition recoverable_deletion_from_active_record ::
  "active_deletion_record \<Rightarrow> recoverable_deletion option" where
  "recoverable_deletion_from_active_record row =
     (case ad_action row of
        Listed inode_kind deleted_at_ms deleted_by deleted_binding \<Rightarrow>
          Some \<lparr> rd_root_inode_id = ad_root_inode_id row, rd_inode_kind = inode_kind,
                 rd_deletion_seq = ad_deletion_seq row, rd_deleted_at_ms = deleted_at_ms,
                 rd_deleted_by = deleted_by, rd_deleted_binding = deleted_binding \<rparr>
      | Removed _ \<Rightarrow> None)"

section \<open>Applying committed deltas\<close>

fun apply_committed_wal_delta ::
  "change_seq \<Rightarrow> commit_id \<Rightarrow> actor_id \<Rightarrow> u64 \<Rightarrow> wal_delta \<Rightarrow> metadata_state \<Rightarrow> metadata_state" where
  "apply_committed_wal_delta seq commit_id actor ms (CreateInode _ inode_id inode_kind) st =
     push_inode_record
       \<lparr> ir_inode_id = inode_id, ir_inode_kind = inode_kind, ir_committed_seq = seq,
         ir_commit_id = commit_id, ir_committed_by = actor, ir_committed_at_ms = ms \<rparr> st"
| "apply_committed_wal_delta seq commit_id actor ms
     (BindDirentry delta_index parent name_key display_name child child_kind child_created_by
        child_created_at_ms revision) st =
     push_direntry_binding_record
       \<lparr> db_parent_inode_id = parent, db_name_key = name_key, db_child_inode_id = child,
         db_child_kind = child_kind, db_child_created_by = child_created_by,
         db_child_created_at_ms = child_created_at_ms, db_committed_seq = seq,
         db_delta_index = delta_index, db_commit_id = commit_id, db_committed_by = actor,
         db_committed_at_ms = ms, db_bind_position = DeltaPosition seq delta_index,
         db_state = Bound display_name revision \<rparr> st"
| "apply_committed_wal_delta seq commit_id actor ms
     (UnbindDirentry delta_index parent name_key _ child child_kind child_created_by
        child_created_at_ms target) st =
     push_direntry_binding_record
       \<lparr> db_parent_inode_id = parent, db_name_key = name_key, db_child_inode_id = child,
         db_child_kind = child_kind, db_child_created_by = child_created_by,
         db_child_created_at_ms = child_created_at_ms, db_committed_seq = seq,
         db_delta_index = delta_index, db_commit_id = commit_id, db_committed_by = actor,
         db_committed_at_ms = ms, db_bind_position = target, db_state = Unbound \<rparr> st"
| "apply_committed_wal_delta seq commit_id actor ms
     (AppendFileRevision delta_index inode_id parent name_key display_name bind_position
        child_created_by child_created_at_ms revision_no content layout _) st =
     (let st = (case layout of
                  Some layout \<Rightarrow>
                    push_content_layout_record
                      \<lparr> cl_content_id = ct_content_id content, cl_committed_seq = seq,
                        cl_size_bytes = layout_size_bytes layout, cl_layout = layout \<rparr> st
                | None \<Rightarrow> st);
          st = push_revision_record
                 \<lparr> rv_inode_id = inode_id, rv_revision_no = revision_no, rv_committed_seq = seq,
                   rv_commit_id = commit_id, rv_committed_by = actor, rv_committed_at_ms = ms,
                   rv_delta_index = delta_index, rv_content_ref = content \<rparr> st
      in push_direntry_binding_record
           \<lparr> db_parent_inode_id = parent, db_name_key = name_key, db_child_inode_id = inode_id,
             db_child_kind = File, db_child_created_by = child_created_by,
             db_child_created_at_ms = child_created_at_ms, db_committed_seq = seq,
             db_delta_index = delta_index, db_commit_id = commit_id, db_committed_by = actor,
             db_committed_at_ms = ms, db_bind_position = bind_position,
             db_state = Bound display_name
               (Some \<lparr> rs_revision_no = revision_no, rs_size_bytes = ct_size_bytes content,
                       rs_committed_by = actor, rs_committed_at_ms = ms \<rparr>) \<rparr> st)"
| "apply_committed_wal_delta seq commit_id actor ms
     (TombstoneSubtree delta_index root_inode_id root_kind deleted_binding) st =
     push_subtree_tombstone_record
       \<lparr> tb_root_inode_id = root_inode_id, tb_committed_seq = seq, tb_delta_index = delta_index,
         tb_commit_id = commit_id, tb_action = Set root_kind deleted_binding,
         tb_committed_by = actor, tb_committed_at_ms = ms \<rparr> st"
| "apply_committed_wal_delta seq commit_id actor ms
     (RevokeSubtreeTombstone delta_index root_inode_id target) st =
     push_subtree_tombstone_record
       \<lparr> tb_root_inode_id = root_inode_id, tb_committed_seq = seq, tb_delta_index = delta_index,
         tb_commit_id = commit_id, tb_action = Revoke target,
         tb_committed_by = actor, tb_committed_at_ms = ms \<rparr> st"
| "apply_committed_wal_delta seq commit_id actor ms
     (AppendAttributesRevision delta_index inode_id attributes_revision_no attributes) st =
     push_attributes_revision_record
       \<lparr> ar_inode_id = inode_id, ar_attributes_revision_no = attributes_revision_no,
         ar_committed_seq = seq, ar_commit_id = commit_id, ar_delta_index = delta_index,
         ar_committed_by = actor, ar_committed_at_ms = ms, ar_attributes = attributes \<rparr> st"
| "apply_committed_wal_delta seq commit_id actor ms
     (AppendAccessRevision delta_index inode_id access_revision_no boundary grants) st =
     push_access_revision_record
       \<lparr> xr_inode_id = inode_id, xr_access_revision_no = access_revision_no,
         xr_committed_seq = seq, xr_commit_id = commit_id, xr_delta_index = delta_index,
         xr_committed_by = actor, xr_committed_at_ms = ms, xr_boundary = boundary,
         xr_grants = grants \<rparr> st"

definition apply_committed_wal_deltas ::
  "change_seq \<Rightarrow> commit_id \<Rightarrow> actor_id \<Rightarrow> u64 \<Rightarrow> wal_delta list \<Rightarrow> metadata_state \<Rightarrow> metadata_state" where
  "apply_committed_wal_deltas seq commit_id actor ms deltas st =
     fold (apply_committed_wal_delta seq commit_id actor ms) deltas st"

definition apply_committed_wal_record :: "wal_commit_payload \<Rightarrow> metadata_state \<Rightarrow> metadata_state" where
  "apply_committed_wal_record payload st =
     (let st = fold (\<lambda>delta. apply_committed_wal_delta (wc_committed_seq payload)
                       (wc_commit_id payload) (wc_committed_by payload)
                       (wc_committed_at_ms payload) (wd_delta delta)) (wc_deltas payload) st;
          st = push_commit_record (payload \<lparr> wc_inline_content := [] \<rparr>) st
      in push_commit_receipt_record
           \<lparr> cr_commit_id = wc_commit_id payload, cr_committed_seq = wc_committed_seq payload \<rparr> st)"

section \<open>The index invariant\<close>

text \<open>
  An index over rows with a key and an order: each key holds a newest of the rows that
  carry it.
\<close>

definition index_of ::
  "('v \<Rightarrow> bool) \<Rightarrow> ('v \<Rightarrow> 'k) \<Rightarrow> ('v \<Rightarrow> 'o::linorder) \<Rightarrow> 'v list \<Rightarrow> ('k \<rightharpoonup> 'v) \<Rightarrow> bool" where
  "index_of P key ord rows m \<longleftrightarrow>
     (\<forall>k. newest_of ord (filter (\<lambda>row. P row \<and> key row = k) rows) (m k))"

lemma index_of_empty: "index_of P key ord [] Map.empty"
  by (simp add: index_of_def)

lemma index_of_skip: "index_of P key ord rows m \<Longrightarrow> \<not> P row \<Longrightarrow> index_of P key ord (rows @ [row]) m"
  by (simp add: index_of_def)

lemma index_of_replace:
  assumes "index_of P key ord rows m" "P row"
  shows "index_of P key ord (rows @ [row]) (replace_if_newer m (key row) row ord)"
  unfolding index_of_def
proof
  fix k
  have ok: "newest_of ord (filter (\<lambda>row. P row \<and> key row = k) rows) (m k)"
    using assms(1) by (simp add: index_of_def)
  show "newest_of ord (filter (\<lambda>row. P row \<and> key row = k) (rows @ [row]))
          (replace_if_newer m (key row) row ord k)"
  proof (cases "key row = k")
    case False
    with ok show ?thesis by (simp add: replace_if_newer_def split: option.splits)
  next
    case True
    have "replace_if_newer m (key row) row ord k =
            (case m k of None \<Rightarrow> Some row | Some r \<Rightarrow> Some (if ord r < ord row then row else r))"
      using True by (simp add: replace_if_newer_def split: option.splits)
    with newest_of_snoc [OF ok, of row] True assms(2) show ?thesis by simp
  qed
qed

lemma index_of_lookup:
  assumes "index_of P key ord rows m" "inj_on ord (set rows)"
  shows "m k = max_by_key ord (filter (\<lambda>row. P row \<and> key row = k) rows)"
proof -
  have "newest_of ord (filter (\<lambda>row. P row \<and> key row = k) rows) (m k)"
    using assms(1) by (simp add: index_of_def)
  moreover have "inj_on ord (set (filter (\<lambda>row. P row \<and> key row = k) rows))"
    using assms(2) by (rule inj_on_subset) auto
  ultimately show ?thesis by (rule max_by_key_newest_of [symmetric])
qed

text \<open>No row of a state is above a sequence.\<close>

definition rows_le :: "change_seq \<Rightarrow> metadata_state \<Rightarrow> bool" where
  "rows_le s st \<longleftrightarrow>
     (\<forall>row\<in>set (ms_inodes st). ir_committed_seq row \<le> s) \<and>
     (\<forall>row\<in>set (ms_direntry_binds st). db_committed_seq row \<le> s) \<and>
     (\<forall>row\<in>set (ms_revisions st). rv_committed_seq row \<le> s) \<and>
     (\<forall>row\<in>set (ms_subtree_tombstones st). tb_committed_seq row \<le> s) \<and>
     (\<forall>row\<in>set (ms_commit_receipts st). cr_committed_seq row \<le> s) \<and>
     (\<forall>row\<in>set (ms_content_layouts st). cl_committed_seq row \<le> s) \<and>
     (\<forall>row\<in>set (ms_attributes_revisions st). ar_committed_seq row \<le> s) \<and>
     (\<forall>row\<in>set (ms_access_revisions st). xr_committed_seq row \<le> s)"

definition indexes_ok :: "metadata_state \<Rightarrow> bool" where
  "indexes_ok st \<longleftrightarrow>
     rows_le (indexed_seq st) st \<and>
     (\<forall>i. ix_inode_by_id (ms_indexes st) i = latest (\<lambda>row. ir_inode_id row = i) (ms_inodes st)) \<and>
     index_of (\<lambda>_. True) (\<lambda>row. (db_parent_inode_id row, db_name_key row)) db_position
       (ms_direntry_binds st) (ix_latest_bind_by_parent_name (ms_indexes st)) \<and>
     index_of is_binding_event db_child_inode_id db_position
       (ms_direntry_binds st) (ix_latest_binding_by_child (ms_indexes st)) \<and>
     index_of (\<lambda>_. True) tb_root_inode_id tombstone_order_key
       (ms_subtree_tombstones st) (ix_tombstone_by_root (ms_indexes st)) \<and>
     index_of (\<lambda>_. True) cr_commit_id cr_committed_seq
       (ms_commit_receipts st) (ix_commit_receipt_by_id (ms_indexes st)) \<and>
     index_of (\<lambda>_. True) cl_content_id (\<lambda>row. (cl_size_bytes row, cl_committed_seq row))
       (ms_content_layouts st) (ix_content_layout_by_id (ms_indexes st))"

named_theorems push_defs
named_theorems push_indexes_ok

lemmas [push_defs] =
  push_inode_record_def push_direntry_binding_record_def push_revision_record_def
  push_subtree_tombstone_record_def push_commit_receipt_record_def push_commit_record_def
  push_content_layout_record_def push_attributes_revision_record_def
  push_access_revision_record_def record_row_weight_def
  record_inode_def record_binding_def record_revision_def record_tombstone_def
  record_content_layout_def record_commit_receipt_def record_attributes_revision_def
  record_access_revision_def bump_seq_def indexed_seq_def

lemma rows_le_mono: "rows_le s st \<Longrightarrow> s \<le> t \<Longrightarrow> rows_le t st"
  unfolding rows_le_def by (meson order.trans)

lemma rows_le_max: "rows_le s st \<Longrightarrow> rows_le (max s t) st"
  using rows_le_mono max.cobounded1 by blast

lemma indexes_ok_rows_le: "indexes_ok st \<Longrightarrow> indexed_seq st \<le> s \<Longrightarrow> rows_le s st"
  unfolding indexes_ok_def by (blast intro: rows_le_mono)

lemma rows_le_max_parts:
  assumes "rows_le s st"
  shows "\<forall>row\<in>set (ms_inodes st). ir_committed_seq row \<le> max s t"
    "\<forall>row\<in>set (ms_direntry_binds st). db_committed_seq row \<le> max s t"
    "\<forall>row\<in>set (ms_revisions st). rv_committed_seq row \<le> max s t"
    "\<forall>row\<in>set (ms_subtree_tombstones st). tb_committed_seq row \<le> max s t"
    "\<forall>row\<in>set (ms_commit_receipts st). cr_committed_seq row \<le> max s t"
    "\<forall>row\<in>set (ms_content_layouts st). cl_committed_seq row \<le> max s t"
    "\<forall>row\<in>set (ms_attributes_revisions st). ar_committed_seq row \<le> max s t"
    "\<forall>row\<in>set (ms_access_revisions st). xr_committed_seq row \<le> max s t"
  using rows_le_max [OF assms, of t] unfolding rows_le_def by blast+

lemma push_inode_ok [push_indexes_ok]:
  assumes "indexes_ok st" shows "indexes_ok (push_inode_record row st)"
  using assms rows_le_max_parts [of "indexed_seq st" st "ir_committed_seq row"]
  by (simp add: indexes_ok_def rows_le_def push_defs)

lemma push_binding_ok [push_indexes_ok]:
  assumes "indexes_ok st" shows "indexes_ok (push_direntry_binding_record row st)"
  using assms rows_le_max_parts [of "indexed_seq st" st "db_committed_seq row"]
    index_of_replace [of "\<lambda>_. True" "\<lambda>row. (db_parent_inode_id row, db_name_key row)" db_position
      "ms_direntry_binds st" "ix_latest_bind_by_parent_name (ms_indexes st)" row]
    index_of_replace [of is_binding_event db_child_inode_id db_position
      "ms_direntry_binds st" "ix_latest_binding_by_child (ms_indexes st)" row]
    index_of_skip [of is_binding_event db_child_inode_id db_position
      "ms_direntry_binds st" "ix_latest_binding_by_child (ms_indexes st)" row]
  by (cases "is_binding_event row") (simp_all add: indexes_ok_def rows_le_def push_defs Let_def)

lemma push_revision_ok [push_indexes_ok]:
  assumes "indexes_ok st" shows "indexes_ok (push_revision_record row st)"
  using assms rows_le_max_parts [of "indexed_seq st" st "rv_committed_seq row"]
  by (simp add: indexes_ok_def rows_le_def push_defs)

lemma push_tombstone_ok [push_indexes_ok]:
  assumes "indexes_ok st" shows "indexes_ok (push_subtree_tombstone_record row st)"
  using assms rows_le_max_parts [of "indexed_seq st" st "tb_committed_seq row"]
    index_of_replace [of "\<lambda>_. True" tb_root_inode_id tombstone_order_key
      "ms_subtree_tombstones st" "ix_tombstone_by_root (ms_indexes st)" row]
  by (simp add: indexes_ok_def rows_le_def push_defs)

lemma push_receipt_ok [push_indexes_ok]:
  assumes "indexes_ok st" shows "indexes_ok (push_commit_receipt_record row st)"
  using assms rows_le_max_parts [of "indexed_seq st" st "cr_committed_seq row"]
    index_of_replace [of "\<lambda>_. True" cr_commit_id cr_committed_seq
      "ms_commit_receipts st" "ix_commit_receipt_by_id (ms_indexes st)" row]
  by (simp add: indexes_ok_def rows_le_def push_defs)

lemma push_commit_ok [push_indexes_ok]:
  "indexes_ok st \<Longrightarrow> indexes_ok (push_commit_record row st)"
  by (simp add: indexes_ok_def rows_le_def push_defs)

lemma push_layout_ok [push_indexes_ok]:
  assumes "indexes_ok st" shows "indexes_ok (push_content_layout_record row st)"
  using assms rows_le_max_parts [of "indexed_seq st" st "cl_committed_seq row"]
    index_of_replace [of "\<lambda>_. True" cl_content_id
      "\<lambda>row. (cl_size_bytes row, cl_committed_seq row)"
      "ms_content_layouts st" "ix_content_layout_by_id (ms_indexes st)" row]
  by (simp add: indexes_ok_def rows_le_def push_defs)

lemma push_attributes_ok [push_indexes_ok]:
  assumes "indexes_ok st" shows "indexes_ok (push_attributes_revision_record row st)"
  using assms rows_le_max_parts [of "indexed_seq st" st "ar_committed_seq row"]
  by (simp add: indexes_ok_def rows_le_def push_defs)

lemma push_access_ok [push_indexes_ok]:
  assumes "indexes_ok st" shows "indexes_ok (push_access_revision_record row st)"
  using assms rows_le_max_parts [of "indexed_seq st" st "xr_committed_seq row"]
  by (simp add: indexes_ok_def rows_le_def push_defs)

lemma apply_delta_indexes_ok:
  "indexes_ok st \<Longrightarrow> indexes_ok (apply_committed_wal_delta seq cid actor ms d st)"
  by (cases d) (auto simp: Let_def intro!: push_indexes_ok split: option.splits)

text \<open>
  Rebuilding the indexes of a list of rows ends in the indexes that pushing the rows one
  by one maintains, so a state built from rows satisfies the invariant too.
\<close>

named_theorems fold_push_simps

lemma fold_push_inode [fold_push_simps]:
  shows "ms_inodes (fold push_inode_record rows st) = ms_inodes st @ rows"
    and "ms_direntry_binds (fold push_inode_record rows st) = ms_direntry_binds st"
    and "ms_revisions (fold push_inode_record rows st) = ms_revisions st"
    and "ms_subtree_tombstones (fold push_inode_record rows st) = ms_subtree_tombstones st"
    and "ms_content_layouts (fold push_inode_record rows st) = ms_content_layouts st"
    and "ms_commit_receipts (fold push_inode_record rows st) = ms_commit_receipts st"
    and "ms_attributes_revisions (fold push_inode_record rows st) = ms_attributes_revisions st"
    and "ms_access_revisions (fold push_inode_record rows st) = ms_access_revisions st"
    and "ms_indexes (fold push_inode_record rows st) = fold record_inode rows (ms_indexes st)"
    and "indexes_ok st \<Longrightarrow> indexes_ok (fold push_inode_record rows st)"
  by (induction rows arbitrary: st)
    (simp_all add: push_inode_record_def record_row_weight_def push_indexes_ok [unfolded push_inode_record_def record_row_weight_def])

lemma fold_push_binding [fold_push_simps]:
  shows "ms_inodes (fold push_direntry_binding_record rows st) = ms_inodes st"
    and "ms_direntry_binds (fold push_direntry_binding_record rows st) = ms_direntry_binds st @ rows"
    and "ms_revisions (fold push_direntry_binding_record rows st) = ms_revisions st"
    and "ms_subtree_tombstones (fold push_direntry_binding_record rows st) = ms_subtree_tombstones st"
    and "ms_content_layouts (fold push_direntry_binding_record rows st) = ms_content_layouts st"
    and "ms_commit_receipts (fold push_direntry_binding_record rows st) = ms_commit_receipts st"
    and "ms_attributes_revisions (fold push_direntry_binding_record rows st) = ms_attributes_revisions st"
    and "ms_access_revisions (fold push_direntry_binding_record rows st) = ms_access_revisions st"
    and "ms_indexes (fold push_direntry_binding_record rows st) = fold record_binding rows (ms_indexes st)"
    and "indexes_ok st \<Longrightarrow> indexes_ok (fold push_direntry_binding_record rows st)"
  by (induction rows arbitrary: st)
    (simp_all add: push_direntry_binding_record_def record_row_weight_def push_indexes_ok [unfolded push_direntry_binding_record_def record_row_weight_def])

lemma fold_push_revision [fold_push_simps]:
  shows "ms_inodes (fold push_revision_record rows st) = ms_inodes st"
    and "ms_direntry_binds (fold push_revision_record rows st) = ms_direntry_binds st"
    and "ms_revisions (fold push_revision_record rows st) = ms_revisions st @ rows"
    and "ms_subtree_tombstones (fold push_revision_record rows st) = ms_subtree_tombstones st"
    and "ms_content_layouts (fold push_revision_record rows st) = ms_content_layouts st"
    and "ms_commit_receipts (fold push_revision_record rows st) = ms_commit_receipts st"
    and "ms_attributes_revisions (fold push_revision_record rows st) = ms_attributes_revisions st"
    and "ms_access_revisions (fold push_revision_record rows st) = ms_access_revisions st"
    and "ms_indexes (fold push_revision_record rows st) = fold record_revision rows (ms_indexes st)"
    and "indexes_ok st \<Longrightarrow> indexes_ok (fold push_revision_record rows st)"
  by (induction rows arbitrary: st)
    (simp_all add: push_revision_record_def record_row_weight_def push_indexes_ok [unfolded push_revision_record_def record_row_weight_def])

lemma fold_push_tombstone [fold_push_simps]:
  shows "ms_inodes (fold push_subtree_tombstone_record rows st) = ms_inodes st"
    and "ms_direntry_binds (fold push_subtree_tombstone_record rows st) = ms_direntry_binds st"
    and "ms_revisions (fold push_subtree_tombstone_record rows st) = ms_revisions st"
    and "ms_subtree_tombstones (fold push_subtree_tombstone_record rows st) = ms_subtree_tombstones st @ rows"
    and "ms_content_layouts (fold push_subtree_tombstone_record rows st) = ms_content_layouts st"
    and "ms_commit_receipts (fold push_subtree_tombstone_record rows st) = ms_commit_receipts st"
    and "ms_attributes_revisions (fold push_subtree_tombstone_record rows st) = ms_attributes_revisions st"
    and "ms_access_revisions (fold push_subtree_tombstone_record rows st) = ms_access_revisions st"
    and "ms_indexes (fold push_subtree_tombstone_record rows st) = fold record_tombstone rows (ms_indexes st)"
    and "indexes_ok st \<Longrightarrow> indexes_ok (fold push_subtree_tombstone_record rows st)"
  by (induction rows arbitrary: st)
    (simp_all add: push_subtree_tombstone_record_def record_row_weight_def push_indexes_ok [unfolded push_subtree_tombstone_record_def record_row_weight_def])

lemma fold_push_layout [fold_push_simps]:
  shows "ms_inodes (fold push_content_layout_record rows st) = ms_inodes st"
    and "ms_direntry_binds (fold push_content_layout_record rows st) = ms_direntry_binds st"
    and "ms_revisions (fold push_content_layout_record rows st) = ms_revisions st"
    and "ms_subtree_tombstones (fold push_content_layout_record rows st) = ms_subtree_tombstones st"
    and "ms_content_layouts (fold push_content_layout_record rows st) = ms_content_layouts st @ rows"
    and "ms_commit_receipts (fold push_content_layout_record rows st) = ms_commit_receipts st"
    and "ms_attributes_revisions (fold push_content_layout_record rows st) = ms_attributes_revisions st"
    and "ms_access_revisions (fold push_content_layout_record rows st) = ms_access_revisions st"
    and "ms_indexes (fold push_content_layout_record rows st) = fold record_content_layout rows (ms_indexes st)"
    and "indexes_ok st \<Longrightarrow> indexes_ok (fold push_content_layout_record rows st)"
  by (induction rows arbitrary: st)
    (simp_all add: push_content_layout_record_def record_row_weight_def push_indexes_ok [unfolded push_content_layout_record_def record_row_weight_def])

lemma fold_push_receipt [fold_push_simps]:
  shows "ms_inodes (fold push_commit_receipt_record rows st) = ms_inodes st"
    and "ms_direntry_binds (fold push_commit_receipt_record rows st) = ms_direntry_binds st"
    and "ms_revisions (fold push_commit_receipt_record rows st) = ms_revisions st"
    and "ms_subtree_tombstones (fold push_commit_receipt_record rows st) = ms_subtree_tombstones st"
    and "ms_content_layouts (fold push_commit_receipt_record rows st) = ms_content_layouts st"
    and "ms_commit_receipts (fold push_commit_receipt_record rows st) = ms_commit_receipts st @ rows"
    and "ms_attributes_revisions (fold push_commit_receipt_record rows st) = ms_attributes_revisions st"
    and "ms_access_revisions (fold push_commit_receipt_record rows st) = ms_access_revisions st"
    and "ms_indexes (fold push_commit_receipt_record rows st) = fold record_commit_receipt rows (ms_indexes st)"
    and "indexes_ok st \<Longrightarrow> indexes_ok (fold push_commit_receipt_record rows st)"
  by (induction rows arbitrary: st)
    (simp_all add: push_commit_receipt_record_def record_row_weight_def push_indexes_ok [unfolded push_commit_receipt_record_def record_row_weight_def])

lemma fold_push_attributes [fold_push_simps]:
  shows "ms_inodes (fold push_attributes_revision_record rows st) = ms_inodes st"
    and "ms_direntry_binds (fold push_attributes_revision_record rows st) = ms_direntry_binds st"
    and "ms_revisions (fold push_attributes_revision_record rows st) = ms_revisions st"
    and "ms_subtree_tombstones (fold push_attributes_revision_record rows st) = ms_subtree_tombstones st"
    and "ms_content_layouts (fold push_attributes_revision_record rows st) = ms_content_layouts st"
    and "ms_commit_receipts (fold push_attributes_revision_record rows st) = ms_commit_receipts st"
    and "ms_attributes_revisions (fold push_attributes_revision_record rows st) = ms_attributes_revisions st @ rows"
    and "ms_access_revisions (fold push_attributes_revision_record rows st) = ms_access_revisions st"
    and "ms_indexes (fold push_attributes_revision_record rows st) = fold record_attributes_revision rows (ms_indexes st)"
    and "indexes_ok st \<Longrightarrow> indexes_ok (fold push_attributes_revision_record rows st)"
  by (induction rows arbitrary: st)
    (simp_all add: push_attributes_revision_record_def record_row_weight_def push_indexes_ok [unfolded push_attributes_revision_record_def record_row_weight_def])

lemma fold_push_access [fold_push_simps]:
  shows "ms_inodes (fold push_access_revision_record rows st) = ms_inodes st"
    and "ms_direntry_binds (fold push_access_revision_record rows st) = ms_direntry_binds st"
    and "ms_revisions (fold push_access_revision_record rows st) = ms_revisions st"
    and "ms_subtree_tombstones (fold push_access_revision_record rows st) = ms_subtree_tombstones st"
    and "ms_content_layouts (fold push_access_revision_record rows st) = ms_content_layouts st"
    and "ms_commit_receipts (fold push_access_revision_record rows st) = ms_commit_receipts st"
    and "ms_attributes_revisions (fold push_access_revision_record rows st) = ms_attributes_revisions st"
    and "ms_access_revisions (fold push_access_revision_record rows st) = ms_access_revisions st @ rows"
    and "ms_indexes (fold push_access_revision_record rows st) = fold record_access_revision rows (ms_indexes st)"
    and "indexes_ok st \<Longrightarrow> indexes_ok (fold push_access_revision_record rows st)"
  by (induction rows arbitrary: st)
    (simp_all add: push_access_revision_record_def record_row_weight_def push_indexes_ok [unfolded push_access_revision_record_def record_row_weight_def])

lemma indexes_ok_default_rows:
  "indexes_ok (st \<lparr> ms_inodes := [], ms_direntry_binds := [], ms_revisions := [],
     ms_subtree_tombstones := [], ms_commit_receipts := [], ms_content_layouts := [],
     ms_attributes_revisions := [], ms_access_revisions := [], ms_indexes := default_indexes \<rparr>)"
  by (simp add: indexes_ok_def rows_le_def default_indexes_def index_of_empty)

lemma rebuild_indexes_ok: "indexes_ok (rebuild_indexes st)"
proof -
  define st0 where "st0 = st \<lparr> ms_inodes := [], ms_direntry_binds := [], ms_revisions := [],
     ms_subtree_tombstones := [], ms_commit_receipts := [], ms_content_layouts := [],
     ms_attributes_revisions := [], ms_access_revisions := [], ms_indexes := default_indexes \<rparr>"
  define pushed where "pushed =
     fold push_access_revision_record (ms_access_revisions st)
    (fold push_attributes_revision_record (ms_attributes_revisions st)
    (fold push_commit_receipt_record (ms_commit_receipts st)
    (fold push_content_layout_record (ms_content_layouts st)
    (fold push_subtree_tombstone_record (ms_subtree_tombstones st)
    (fold push_revision_record (ms_revisions st)
    (fold push_direntry_binding_record (ms_direntry_binds st)
    (fold push_inode_record (ms_inodes st) st0)))))))"
  have "indexes_ok st0" unfolding st0_def by (rule indexes_ok_default_rows)
  then have ok: "indexes_ok pushed" unfolding pushed_def by (intro fold_push_simps)
  have ix: "ms_indexes pushed = ms_indexes (rebuild_indexes st)"
    by (simp add: pushed_def st0_def fold_push_simps rebuild_indexes_def rebuild_def)
  from ok show ?thesis
    unfolding indexes_ok_def rows_le_def indexed_seq_def ix
    by (simp add: pushed_def st0_def fold_push_simps rebuild_indexes_def Let_def)
qed

lemma from_rows_ok: "indexes_ok (from_rows a b c d e f g h i)"
  by (simp add: from_rows_def rebuild_indexes_ok)

lemma default_state_ok: "indexes_ok default_state"
  by (simp add: default_state_def from_rows_ok)

lemma apply_deltas_indexes_ok:
  "indexes_ok st \<Longrightarrow> indexes_ok (apply_committed_wal_deltas seq cid actor ms ds st)"
  unfolding apply_committed_wal_deltas_def
  by (induction ds arbitrary: st) (simp_all add: apply_delta_indexes_ok)

lemma apply_record_indexes_ok:
  assumes "indexes_ok st" shows "indexes_ok (apply_committed_wal_record payload st)"
proof -
  have "indexes_ok (fold (\<lambda>d. apply_committed_wal_delta s c a m (wd_delta d)) ds st)" for s c a m ds
    using assms by (induction ds arbitrary: st) (simp_all add: apply_delta_indexes_ok)
  then show ?thesis unfolding apply_committed_wal_record_def Let_def by (intro push_indexes_ok)
qed

end
