(* ===== verification/Visibility.thy ===== *)
theory Visibility
  imports Metadata_State Paths
begin

text \<open>
  The visibility rules of \<open>loonfs-core/src/metadata/visibility.rs\<close>, written once over the
  storage lookups of the trait \<open>MetadataVisibilityReads\<close>.  The trait is a record of
  functions; a provider fills in its required and provided methods.  Walks up the parent
  bindings are functions whose termination follows from the seen set.  The locale
  \<open>visibility_provider\<close> states what the rules rely on and proves what they then decide.
\<close>

section \<open>Errors and results\<close>

datatype visible_path_error =
    RootMissing
  | ParentBindingCycle inode_id
  | PathNotFound string
  | PathComponentNotDirectory string inode_id inode_kind

record resolved_visible_path =
  rp_absolute_path :: absolute_path
  rp_inode_id :: inode_id
  rp_inode_kind :: inode_kind
  rp_created_by :: actor_id
  rp_created_at_ms :: u64
  rp_parent_inode_id :: "inode_id option"
  rp_display_name :: string
  rp_binding_version :: "delta_position option"

section \<open>The lookups\<close>

record 'e visibility_reads =
  vr_from :: "visible_path_error \<Rightarrow> 'e"
  vr_retention_floor_seq :: change_seq
  vr_find_inode :: "inode_id \<Rightarrow> ('e, inode_record option) result"
  vr_find_latest_slot_binding ::
    "inode_id \<Rightarrow> name_key \<Rightarrow> ('e, direntry_binding_record option) result"
  vr_find_latest_parent_binding_for_child ::
    "inode_id \<Rightarrow> ('e, direntry_binding_record option) result"
  vr_find_hiding_subtree_tombstone ::
    "inode_id \<Rightarrow> ('e, subtree_tombstone_record option) result"
  vr_find_access_row :: "inode_id \<Rightarrow> ('e, access_revision_record option) result"
  vr_current_parent_binding_for_child ::
    "inode_id \<Rightarrow> ('e, direntry_binding_record option) result"
  vr_active_child_binding ::
    "inode_id \<Rightarrow> name_key \<Rightarrow> ('e, direntry_binding_record option) result"
  vr_covering_subtree_tombstone ::
    "inode_id \<Rightarrow> ('e, subtree_tombstone_record option) result"
  vr_visible_inode :: "inode_id \<Rightarrow> ('e, inode_record option) result"

section \<open>Edges\<close>

definition current_parent_binding_for_child ::
  "('e, 'm) visibility_reads_scheme \<Rightarrow> inode_id \<Rightarrow> ('e, direntry_binding_record option) result" where
  "current_parent_binding_for_child reads child =
     (if child = ROOT_INODE_ID then Inr None
      else rbind (vr_find_latest_parent_binding_for_child reads child)
             (\<lambda>direntry. Inr (option_filter is_bound direntry)))"

definition active_child_binding ::
  "('e, 'm) visibility_reads_scheme \<Rightarrow> inode_id \<Rightarrow> name_key
    \<Rightarrow> ('e, direntry_binding_record option) result" where
  "active_child_binding reads parent name_key =
     rbind (vr_find_latest_slot_binding reads parent name_key)
       (\<lambda>direntry. Inr (option_filter is_bound direntry))"

section \<open>Walking the ancestors\<close>

datatype next_ancestor = Inode inode_id | ParentOf inode_id

record ancestor_walk =
  aw_next :: "next_ancestor option"
  aw_seen :: "inode_id set"
  aw_followed :: "direntry_binding_record option"

definition ancestor_walk_new :: "inode_id \<Rightarrow> ancestor_walk" where
  "ancestor_walk_new inode_id =
     \<lparr> aw_next = Some (Inode inode_id), aw_seen = {}, aw_followed = None \<rparr>"

text \<open>The shared end of a step: the seen set refuses an inode it holds already.\<close>

definition visit_ancestor ::
  "('e, 'm) visibility_reads_scheme \<Rightarrow> inode_id \<Rightarrow> direntry_binding_record option \<Rightarrow> ancestor_walk
    \<Rightarrow> ('e, inode_id option \<times> ancestor_walk) result" where
  "visit_ancestor reads inode_id followed walk =
     (if inode_id \<in> aw_seen walk then Inl (vr_from reads (ParentBindingCycle inode_id))
      else Inr (Some inode_id,
                walk \<lparr> aw_next := Some (ParentOf inode_id),
                       aw_seen := insert inode_id (aw_seen walk),
                       aw_followed := followed \<rparr>))"

definition ancestor_walk_next ::
  "('e, 'm) visibility_reads_scheme \<Rightarrow> ancestor_walk
    \<Rightarrow> ('e, inode_id option \<times> ancestor_walk) result" where
  "ancestor_walk_next reads walk =
     (case aw_next walk of
        None \<Rightarrow> Inr (None, walk)
      | Some (Inode inode_id) \<Rightarrow> visit_ancestor reads inode_id None walk
      | Some (ParentOf child) \<Rightarrow>
          rbind (vr_current_parent_binding_for_child reads child) (\<lambda>binding.
            case binding of
              None \<Rightarrow> Inr (None, walk \<lparr> aw_next := None, aw_followed := None \<rparr>)
            | Some row \<Rightarrow> visit_ancestor reads (db_parent_inode_id row) (Some row) walk))"

definition continue_at :: "inode_id \<Rightarrow> ancestor_walk \<Rightarrow> ancestor_walk" where
  "continue_at inode_id walk = walk \<lparr> aw_next := Some (Inode inode_id) \<rparr>"

text \<open>A step that returns an inode adds it to the seen set, which bounds every loop.\<close>

lemma ancestor_walk_next_seen:
  assumes "ancestor_walk_next reads walk = Inr (Some a, walk')"
  shows "a \<notin> aw_seen walk" "aw_seen walk' = insert a (aw_seen walk)"
    "aw_next walk' = Some (ParentOf a)"
  using assms
  by (auto simp: ancestor_walk_next_def visit_ancestor_def
        split: option.splits next_ancestor.splits if_splits)

definition unseen :: "ancestor_walk \<Rightarrow> nat" where
  "unseen walk = card (- aw_seen walk)"

lemma ancestor_walk_next_unseen:
  assumes "ancestor_walk_next reads walk = Inr (Some a, walk')"
  shows "unseen walk' < unseen walk"
proof -
  have "- aw_seen walk' \<subset> - aw_seen walk"
    using ancestor_walk_next_seen [OF assms] by auto
  then show ?thesis unfolding unseen_def by (intro psubset_card_mono) simp_all
qed

lemma rbind_cong [fundef_cong]:
  "m = m' \<Longrightarrow> (\<And>x. m' = Inr x \<Longrightarrow> f x = g x) \<Longrightarrow> rbind m f = rbind m' g"
  by (cases m') auto

function covering_loop ::
  "('e, 'm) visibility_reads_scheme \<Rightarrow> ancestor_walk
    \<Rightarrow> ('e, subtree_tombstone_record option) result" where
  "covering_loop reads walk =
     rbind (ancestor_walk_next reads walk) (\<lambda>(ancestor, walk').
       case ancestor of
         None \<Rightarrow> Inr None
       | Some a \<Rightarrow>
           rbind (vr_find_hiding_subtree_tombstone reads a) (\<lambda>tombstone.
             case tombstone of
               Some t \<Rightarrow> Inr (Some t)
             | None \<Rightarrow> covering_loop reads walk'))"
  by auto

termination
  by (relation "measure (unseen \<circ> snd)") (auto dest: ancestor_walk_next_unseen)

definition covering_subtree_tombstone ::
  "('e, 'm) visibility_reads_scheme \<Rightarrow> inode_id \<Rightarrow> ('e, subtree_tombstone_record option) result" where
  "covering_subtree_tombstone reads inode_id = covering_loop reads (ancestor_walk_new inode_id)"

function allows_loop ::
  "('e, 'm) visibility_reads_scheme \<Rightarrow> ancestor_walk \<Rightarrow> ('e, bool) result" where
  "allows_loop reads walk =
     rbind (ancestor_walk_next reads walk) (\<lambda>(ancestor, walk').
       case ancestor of
         None \<Rightarrow> Inr False
       | Some a \<Rightarrow>
           if a = ROOT_INODE_ID then Inr True
           else rbind (vr_find_hiding_subtree_tombstone reads a) (\<lambda>tombstone.
             case tombstone of
               Some t \<Rightarrow> Inr (tb_committed_seq t > vr_retention_floor_seq reads)
             | None \<Rightarrow> allows_loop reads walk'))"
  by auto

termination
  by (relation "measure (unseen \<circ> snd)") (auto dest: ancestor_walk_next_unseen)

definition ancestry_allows_read ::
  "('e, 'm) visibility_reads_scheme \<Rightarrow> inode_id \<Rightarrow> ('e, bool) result" where
  "ancestry_allows_read reads inode_id = allows_loop reads (ancestor_walk_new inode_id)"

function cycle_loop ::
  "('e, 'm) visibility_reads_scheme \<Rightarrow> inode_id \<Rightarrow> ancestor_walk \<Rightarrow> ('e, bool) result" where
  "cycle_loop reads inode_id walk =
     rbind (ancestor_walk_next reads walk) (\<lambda>(ancestor, walk').
       case ancestor of
         None \<Rightarrow> Inr False
       | Some a \<Rightarrow> if a = inode_id then Inr True else cycle_loop reads inode_id walk')"
  by auto

termination
  by (relation "measure (unseen \<circ> snd \<circ> snd)") (auto dest: ancestor_walk_next_unseen)

definition would_create_directory_cycle ::
  "('e, 'm) visibility_reads_scheme \<Rightarrow> inode_id \<Rightarrow> inode_id \<Rightarrow> ('e, bool) result" where
  "would_create_directory_cycle reads inode_id new_parent =
     cycle_loop reads inode_id (ancestor_walk_new new_parent)"

declare covering_loop.simps [simp del] allows_loop.simps [simp del] cycle_loop.simps [simp del]

section \<open>Visible inodes, children and paths\<close>

definition visible_inode ::
  "('e, 'm) visibility_reads_scheme \<Rightarrow> inode_id \<Rightarrow> ('e, inode_record option) result" where
  "visible_inode reads inode_id =
     rbind (vr_find_inode reads inode_id) (\<lambda>inode.
       case inode of
         None \<Rightarrow> Inr None
       | Some row \<Rightarrow>
           rbind (vr_covering_subtree_tombstone reads inode_id) (\<lambda>tombstone.
             Inr (if tombstone \<noteq> None then None else Some row)))"

definition visible_child ::
  "('e, 'm) visibility_reads_scheme \<Rightarrow> inode_id \<Rightarrow> name_key
    \<Rightarrow> ('e, direntry_binding_record option) result" where
  "visible_child reads parent_inode_id name_key =
     rbind (vr_visible_inode reads parent_inode_id) (\<lambda>parent.
       case parent of
         None \<Rightarrow> Inr None
       | Some parent \<Rightarrow>
           if ir_inode_kind parent \<noteq> Directory then Inr None
           else rbind (vr_active_child_binding reads parent_inode_id name_key) (\<lambda>direntry.
             case direntry of
               None \<Rightarrow> Inr None
             | Some direntry \<Rightarrow>
                 rbind (vr_visible_inode reads (db_child_inode_id direntry)) (\<lambda>child.
                   Inr (if child = None then None else Some direntry))))"

definition visible_page_child ::
  "('e, 'm) visibility_reads_scheme \<Rightarrow> direntry_binding_record
    \<Rightarrow> ('e, direntry_binding_record option) result" where
  "visible_page_child reads direntry =
     (if \<not> is_bound direntry then Inr None
      else rbind (vr_covering_subtree_tombstone reads (db_child_inode_id direntry)) (\<lambda>tombstone.
        Inr (if tombstone \<noteq> None then None else Some direntry)))"

text \<open>
  The loop of \<open>resolve_visible_path\<close>: the binding followed last, the path walked so far,
  and the components still to walk.  The display name of a visible binding is always
  present; the model reads it with the empty name as a default that is never used.
\<close>

fun resolve_components ::
  "unicode_tables \<Rightarrow> ('e, 'm) visibility_reads_scheme \<Rightarrow> direntry_binding_record option
    \<Rightarrow> absolute_path \<Rightarrow> display_name list
    \<Rightarrow> ('e, direntry_binding_record option \<times> absolute_path) result" where
  "resolve_components u reads last_binding path [] = Inr (last_binding, path)"
| "resolve_components u reads last_binding path (component # components) =
     (let (parent_inode_id, parent_kind) =
            (case last_binding of
               None \<Rightarrow> (ROOT_INODE_ID, Directory)
             | Some binding \<Rightarrow> (db_child_inode_id binding, db_child_kind binding));
          not_found = vr_from reads (PathNotFound (ap_normalized (join_path path component)));
          name_key = name_key_for_display_name u component
      in rbind (err_if (parent_kind \<noteq> Directory)
                  (vr_from reads
                     (PathComponentNotDirectory (ap_normalized path) parent_inode_id parent_kind))) (\<lambda>_.
         rbind (vr_active_child_binding reads parent_inode_id name_key) (\<lambda>direntry.
         rbind (ok_or not_found direntry) (\<lambda>direntry.
         rbind (visible_page_child reads direntry) (\<lambda>direntry.
         rbind (ok_or not_found direntry) (\<lambda>direntry.
         resolve_components u reads (Some direntry)
           (join_path path (the_default [] (db_display_name direntry))) components))))))"

text \<open>
  A non-root path has a component, so the loop ends with a binding
  (\<open>resolve_components_Some\<close> below); the last branch stands for the \<open>expect\<close>.
\<close>

definition resolve_visible_path ::
  "unicode_tables \<Rightarrow> ('e, 'm) visibility_reads_scheme \<Rightarrow> absolute_path
    \<Rightarrow> ('e, resolved_visible_path) result" where
  "resolve_visible_path u reads path =
     (if is_root_path path then
        rbind (vr_visible_inode reads ROOT_INODE_ID) (\<lambda>root.
        rbind (ok_or (vr_from reads RootMissing) root) (\<lambda>root.
        Inr \<lparr> rp_absolute_path = root_path, rp_inode_id = ROOT_INODE_ID,
              rp_inode_kind = ir_inode_kind root, rp_created_by = ir_committed_by root,
              rp_created_at_ms = ir_committed_at_ms root, rp_parent_inode_id = None,
              rp_display_name = [], rp_binding_version = None \<rparr>))
      else
        rbind (resolve_components u reads None root_path (ap_components path)) (\<lambda>(last_binding, walked).
        case last_binding of
          Some last_binding \<Rightarrow>
            Inr \<lparr> rp_absolute_path = walked, rp_inode_id = db_child_inode_id last_binding,
                  rp_inode_kind = db_child_kind last_binding,
                  rp_created_by = db_child_created_by last_binding,
                  rp_created_at_ms = db_child_created_at_ms last_binding,
                  rp_parent_inode_id = Some (db_parent_inode_id last_binding),
                  rp_display_name = the_default [] (db_display_name last_binding),
                  rp_binding_version = Some (db_bind_position last_binding) \<rparr>
        | None \<Rightarrow> Inl (vr_from reads RootMissing)))"

lemma resolve_components_Some:
  "resolve_components u reads b path ds = Inr (c, walked) \<Longrightarrow> b \<noteq> None \<or> ds \<noteq> [] \<Longrightarrow> c \<noteq> None"
  by (induction u reads b path ds rule: resolve_components.induct) (auto simp: Let_def split: prod.splits)

section \<open>The provided methods\<close>

text \<open>
  The provided methods of the trait, for a provider that overrides the first two with
  \<open>parent_binding\<close> and \<open>child_binding\<close>: each calls the composite rule on the reads
  themselves.
\<close>

definition with_provided ::
  "'e visibility_reads \<Rightarrow> (inode_id \<Rightarrow> ('e, direntry_binding_record option) result)
    \<Rightarrow> (inode_id \<Rightarrow> name_key \<Rightarrow> ('e, direntry_binding_record option) result)
    \<Rightarrow> 'e visibility_reads" where
  "with_provided lookups parent_binding child_binding =
     (let reads = lookups \<lparr> vr_current_parent_binding_for_child := parent_binding,
                            vr_active_child_binding := child_binding \<rparr>;
          reads = reads \<lparr> vr_covering_subtree_tombstone := covering_subtree_tombstone reads \<rparr>
      in reads \<lparr> vr_visible_inode := visible_inode reads \<rparr>)"

lemma ancestor_walk_next_cong:
  assumes "vr_from r = vr_from r'"
    "vr_current_parent_binding_for_child r = vr_current_parent_binding_for_child r'"
  shows "ancestor_walk_next r walk = ancestor_walk_next r' walk"
  unfolding ancestor_walk_next_def visit_ancestor_def assms by (rule refl)

lemma covering_loop_cong:
  assumes "vr_from r = vr_from r'"
    "vr_current_parent_binding_for_child r = vr_current_parent_binding_for_child r'"
    "vr_find_hiding_subtree_tombstone r = vr_find_hiding_subtree_tombstone r'"
  shows "covering_loop r walk = covering_loop r' walk"
  using assms
proof (induction r walk rule: covering_loop.induct)
  case (1 reads walk)
  have step: "ancestor_walk_next reads walk = ancestor_walk_next r' walk"
    using 1(2,3) by (rule ancestor_walk_next_cong)
  show ?case
    unfolding covering_loop.simps [of reads walk] covering_loop.simps [of r' walk] step
    using 1(1) [unfolded step] 1(2-4)
    by (intro rbind_cong refl) (auto split: option.splits intro!: rbind_cong)
qed

lemma with_provided_sel [simp]:
  "vr_from (with_provided l p c) = vr_from l"
  "vr_retention_floor_seq (with_provided l p c) = vr_retention_floor_seq l"
  "vr_find_inode (with_provided l p c) = vr_find_inode l"
  "vr_find_latest_slot_binding (with_provided l p c) = vr_find_latest_slot_binding l"
  "vr_find_latest_parent_binding_for_child (with_provided l p c) =
     vr_find_latest_parent_binding_for_child l"
  "vr_find_hiding_subtree_tombstone (with_provided l p c) = vr_find_hiding_subtree_tombstone l"
  "vr_find_access_row (with_provided l p c) = vr_find_access_row l"
  "vr_current_parent_binding_for_child (with_provided l p c) = p"
  "vr_active_child_binding (with_provided l p c) = c"
  by (simp_all add: with_provided_def Let_def)

lemma with_provided_covering:
  "vr_covering_subtree_tombstone (with_provided l p c) =
     covering_subtree_tombstone (with_provided l p c)"
proof
  fix i
  have "vr_covering_subtree_tombstone (with_provided l p c) i =
    covering_subtree_tombstone
      (l \<lparr> vr_current_parent_binding_for_child := p, vr_active_child_binding := c \<rparr>) i"
    by (simp add: with_provided_def Let_def)
  also have "\<dots> = covering_subtree_tombstone (with_provided l p c) i"
    unfolding covering_subtree_tombstone_def by (rule covering_loop_cong) simp_all
  finally show "vr_covering_subtree_tombstone (with_provided l p c) i =
    covering_subtree_tombstone (with_provided l p c) i" .
qed

lemma with_provided_visible_inode:
  "vr_visible_inode (with_provided l p c) = visible_inode (with_provided l p c)"
  by (simp add: with_provided_def Let_def visible_inode_def fun_eq_iff cong: option.case_cong)

section \<open>What the rules decide\<close>

text \<open>
  The edges of a map of current parent bindings, and the ancestors a walk has still to
  visit.
\<close>

definition parent_edges :: "(inode_id \<Rightarrow> direntry_binding_record option) \<Rightarrow> (inode_id \<times> inode_id) set" where
  "parent_edges par = {(c, p). \<exists>row. par c = Some row \<and> p = db_parent_inode_id row}"

definition ancestors :: "(inode_id \<Rightarrow> direntry_binding_record option) \<Rightarrow> inode_id \<Rightarrow> inode_id set" where
  "ancestors par i = (parent_edges par)\<^sup>* `` {i}"

definition pending :: "(inode_id \<Rightarrow> direntry_binding_record option) \<Rightarrow> ancestor_walk \<Rightarrow> inode_id set" where
  "pending par walk =
     (case aw_next walk of
        None \<Rightarrow> {}
      | Some (Inode i) \<Rightarrow> ancestors par i
      | Some (ParentOf i) \<Rightarrow> (parent_edges par)\<^sup>+ `` {i})"

lemma ancestors_refl [simp, intro]: "i \<in> ancestors par i"
  by (simp add: ancestors_def)

lemma ancestors_self_or_above: "ancestors par i = insert i ((parent_edges par)\<^sup>+ `` {i})"
  by (auto simp: ancestors_def rtrancl_eq_or_trancl)

lemma parent_edges_above:
  "(parent_edges par)\<^sup>+ `` {i} =
     (case par i of None \<Rightarrow> {} | Some row \<Rightarrow> ancestors par (db_parent_inode_id row))"
  by (auto simp: ancestors_def parent_edges_def trancl_unfold_left split: option.splits)

lemma ancestors_unfold:
  "ancestors par i =
     insert i (case par i of None \<Rightarrow> {} | Some row \<Rightarrow> ancestors par (db_parent_inode_id row))"
  by (simp add: ancestors_self_or_above [of par i] parent_edges_above)

lemma ancestors_trans: "b \<in> ancestors par a \<Longrightarrow> c \<in> ancestors par b \<Longrightarrow> c \<in> ancestors par a"
  by (auto simp: ancestors_def)

lemma pending_new [simp]: "pending par (ancestor_walk_new i) = ancestors par i"
  by (simp add: pending_def ancestor_walk_new_def)

text \<open>
  The first inode upward that decides whether an ancestry allows a read by inode id: the
  root allows it, a deletion above the floor allows it, one at or below it and a chain
  that breaks refuse it.
\<close>

inductive ancestry_allows ::
  "(inode_id \<Rightarrow> direntry_binding_record option) \<Rightarrow> (inode_id \<Rightarrow> subtree_tombstone_record option)
    \<Rightarrow> change_seq \<Rightarrow> inode_id \<Rightarrow> bool"
  for par hid floor where
  at_root: "ancestry_allows par hid floor ROOT_INODE_ID"
| recoverable: "i \<noteq> ROOT_INODE_ID \<Longrightarrow> hid i = Some t \<Longrightarrow> tb_committed_seq t > floor
    \<Longrightarrow> ancestry_allows par hid floor i"
| upward: "i \<noteq> ROOT_INODE_ID \<Longrightarrow> hid i = None \<Longrightarrow> par i = Some row
    \<Longrightarrow> ancestry_allows par hid floor (db_parent_inode_id row) \<Longrightarrow> ancestry_allows par hid floor i"

inductive_simps ancestry_allows_iff: "ancestry_allows par hid floor i"

text \<open>Path resolution over the maps themselves.\<close>

fun resolve_rows ::
  "unicode_tables \<Rightarrow> (inode_id \<Rightarrow> name_key \<Rightarrow> direntry_binding_record option) \<Rightarrow> (inode_id \<Rightarrow> bool)
    \<Rightarrow> direntry_binding_record option \<Rightarrow> absolute_path \<Rightarrow> display_name list
    \<Rightarrow> (visible_path_error, direntry_binding_record option \<times> absolute_path) result" where
  "resolve_rows u slot covered b path [] = Inr (b, path)"
| "resolve_rows u slot covered b path (d # ds) =
     (let (p, k) = (case b of None \<Rightarrow> (ROOT_INODE_ID, Directory)
                            | Some row \<Rightarrow> (db_child_inode_id row, db_child_kind row))
      in if k \<noteq> Directory then Inl (PathComponentNotDirectory (ap_normalized path) p k)
         else case slot p (name_key_for_display_name u d) of
                None \<Rightarrow> Inl (PathNotFound (ap_normalized (join_path path d)))
              | Some row \<Rightarrow>
                  if covered (db_child_inode_id row)
                  then Inl (PathNotFound (ap_normalized (join_path path d)))
                  else resolve_rows u slot covered (Some row)
                         (join_path path (the_default [] (db_display_name row))) ds)"

text \<open>
  A provider of the lookups.  Its states have an invariant, under which every lookup that
  returns is right about the rows the state stands for: \<open>inode_of\<close>, \<open>slot_of\<close> (the bound
  binding of a slot), \<open>parent_of\<close> (the bound binding of a child) and \<open>hiding_of\<close>.
\<close>

locale visibility_provider =
  fixes invar :: "'s \<Rightarrow> bool"
    and reads :: "'s \<Rightarrow> 'e visibility_reads"
    and inode_of :: "'s \<Rightarrow> inode_id \<Rightarrow> inode_record option"
    and slot_of :: "'s \<Rightarrow> inode_id \<Rightarrow> name_key \<Rightarrow> direntry_binding_record option"
    and parent_of :: "'s \<Rightarrow> inode_id \<Rightarrow> direntry_binding_record option"
    and hiding_of :: "'s \<Rightarrow> inode_id \<Rightarrow> subtree_tombstone_record option"
  assumes find_inode: "invar s \<Longrightarrow> vr_find_inode (reads s) i = Inr x \<Longrightarrow> inode_of s i = x"
    and active_child:
      "invar s \<Longrightarrow> vr_active_child_binding (reads s) p n = Inr y \<Longrightarrow> slot_of s p n = y"
    and current_parent:
      "invar s \<Longrightarrow> vr_current_parent_binding_for_child (reads s) c = Inr y \<Longrightarrow> parent_of s c = y"
    and find_hiding:
      "invar s \<Longrightarrow> vr_find_hiding_subtree_tombstone (reads s) r = Inr t \<Longrightarrow> hiding_of s r = t"
    and covering_provided:
      "vr_covering_subtree_tombstone (reads s) = covering_subtree_tombstone (reads s)"
    and visible_inode_provided: "vr_visible_inode (reads s) = visible_inode (reads s)"
    and slot_bound: "slot_of s p n = Some row \<Longrightarrow> is_bound row"
begin

lemma next_None:
  assumes "invar s" "ancestor_walk_next (reads s) walk = Inr (None, walk')"
  shows "pending (parent_of s) walk = {}"
  using assms
  by (auto simp: ancestor_walk_next_def visit_ancestor_def pending_def parent_edges_above
        dest!: current_parent split: option.splits next_ancestor.splits if_splits)

lemma next_Some:
  assumes "invar s" "ancestor_walk_next (reads s) walk = Inr (Some a, walk')"
  shows "pending (parent_of s) walk = insert a (pending (parent_of s) walk')"
    "pending (parent_of s) walk = ancestors (parent_of s) a"
proof -
  have "pending (parent_of s) walk = ancestors (parent_of s) a"
    using assms
    by (auto simp: ancestor_walk_next_def visit_ancestor_def pending_def parent_edges_above
          dest!: current_parent split: option.splits next_ancestor.splits if_splits)
  then show "pending (parent_of s) walk = ancestors (parent_of s) a" .
  then show "pending (parent_of s) walk = insert a (pending (parent_of s) walk')"
    using ancestor_walk_next_seen(3) [OF assms(2)]
    by (simp add: pending_def ancestors_self_or_above [of _ a])
qed

lemma covering_loop_None:
  assumes "invar s"
  shows "covering_loop (reads s) walk = Inr None \<Longrightarrow> a \<in> pending (parent_of s) walk
    \<Longrightarrow> hiding_of s a = None"
proof (induction "reads s" walk rule: covering_loop.induct)
  case (1 walk)
  from 1(2) obtain anc walk' where step: "ancestor_walk_next (reads s) walk = Inr (anc, walk')"
    by (subst (asm) covering_loop.simps) auto
  show ?case
  proof (cases anc)
    case None
    with step next_None [OF assms] 1(3) show ?thesis by blast
  next
    case (Some b)
    with 1(2) step have hid: "vr_find_hiding_subtree_tombstone (reads s) b = Inr None"
      and rest: "covering_loop (reads s) walk' = Inr None"
      by (subst (asm) (1) covering_loop.simps; auto split: option.splits)+
    show ?thesis
      using 1(1) [OF step refl Some hid refl rest] next_Some(1) [OF assms step [unfolded Some]] 1(3)
        find_hiding [OF assms hid]
      by auto
  qed
qed

lemma covering_loop_Some:
  assumes "invar s"
  shows "covering_loop (reads s) walk = Inr (Some t) \<Longrightarrow>
    \<exists>a\<in>pending (parent_of s) walk. hiding_of s a = Some t \<and>
      (\<forall>b\<in>pending (parent_of s) walk - ancestors (parent_of s) a. hiding_of s b = None)"
proof (induction "reads s" walk rule: covering_loop.induct)
  case (1 walk)
  from 1(2) obtain b walk' where step: "ancestor_walk_next (reads s) walk = Inr (Some b, walk')"
    by (subst (asm) covering_loop.simps) (auto split: option.splits)
  with 1(2) obtain h where hid: "vr_find_hiding_subtree_tombstone (reads s) b = Inr h"
    by (subst (asm) covering_loop.simps) auto
  note up = next_Some [OF assms step] and h = find_hiding [OF assms hid]
  show ?case
  proof (cases h)
    case (Some u)
    with 1(2) step hid have "t = u" by (subst (asm) covering_loop.simps) auto
    with up h Some show ?thesis by auto
  next
    case None
    with 1(2) step hid have rest: "covering_loop (reads s) walk' = Inr (Some t)"
      by (subst (asm) covering_loop.simps) auto
    from 1(1) [OF step refl refl hid None rest] up(1) h None show ?thesis by auto
  qed
qed

lemma covering_right:
  assumes "invar s" "covering_subtree_tombstone (reads s) i = Inr x"
  shows "x = None \<longleftrightarrow> (\<forall>a\<in>ancestors (parent_of s) i. hiding_of s a = None)"
    and "x = Some t \<Longrightarrow> \<exists>a\<in>ancestors (parent_of s) i. hiding_of s a = Some t \<and>
      (\<forall>b\<in>ancestors (parent_of s) i - ancestors (parent_of s) a. hiding_of s b = None)"
proof -
  show first: "\<exists>a\<in>ancestors (parent_of s) i. hiding_of s a = Some t \<and>
      (\<forall>b\<in>ancestors (parent_of s) i - ancestors (parent_of s) a. hiding_of s b = None)"
    if "x = Some t" for t
    using covering_loop_Some [OF assms(1), of "ancestor_walk_new i" t] assms(2) that
    by (simp add: covering_subtree_tombstone_def)
  show "x = None \<longleftrightarrow> (\<forall>a\<in>ancestors (parent_of s) i. hiding_of s a = None)"
  proof (cases x)
    case None
    then show ?thesis
      using covering_loop_None [OF assms(1), of "ancestor_walk_new i"] assms(2)
      by (simp add: covering_subtree_tombstone_def)
  next
    case (Some t)
    from first [OF Some] show ?thesis by (auto simp: Some)
  qed
qed

lemma cycle_loop_right:
  assumes "invar s"
  shows "cycle_loop (reads s) i walk = Inr b \<Longrightarrow> b \<longleftrightarrow> i \<in> pending (parent_of s) walk"
proof (induction "reads s" i walk rule: cycle_loop.induct)
  case (1 i walk)
  from 1(2) obtain anc walk' where step: "ancestor_walk_next (reads s) walk = Inr (anc, walk')"
    by (subst (asm) cycle_loop.simps) auto
  show ?case
  proof (cases anc)
    case None
    with 1(2) step have "\<not> b" by (subst (asm) cycle_loop.simps) auto
    with next_None [OF assms step [unfolded None]] show ?thesis by simp
  next
    case (Some a)
    note up = next_Some(1) [OF assms step [unfolded Some]]
    show ?thesis
    proof (cases "a = i")
      case True
      with 1(2) step Some up show ?thesis by (subst (asm) cycle_loop.simps) auto
    next
      case False
      with 1(2) step Some have "cycle_loop (reads s) i walk' = Inr b"
        by (subst (asm) cycle_loop.simps) auto
      with 1(1) [OF step refl Some False] up False show ?thesis by auto
    qed
  qed
qed

lemma would_create_cycle_right:
  assumes "invar s" "would_create_directory_cycle (reads s) i p = Inr b"
  shows "b \<longleftrightarrow> i \<in> ancestors (parent_of s) p"
  using cycle_loop_right [OF assms(1), of i "ancestor_walk_new p" b] assms(2)
  by (simp add: would_create_directory_cycle_def)

definition allows_from :: "'s \<Rightarrow> ancestor_walk \<Rightarrow> bool" where
  "allows_from s walk =
     (case aw_next walk of
        None \<Rightarrow> False
      | Some (Inode i) \<Rightarrow>
          ancestry_allows (parent_of s) (hiding_of s) (vr_retention_floor_seq (reads s)) i
      | Some (ParentOf i) \<Rightarrow>
          (case parent_of s i of
             None \<Rightarrow> False
           | Some row \<Rightarrow> ancestry_allows (parent_of s) (hiding_of s)
                          (vr_retention_floor_seq (reads s)) (db_parent_inode_id row)))"

lemma allows_from_step:
  assumes "invar s" "ancestor_walk_next (reads s) walk = Inr (anc, walk')"
  shows "anc = None \<Longrightarrow> \<not> allows_from s walk"
    and "anc = Some a \<Longrightarrow> allows_from s walk \<longleftrightarrow>
      ancestry_allows (parent_of s) (hiding_of s) (vr_retention_floor_seq (reads s)) a"
  using assms
  by (auto simp: ancestor_walk_next_def visit_ancestor_def allows_from_def
        dest!: current_parent split: option.splits next_ancestor.splits if_splits)

lemma allows_loop_right:
  assumes "invar s"
  shows "allows_loop (reads s) walk = Inr b \<Longrightarrow> b \<longleftrightarrow> allows_from s walk"
proof (induction "reads s" walk rule: allows_loop.induct)
  case (1 walk)
  from 1(2) obtain anc walk' where step: "ancestor_walk_next (reads s) walk = Inr (anc, walk')"
    by (subst (asm) allows_loop.simps) auto
  note from_step = allows_from_step [OF assms step]
  show ?case
  proof (cases anc)
    case None
    with 1(2) step from_step show ?thesis by (subst (asm) allows_loop.simps) auto
  next
    case (Some a)
    show ?thesis
    proof (cases "a = ROOT_INODE_ID")
      case True
      with 1(2) step Some have b by (subst (asm) allows_loop.simps) auto
      with from_step(2) [OF Some] True show ?thesis by (simp add: ancestry_allows.at_root)
    next
      case False
      with 1(2) step Some obtain h where hid: "vr_find_hiding_subtree_tombstone (reads s) a = Inr h"
        by (subst (asm) allows_loop.simps) auto
      note h = find_hiding [OF assms hid]
      show ?thesis
      proof (cases h)
        case (Some t)
        with 1(2) step \<open>anc = Some a\<close> False hid
        have "b \<longleftrightarrow> tb_committed_seq t > vr_retention_floor_seq (reads s)"
          by (subst (asm) allows_loop.simps) auto
        with from_step(2) [OF \<open>anc = Some a\<close>] False h Some show ?thesis
          by (simp add: ancestry_allows_iff [of _ _ _ a])
      next
        case None
        with 1(2) step \<open>anc = Some a\<close> False hid have rest: "allows_loop (reads s) walk' = Inr b"
          by (subst (asm) allows_loop.simps) auto
        have "allows_from s walk' \<longleftrightarrow> allows_from s walk"
          using from_step(2) [OF \<open>anc = Some a\<close>] False h None
            ancestor_walk_next_seen(3) [OF step [unfolded \<open>anc = Some a\<close>]]
          by (auto simp: allows_from_def ancestry_allows_iff [of _ _ _ a] split: option.splits)
        with 1(1) [OF step refl \<open>anc = Some a\<close> False hid None rest] show ?thesis by simp
      qed
    qed
  qed
qed

lemma ancestry_allows_right:
  assumes "invar s" "ancestry_allows_read (reads s) i = Inr b"
  shows "b \<longleftrightarrow> ancestry_allows (parent_of s) (hiding_of s) (vr_retention_floor_seq (reads s)) i"
  using allows_loop_right [OF assms(1), of "ancestor_walk_new i" b] assms(2)
  by (simp add: ancestry_allows_read_def allows_from_def ancestor_walk_new_def)

definition covered :: "'s \<Rightarrow> inode_id \<Rightarrow> bool" where
  "covered s i \<longleftrightarrow> (\<exists>a\<in>ancestors (parent_of s) i. hiding_of s a \<noteq> None)"

lemma covering_covered:
  assumes "invar s" "vr_covering_subtree_tombstone (reads s) i = Inr x"
  shows "x = None \<longleftrightarrow> \<not> covered s i"
  using covering_right(1) [OF assms(1), of i x] assms(2)
  by (auto simp: covered_def covering_provided)

lemma visible_inode_right:
  assumes "invar s" "visible_inode (reads s) i = Inr x"
  shows "x = (if covered s i then None else inode_of s i)"
proof -
  from assms(2) obtain y where y: "vr_find_inode (reads s) i = Inr y"
    by (auto simp: visible_inode_def)
  show ?thesis
  proof (cases y)
    case None
    with y assms(2) find_inode [OF assms(1) y] show ?thesis by (simp add: visible_inode_def)
  next
    case (Some row)
    with y assms(2) obtain t where t: "vr_covering_subtree_tombstone (reads s) i = Inr t"
      by (auto simp: visible_inode_def)
    with y Some assms(2) find_inode [OF assms(1) y] covering_covered [OF assms(1) t] show ?thesis
      by (cases t) (auto simp: visible_inode_def)
  qed
qed

lemma visible_child_right:
  assumes "invar s" "visible_child (reads s) p n = Inr x"
  shows "x = Some row \<longleftrightarrow>
    (\<exists>dir. inode_of s p = Some dir \<and> ir_inode_kind dir = Directory) \<and> \<not> covered s p \<and>
    slot_of s p n = Some row \<and> \<not> covered s (db_child_inode_id row) \<and>
    inode_of s (db_child_inode_id row) \<noteq> None"
proof -
  from assms(2) obtain y where y: "visible_inode (reads s) p = Inr y"
    by (auto simp: visible_child_def visible_inode_provided)
  note parent = visible_inode_right [OF assms(1) y]
  show ?thesis
  proof (cases "\<exists>dir. y = Some dir \<and> ir_inode_kind dir = Directory")
    case False
    with assms(2) y have "x = None"
      by (auto simp: visible_child_def visible_inode_provided split: option.splits if_splits)
    with False parent show ?thesis by (auto split: if_splits)
  next
    case True
    with assms(2) y obtain z where z: "vr_active_child_binding (reads s) p n = Inr z"
      by (auto simp: visible_child_def visible_inode_provided)
    note slot = active_child [OF assms(1) z]
    show ?thesis
    proof (cases z)
      case None
      with True assms(2) y z slot show ?thesis
        by (auto simp: visible_child_def visible_inode_provided)
    next
      case (Some found)
      with True assms(2) y z obtain c
        where c: "visible_inode (reads s) (db_child_inode_id found) = Inr c"
          and x: "x = (if c = None then None else Some found)"
        by (auto simp: visible_child_def visible_inode_provided)
      from x visible_inode_right [OF assms(1) c] slot Some True parent show ?thesis
        by (auto split: if_splits)
    qed
  qed
qed

lemma visible_page_child_right:
  assumes "invar s" "is_bound row" "visible_page_child (reads s) row = Inr x"
  shows "x = (if covered s (db_child_inode_id row) then None else Some row)"
  using assms(3,2) covering_covered [OF assms(1)]
  by (auto simp: visible_page_child_def split: if_splits)

lemma resolve_components_right:
  assumes "invar s"
  shows "resolve_components u (reads s) b path ds = Inr r
    \<Longrightarrow> resolve_rows u (slot_of s) (covered s) b path ds = Inr r"
proof (induction ds arbitrary: b path)
  case Nil
  then show ?case by simp
next
  case (Cons d ds)
  obtain p k where pk: "(case b of None \<Rightarrow> (ROOT_INODE_ID, Directory)
      | Some row \<Rightarrow> (db_child_inode_id row, db_child_kind row)) = (p, k)" by fastforce
  from Cons.prems pk obtain row where dir: "k = Directory"
    and slot: "vr_active_child_binding (reads s) p (name_key_for_display_name u d) = Inr (Some row)"
    and vis: "visible_page_child (reads s) row = Inr (Some row)"
    and rest: "resolve_components u (reads s) (Some row)
      (join_path path (the_default [] (db_display_name row))) ds = Inr r"
    by (auto simp: Let_def visible_page_child_def split: if_splits)
  note slot_row = active_child [OF assms slot]
  have "\<not> covered s (db_child_inode_id row)"
    using visible_page_child_right [OF assms slot_bound [OF slot_row] vis] by (auto split: if_splits)
  with Cons.IH [OF rest] slot_row dir pk show ?case by (simp add: Let_def)
qed

text \<open>The inodes a walk has seen lie below the ones it has still to visit.\<close>

definition walk_ok :: "'s \<Rightarrow> ancestor_walk \<Rightarrow> bool" where
  "walk_ok s walk \<longleftrightarrow>
     (\<forall>x\<in>aw_seen walk. \<forall>a\<in>pending (parent_of s) walk. (x, a) \<in> (parent_edges (parent_of s))\<^sup>+)"

lemma walk_ok_new [simp]: "walk_ok s (ancestor_walk_new i)"
  by (simp add: walk_ok_def ancestor_walk_new_def)

lemma walk_ok_next:
  assumes "invar s" "walk_ok s walk" "ancestor_walk_next (reads s) walk = Inr (Some a, walk')"
  shows "walk_ok s walk'"
  using assms(2) next_Some [OF assms(1,3)] ancestor_walk_next_seen [OF assms(3)]
  by (auto simp: walk_ok_def pending_def)

end

text \<open>A provider whose lookups never fail, as one over rows in memory.\<close>

locale total_provider = visibility_provider +
  assumes find_inode_total: "invar s \<Longrightarrow> \<exists>x. vr_find_inode (reads s) i = Inr x"
    and active_child_total: "invar s \<Longrightarrow> \<exists>x. vr_active_child_binding (reads s) p n = Inr x"
    and current_parent_total: "invar s \<Longrightarrow> \<exists>x. vr_current_parent_binding_for_child (reads s) c = Inr x"
    and find_hiding_total: "invar s \<Longrightarrow> \<exists>x. vr_find_hiding_subtree_tombstone (reads s) r = Inr x"
begin

text \<open>A walk fails on a cycle of parent bindings and on nothing else.\<close>

lemma next_error:
  assumes "invar s" "walk_ok s walk" "ancestor_walk_next (reads s) walk = Inl e"
  shows "\<exists>a\<in>pending (parent_of s) walk. e = vr_from (reads s) (ParentBindingCycle a) \<and>
    (a, a) \<in> (parent_edges (parent_of s))\<^sup>+"
proof (cases "aw_next walk")
  case None
  with assms(3) show ?thesis by (simp add: ancestor_walk_next_def)
next
  case (Some nxt)
  show ?thesis
  proof (cases nxt)
    case (Inode a)
    with Some assms(3) have "a \<in> aw_seen walk" "e = vr_from (reads s) (ParentBindingCycle a)"
      by (auto simp: ancestor_walk_next_def visit_ancestor_def split: if_splits)
    moreover have "a \<in> pending (parent_of s) walk" using Some Inode by (simp add: pending_def)
    ultimately show ?thesis using assms(2) by (auto simp: walk_ok_def)
  next
    case (ParentOf c)
    obtain y where y: "vr_current_parent_binding_for_child (reads s) c = Inr y"
      using current_parent_total [OF assms(1)] by blast
    note par = current_parent [OF assms(1) y]
    from Some ParentOf y assms(3) obtain row where row: "y = Some row"
      and seen: "db_parent_inode_id row \<in> aw_seen walk"
      and e: "e = vr_from (reads s) (ParentBindingCycle (db_parent_inode_id row))"
      by (auto simp: ancestor_walk_next_def visit_ancestor_def split: option.splits if_splits)
    have "db_parent_inode_id row \<in> pending (parent_of s) walk"
      using Some ParentOf par row by (simp add: pending_def parent_edges_above)
    with seen e assms(2) show ?thesis by (auto simp: walk_ok_def)
  qed
qed

lemma covering_loop_error:
  assumes "invar s"
  shows "walk_ok s walk \<Longrightarrow> covering_loop (reads s) walk = Inl e \<Longrightarrow>
    \<exists>a\<in>pending (parent_of s) walk. e = vr_from (reads s) (ParentBindingCycle a) \<and>
      (a, a) \<in> (parent_edges (parent_of s))\<^sup>+"
proof (induction "reads s" walk rule: covering_loop.induct)
  case (1 walk)
  show ?case
  proof (cases "ancestor_walk_next (reads s) walk")
    case (Inl e')
    with 1(3) have "e' = e" by (subst (asm) covering_loop.simps) auto
    with next_error [OF assms 1(2) Inl] show ?thesis by simp
  next
    case (Inr r)
    obtain anc walk' where r: "r = (anc, walk')" by (cases r)
    from 1(3) Inr r obtain a where a: "anc = Some a"
      by (subst (asm) covering_loop.simps) (auto split: option.splits)
    note step = Inr [unfolded r a]
    obtain h where hid: "vr_find_hiding_subtree_tombstone (reads s) a = Inr h"
      using find_hiding_total [OF assms] by blast
    with 1(3) step have h: "h = None" and rest: "covering_loop (reads s) walk' = Inl e"
      by (subst (asm) covering_loop.simps; cases h; simp)+
    from 1(1) [OF step refl refl hid h walk_ok_next [OF assms 1(2) step] rest]
      next_Some(1) [OF assms step]
    show ?thesis by auto
  qed
qed

lemma covering_error:
  assumes "invar s" "covering_subtree_tombstone (reads s) i = Inl e"
  shows "\<exists>a\<in>ancestors (parent_of s) i. e = vr_from (reads s) (ParentBindingCycle a) \<and>
    (a, a) \<in> (parent_edges (parent_of s))\<^sup>+"
  using covering_loop_error [OF assms(1) walk_ok_new, of i e] assms(2)
  by (simp add: covering_subtree_tombstone_def)

lemma covering_total:
  assumes "invar s" "acyclic (parent_edges (parent_of s))"
  obtains x where "covering_subtree_tombstone (reads s) i = Inr x"
  using covering_error [OF assms(1), of i] assms(2)
  by (cases "covering_subtree_tombstone (reads s) i") (auto simp: acyclic_def)

lemma visible_inode_total:
  assumes "invar s" "acyclic (parent_edges (parent_of s))"
  shows "visible_inode (reads s) i = Inr (if covered s i then None else inode_of s i)"
proof -
  obtain x where x: "vr_find_inode (reads s) i = Inr x" using find_inode_total [OF assms(1)] by blast
  obtain t where t: "vr_covering_subtree_tombstone (reads s) i = Inr t"
    using covering_total [OF assms, of i] by (auto simp: covering_provided)
  have "\<exists>y. visible_inode (reads s) i = Inr y" using x t by (cases x) (simp_all add: visible_inode_def)
  with visible_inode_right [OF assms(1), of i] show ?thesis by auto
qed

lemma visible_page_child_total:
  assumes "invar s" "acyclic (parent_edges (parent_of s))" "is_bound row"
  shows "visible_page_child (reads s) row =
    Inr (if covered s (db_child_inode_id row) then None else Some row)"
proof -
  obtain t where "vr_covering_subtree_tombstone (reads s) (db_child_inode_id row) = Inr t"
    using covering_total [OF assms(1,2), of "db_child_inode_id row"] by (auto simp: covering_provided)
  then have "\<exists>y. visible_page_child (reads s) row = Inr y" using assms(3)
    by (simp add: visible_page_child_def)
  with visible_page_child_right [OF assms(1,3)] show ?thesis by auto
qed

lemma resolve_components_total:
  assumes "invar s" "acyclic (parent_edges (parent_of s))"
  shows "resolve_components u (reads s) b path ds =
    map_err (vr_from (reads s)) (resolve_rows u (slot_of s) (covered s) b path ds)"
proof (induction ds arbitrary: b path)
  case Nil
  then show ?case by simp
next
  case (Cons d ds)
  obtain p k where pk: "(case b of None \<Rightarrow> (ROOT_INODE_ID, Directory)
      | Some row \<Rightarrow> (db_child_inode_id row, db_child_kind row)) = (p, k)" by fastforce
  obtain y where y: "vr_active_child_binding (reads s) p (name_key_for_display_name u d) = Inr y"
    using active_child_total [OF assms(1)] by blast
  note slot = active_child [OF assms(1) y]
  show ?case
  proof (cases y)
    case None
    with pk y slot show ?thesis by (simp add: Let_def err_if_def)
  next
    case (Some row)
    with pk y slot visible_page_child_total [OF assms slot_bound] Cons.IH show ?thesis
      by (simp add: Let_def err_if_def)
  qed
qed

end

end
