(* ===== verification/State_Reads.thy ===== *)
theory State_Reads
  imports Visibility
begin

text \<open>
  Reads over an in-memory state: the scans of \<open>loonfs-core/src/metadata/queries.rs\<close> and
  \<open>MetadataStateReads\<close> of \<open>metadata/visibility.rs\<close>, which answers from the indexes at or
  above the indexed sequence and from a scan below it.  The two ways agree on every state
  a history of commits builds, which makes the state a provider of the visibility rules.
\<close>

section \<open>Reads over an in-memory state\<close>

text \<open>The scans of \<open>queries.rs\<close>, over lists of rows.\<close>

definition inode_at_seq_scan :: "inode_record list \<Rightarrow> inode_id \<Rightarrow> change_seq \<Rightarrow> inode_record option" where
  "inode_at_seq_scan inodes inode_id base_seq =
     find (\<lambda>inode. ir_inode_id inode = inode_id \<and> ir_committed_seq inode \<le> base_seq) inodes"

definition bound_child_at_seq_scan ::
  "direntry_binding_record list \<Rightarrow> inode_id \<Rightarrow> name_key \<Rightarrow> change_seq
    \<Rightarrow> direntry_binding_record option" where
  "bound_child_at_seq_scan direntry_binds parent name_key base_seq =
     max_by_key db_position
       (filter (\<lambda>row. db_parent_inode_id row = parent \<and> db_name_key row = name_key
                        \<and> db_committed_seq row \<le> base_seq) direntry_binds)"

definition latest_parent_binding_for_child_at_seq ::
  "direntry_binding_record list \<Rightarrow> inode_id \<Rightarrow> change_seq \<Rightarrow> direntry_binding_record option" where
  "latest_parent_binding_for_child_at_seq direntry_binds child base_seq =
     max_by_key db_position
       (filter (\<lambda>row. db_child_inode_id row = child \<and> is_binding_event row
                        \<and> db_committed_seq row \<le> base_seq) direntry_binds)"

definition hiding_subtree_tombstone_scan ::
  "subtree_tombstone_record list \<Rightarrow> inode_id \<Rightarrow> change_seq \<Rightarrow> subtree_tombstone_record option" where
  "hiding_subtree_tombstone_scan tombstones root base_seq =
     hiding_tombstone_from_records (filter (\<lambda>row. tb_root_inode_id row = root) tombstones) base_seq"

definition newest_access_row_at_seq ::
  "access_revision_record list \<Rightarrow> inode_id \<Rightarrow> change_seq \<Rightarrow> access_revision_record option" where
  "newest_access_row_at_seq access_revisions inode_id base_seq =
     max_by_key (\<lambda>row. (xr_access_revision_no row, xr_committed_seq row, xr_delta_index row))
       (filter (\<lambda>row. xr_inode_id row = inode_id \<and> xr_committed_seq row \<le> base_seq)
          access_revisions)"

text \<open>
  \<open>MetadataStateReads\<close>: at or above the indexed sequence the indexes answer, below it the
  rows are scanned.  Its error is the path error itself, and its lookups never fail.
\<close>

definition state_find_inode :: "metadata_state \<Rightarrow> change_seq \<Rightarrow> inode_id \<Rightarrow> inode_record option" where
  "state_find_inode st base_seq inode_id =
     (if base_seq \<ge> indexed_seq st then ix_inode_by_id (ms_indexes st) inode_id
      else inode_at_seq_scan (ms_inodes st) inode_id base_seq)"

definition state_find_latest_slot_binding ::
  "metadata_state \<Rightarrow> change_seq \<Rightarrow> inode_id \<Rightarrow> name_key \<Rightarrow> direntry_binding_record option" where
  "state_find_latest_slot_binding st base_seq parent name_key =
     (if base_seq \<ge> indexed_seq st
      then ix_latest_bind_by_parent_name (ms_indexes st) (parent, name_key)
      else bound_child_at_seq_scan (ms_direntry_binds st) parent name_key base_seq)"

definition state_find_latest_parent_binding_for_child ::
  "metadata_state \<Rightarrow> change_seq \<Rightarrow> inode_id \<Rightarrow> direntry_binding_record option" where
  "state_find_latest_parent_binding_for_child st base_seq child =
     latest_parent_binding_for_child_at_seq (ms_direntry_binds st) child
       (min base_seq (indexed_seq st))"

definition state_find_hiding_subtree_tombstone ::
  "metadata_state \<Rightarrow> change_seq \<Rightarrow> inode_id \<Rightarrow> subtree_tombstone_record option" where
  "state_find_hiding_subtree_tombstone st base_seq root =
     (if base_seq \<ge> indexed_seq st then ix_hiding_tombstone (ms_indexes st) root
      else hiding_subtree_tombstone_scan (ms_subtree_tombstones st) root base_seq)"

text \<open>The required methods; the provided ones are filled in around them.\<close>

definition state_lookups :: "metadata_state \<Rightarrow> change_seq \<Rightarrow> visible_path_error visibility_reads" where
  "state_lookups st base_seq =
     \<lparr> vr_from = (\<lambda>e. e),
       vr_retention_floor_seq = 0,
       vr_find_inode = (\<lambda>i. Inr (state_find_inode st base_seq i)),
       vr_find_latest_slot_binding = (\<lambda>p n. Inr (state_find_latest_slot_binding st base_seq p n)),
       vr_find_latest_parent_binding_for_child =
         (\<lambda>c. Inr (state_find_latest_parent_binding_for_child st base_seq c)),
       vr_find_hiding_subtree_tombstone =
         (\<lambda>r. Inr (state_find_hiding_subtree_tombstone st base_seq r)),
       vr_find_access_row = (\<lambda>i. Inr (newest_access_row_at_seq (ms_access_revisions st) i base_seq)),
       vr_current_parent_binding_for_child = (\<lambda>_. Inr None),
       vr_active_child_binding = (\<lambda>_ _. Inr None),
       vr_covering_subtree_tombstone = (\<lambda>_. Inr None),
       vr_visible_inode = (\<lambda>_. Inr None) \<rparr>"

definition reads_at_seq :: "metadata_state \<Rightarrow> change_seq \<Rightarrow> visible_path_error visibility_reads" where
  "reads_at_seq st base_seq =
     (let lookups = state_lookups st base_seq
      in with_provided lookups
           (\<lambda>child. if base_seq \<ge> indexed_seq st
                    then Inr (ix_active_parent_for_child (ms_indexes st) child)
                    else current_parent_binding_for_child lookups child)
           (\<lambda>parent name_key. if base_seq \<ge> indexed_seq st
                    then Inr (ix_active_child (ms_indexes st) parent name_key)
                    else active_child_binding lookups parent name_key))"

section \<open>The in-memory state is a provider\<close>

text \<open>The rows' own answers at a sequence.\<close>

definition row_slot ::
  "direntry_binding_record list \<Rightarrow> change_seq \<Rightarrow> inode_id \<Rightarrow> name_key \<Rightarrow> direntry_binding_record option" where
  "row_slot binds s p n = option_filter is_bound (bound_child_at_seq_scan binds p n s)"

definition row_parent ::
  "direntry_binding_record list \<Rightarrow> change_seq \<Rightarrow> inode_id \<Rightarrow> direntry_binding_record option" where
  "row_parent binds s c = option_filter is_bound (latest_parent_binding_for_child_at_seq binds c s)"

text \<open>
  The states a history of commits builds: sound indexes, one row per position and one
  inode row per inode, and no binding of the root as a child.
\<close>

definition state_ok :: "metadata_state \<Rightarrow> bool" where
  "state_ok st \<longleftrightarrow>
     indexes_ok st \<and>
     inj_on db_position (set (ms_direntry_binds st)) \<and>
     inj_on tb_position (set (ms_subtree_tombstones st)) \<and>
     distinct (map ir_inode_id (ms_inodes st)) \<and>
     (\<forall>row\<in>set (ms_direntry_binds st). db_child_inode_id row \<noteq> ROOT_INODE_ID)"

lemma tombstone_order_key_le:
  "tombstone_order_key a \<le> tombstone_order_key b \<longleftrightarrow> tb_position a \<le> tb_position b"
  by (auto simp: tombstone_order_key_def tb_position_def less_eq_prod_def)

lemma newest_of_tombstone_order:
  "newest_of tombstone_order_key rows m \<longleftrightarrow> newest_of tb_position rows m"
  by (cases m) (simp_all add: newest_of_Some tombstone_order_key_le)

lemma filter_seq_le:
  assumes "\<And>x. x \<in> set xs \<Longrightarrow> f x \<le> s"
  shows "filter (\<lambda>x. P x \<and> f x \<le> s) xs = filter P xs"
  by (rule filter_cong) (simp_all add: assms)

lemma find_seq_le:
  assumes "\<And>x. x \<in> set xs \<Longrightarrow> f x \<le> s"
  shows "find (\<lambda>x. P x \<and> f x \<le> s) xs = find P xs"
  by (rule find_cong) (simp_all add: assms)

lemma latest_distinct_key:
  assumes dist: "distinct (map k xs)"
  shows "latest (\<lambda>x. k x = v) xs = find (\<lambda>x. k x = v) xs"
proof (cases "latest (\<lambda>x. k x = v) xs")
  case None
  then have "\<forall>x\<in>set xs. k x \<noteq> v" unfolding latest_None_iff .
  then have "find (\<lambda>x. k x = v) xs = None" unfolding find_None_iff by blast
  with None show ?thesis by (simp only:)
next
  case (Some y)
  from latest_Some [OF Some] have y: "y \<in> set xs" "k y = v" by blast+
  have "find (\<lambda>z. k z = k y \<and> True) xs = Some y"
    using dist y(1) TrueI by (rule find_distinct_key)
  with Some y(2) show ?thesis by simp
qed

text \<open>At or above the indexed sequence the indexes and the scans agree.\<close>

lemma head_rows:
  assumes "state_ok st" "indexed_seq st \<le> s"
  shows "row \<in> set (ms_inodes st) \<Longrightarrow> ir_committed_seq row \<le> s"
    and "db \<in> set (ms_direntry_binds st) \<Longrightarrow> db_committed_seq db \<le> s"
    and "tb \<in> set (ms_subtree_tombstones st) \<Longrightarrow> tb_committed_seq tb \<le> s"
  using assms indexes_ok_rows_le [of st s] by (auto simp: state_ok_def rows_le_def)

lemma index_inode:
  assumes "state_ok st" "indexed_seq st \<le> s"
  shows "ix_inode_by_id (ms_indexes st) i = inode_at_seq_scan (ms_inodes st) i s"
proof -
  have "ix_inode_by_id (ms_indexes st) i = latest (\<lambda>row. ir_inode_id row = i) (ms_inodes st)"
    using assms(1) by (simp add: state_ok_def indexes_ok_def)
  also have "\<dots> = find (\<lambda>row. ir_inode_id row = i) (ms_inodes st)"
    using assms(1) by (intro latest_distinct_key) (simp add: state_ok_def)
  also have "\<dots> = inode_at_seq_scan (ms_inodes st) i s"
    unfolding inode_at_seq_scan_def by (rule find_seq_le [symmetric]) (rule head_rows(1) [OF assms])
  finally show ?thesis .
qed

lemma index_slot:
  assumes "state_ok st" "indexed_seq st \<le> s"
  shows "ix_latest_bind_by_parent_name (ms_indexes st) (p, n) =
    bound_child_at_seq_scan (ms_direntry_binds st) p n s"
proof -
  have "ix_latest_bind_by_parent_name (ms_indexes st) (p, n) =
    max_by_key db_position (filter (\<lambda>row. True \<and>
      (db_parent_inode_id row, db_name_key row) = (p, n)) (ms_direntry_binds st))"
    using assms(1) by (intro index_of_lookup) (simp_all add: state_ok_def indexes_ok_def)
  also have "\<dots> = bound_child_at_seq_scan (ms_direntry_binds st) p n s"
    unfolding bound_child_at_seq_scan_def
    using filter_seq_le [of "ms_direntry_binds st" db_committed_seq s
        "\<lambda>row. db_parent_inode_id row = p \<and> db_name_key row = n", OF head_rows(2) [OF assms]]
    by (simp add: conj_assoc)
  finally show ?thesis .
qed

lemma index_child:
  assumes "state_ok st" "indexed_seq st \<le> s"
  shows "ix_latest_binding_by_child (ms_indexes st) c =
    latest_parent_binding_for_child_at_seq (ms_direntry_binds st) c s"
proof -
  have "ix_latest_binding_by_child (ms_indexes st) c =
    max_by_key db_position (filter (\<lambda>row. is_binding_event row \<and> db_child_inode_id row = c)
      (ms_direntry_binds st))"
    using assms(1) by (intro index_of_lookup) (simp_all add: state_ok_def indexes_ok_def)
  also have "\<dots> = latest_parent_binding_for_child_at_seq (ms_direntry_binds st) c s"
    unfolding latest_parent_binding_for_child_at_seq_def
    using filter_seq_le [of "ms_direntry_binds st" db_committed_seq s
        "\<lambda>row. db_child_inode_id row = c \<and> is_binding_event row", OF head_rows(2) [OF assms]]
    by (simp add: conj_ac)
  finally show ?thesis .
qed

lemma index_hiding:
  assumes "state_ok st" "indexed_seq st \<le> s"
  shows "ix_hiding_tombstone (ms_indexes st) r =
    hiding_subtree_tombstone_scan (ms_subtree_tombstones st) r s"
proof -
  let ?rows = "filter (\<lambda>row. True \<and> tb_root_inode_id row = r) (ms_subtree_tombstones st)"
  have "index_of (\<lambda>_. True) tb_root_inode_id tombstone_order_key (ms_subtree_tombstones st)
      (ix_tombstone_by_root (ms_indexes st))"
    using assms(1) by (simp add: state_ok_def indexes_ok_def)
  then have "newest_of tb_position ?rows (ix_tombstone_by_root (ms_indexes st) r)"
    unfolding index_of_def newest_of_tombstone_order by blast
  moreover have "inj_on tb_position (set (ms_subtree_tombstones st))"
    using assms(1) by (simp add: state_ok_def)
  then have "inj_on tb_position (set ?rows)" by (rule inj_on_subset) auto
  ultimately have newest: "max_by_key tb_position ?rows = ix_tombstone_by_root (ms_indexes st) r"
    by (rule max_by_key_newest_of)
  have "filter (\<lambda>row. tb_committed_seq row \<le> s) ?rows = ?rows"
    by (rule filter_True) (use head_rows(3) [OF assms] in auto)
  with newest show ?thesis
    by (simp add: ix_hiding_tombstone_def hiding_subtree_tombstone_scan_def
          hiding_tombstone_from_records_def newest_tombstone_from_records_def)
qed

lemma latest_parent_min:
  assumes "state_ok st"
  shows "latest_parent_binding_for_child_at_seq (ms_direntry_binds st) c (min s (indexed_seq st)) =
    latest_parent_binding_for_child_at_seq (ms_direntry_binds st) c s"
proof (cases "indexed_seq st \<le> s")
  case True
  from index_child [OF assms order_refl] index_child [OF assms True] True show ?thesis
    by (simp add: min_absorb2)
next
  case False
  then show ?thesis by (simp add: min_absorb1)
qed

text \<open>The state's lookups are the rows' own answers, whichever way they are computed.\<close>

lemma reads_find_inode:
  "state_ok st \<Longrightarrow> vr_find_inode (reads_at_seq st s) i = Inr (inode_at_seq_scan (ms_inodes st) i s)"
  by (simp add: reads_at_seq_def state_lookups_def Let_def state_find_inode_def index_inode)

lemma reads_find_slot:
  "state_ok st \<Longrightarrow> vr_find_latest_slot_binding (reads_at_seq st s) p n =
    Inr (bound_child_at_seq_scan (ms_direntry_binds st) p n s)"
  by (simp add: reads_at_seq_def state_lookups_def Let_def state_find_latest_slot_binding_def index_slot)

lemma reads_find_hiding:
  "state_ok st \<Longrightarrow> vr_find_hiding_subtree_tombstone (reads_at_seq st s) r =
    Inr (hiding_subtree_tombstone_scan (ms_subtree_tombstones st) r s)"
  by (simp add: reads_at_seq_def state_lookups_def Let_def
        state_find_hiding_subtree_tombstone_def index_hiding)

lemma reads_active_child:
  assumes "state_ok st"
  shows "vr_active_child_binding (reads_at_seq st s) p n = Inr (row_slot (ms_direntry_binds st) s p n)"
  using assms
  by (simp add: reads_at_seq_def state_lookups_def Let_def active_child_binding_def ix_active_child_def
        state_find_latest_slot_binding_def row_slot_def index_slot)

lemma row_parent_root:
  assumes "state_ok st" shows "row_parent (ms_direntry_binds st) s ROOT_INODE_ID = None"
proof -
  have "filter (\<lambda>row. db_child_inode_id row = ROOT_INODE_ID \<and> is_binding_event row
      \<and> db_committed_seq row \<le> s) (ms_direntry_binds st) = []"
    using assms by (auto simp: state_ok_def filter_empty_conv)
  then show ?thesis by (simp add: row_parent_def latest_parent_binding_for_child_at_seq_def)
qed

lemma reads_current_parent:
  assumes "state_ok st"
  shows "vr_current_parent_binding_for_child (reads_at_seq st s) c =
    Inr (row_parent (ms_direntry_binds st) s c)"
proof (cases "indexed_seq st \<le> s")
  case True
  with assms show ?thesis
    by (simp add: reads_at_seq_def Let_def ix_active_parent_for_child_def row_parent_def index_child)
next
  case False
  with assms row_parent_root [OF assms] show ?thesis
    by (simp add: reads_at_seq_def Let_def current_parent_binding_for_child_def state_lookups_def
          state_find_latest_parent_binding_for_child_def latest_parent_min row_parent_def)
qed

lemma reads_at_seq_from [simp]: "vr_from (reads_at_seq st s) = (\<lambda>e. e)"
  by (simp add: reads_at_seq_def Let_def state_lookups_def)

lemma reads_at_seq_floor [simp]: "vr_retention_floor_seq (reads_at_seq st s) = 0"
  by (simp add: reads_at_seq_def Let_def state_lookups_def)

lemma reads_total:
  shows "\<exists>x. vr_find_inode (reads_at_seq st s) i = Inr x"
    and "\<exists>x. vr_active_child_binding (reads_at_seq st s) p n = Inr x"
    and "\<exists>x. vr_current_parent_binding_for_child (reads_at_seq st s) c = Inr x"
    and "\<exists>x. vr_find_hiding_subtree_tombstone (reads_at_seq st s) r = Inr x"
  by (simp_all add: reads_at_seq_def Let_def state_lookups_def active_child_binding_def
        current_parent_binding_for_child_def)

interpretation state_reads: total_provider
  "\<lambda>(st, s). state_ok st"
  "\<lambda>(st, s). reads_at_seq st s"
  "\<lambda>(st, s) i. inode_at_seq_scan (ms_inodes st) i s"
  "\<lambda>(st, s). row_slot (ms_direntry_binds st) s"
  "\<lambda>(st, s). row_parent (ms_direntry_binds st) s"
  "\<lambda>(st, s) r. hiding_subtree_tombstone_scan (ms_subtree_tombstones st) r s"
proof (unfold_locales, goal_cases)
  case (1 s i x)
  then show ?case by (auto simp: reads_find_inode)
next
  case (2 s p n y)
  then show ?case by (auto simp: reads_active_child)
next
  case (3 s c y)
  then show ?case by (auto simp: reads_current_parent)
next
  case (4 s r t)
  then show ?case by (auto simp: reads_find_hiding)
next
  case (5 s)
  then show ?case by (simp add: reads_at_seq_def Let_def with_provided_covering split: prod.splits)
next
  case (6 s)
  then show ?case by (simp add: reads_at_seq_def Let_def with_provided_visible_inode split: prod.splits)
next
  case (7 s p n row)
  then show ?case by (simp add: row_slot_def split: prod.splits)
qed (auto simp: reads_total split: prod.splits)

end
