(* ===== verification/Wal_Tail.thy ===== *)
theory Wal_Tail
  imports Metadata_State
begin

text \<open>
  The write-ahead-log tail above a manifest (\<open>loonfs-core/src/wal/projected_tail.rs\<close>) and
  the checks and replay that build it (\<open>loonfs-core/src/wal/replay.rs\<close>).  A tail is one
  chunk of rows and content pieces per log object.  Byte counts of cache accounting are
  left out; the stored and inline sizes, which limits are checked against, are kept.
\<close>

section \<open>Log objects\<close>

record wal_object_payload =
  wo_namespace_id :: namespace_id
  wo_wal_no :: u64
  wo_writer_epoch :: u64
  wo_head_seq :: change_seq
  wo_records :: "wal_commit_payload list"

datatype wal_object_error =
    NamespaceMismatch namespace_id namespace_id
  | NonContiguousSeq change_seq change_seq
  | Codec string string
  | SeqOverflow
  | ActivityOverflow
  | WriterEpochMismatch u64 u64
  | SummaryMismatch

text \<open>The loop over the records: each has the sequence of its offset.\<close>

fun check_contiguous ::
  "change_seq \<Rightarrow> u64 \<Rightarrow> wal_commit_payload list \<Rightarrow> (wal_object_error, unit) result" where
  "check_contiguous expected_first offset [] = Inr ()"
| "check_contiguous expected_first offset (payload # payloads) =
     rbind (ok_or SeqOverflow (checked_add expected_first offset)) (\<lambda>expected.
     rbind (err_if (wc_committed_seq payload \<noteq> expected)
              (NonContiguousSeq expected (wc_committed_seq payload))) (\<lambda>_.
     check_contiguous expected_first (offset + 1) payloads))"

definition validate_wal_object_for_replay ::
  "change_seq \<Rightarrow> wal_object_payload \<Rightarrow> (wal_object_error, unit) result" where
  "validate_wal_object_for_replay expected_prior_head_seq payload =
     (if wo_records payload = [] then
        err_if (wo_head_seq payload \<noteq> expected_prior_head_seq) SummaryMismatch
      else
        rbind (map_err (\<lambda>_. SeqOverflow) (successor expected_prior_head_seq)) (\<lambda>expected_first_seq.
        rbind (err_if (wc_committed_seq (hd (wo_records payload)) \<noteq> expected_first_seq
                 \<or> wc_committed_seq (last (wo_records payload)) \<noteq> wo_head_seq payload)
                 SummaryMismatch) (\<lambda>_.
        check_contiguous expected_first_seq 0 (wo_records payload))))"

section \<open>Content pieces\<close>

record projected_piece =
  pp_offset :: u64
  pp_bytes :: "u8 list"

record projected_content =
  pc_content_ref :: content_ref
  pc_committed_seq :: change_seq
  pc_pieces :: "projected_piece list"

definition projected_content_new :: "content_ref \<Rightarrow> change_seq \<Rightarrow> projected_content" where
  "projected_content_new content committed_seq =
     \<lparr> pc_content_ref = content, pc_committed_seq = committed_seq, pc_pieces = [] \<rparr>"

text \<open>
  The binary search over pieces ordered by offset: the piece at the same offset is
  replaced and returned, or the new piece goes to its place in the order.
\<close>

fun place_piece ::
  "projected_piece \<Rightarrow> projected_piece list \<Rightarrow> projected_piece option \<times> projected_piece list" where
  "place_piece piece [] = (None, [piece])"
| "place_piece piece (q # qs) =
     (if pp_offset q = pp_offset piece then (Some q, piece # qs)
      else if pp_offset piece < pp_offset q then (None, piece # q # qs)
      else (let (replaced, qs') = place_piece piece qs in (replaced, q # qs')))"

definition content_insert_piece ::
  "content_ref \<Rightarrow> projected_piece \<Rightarrow> change_seq \<Rightarrow> projected_content
    \<Rightarrow> projected_piece option \<times> projected_content" where
  "content_insert_piece content piece committed_seq c =
     (let c = (if ct_size_bytes content > ct_size_bytes (pc_content_ref c)
               then c \<lparr> pc_content_ref := content, pc_committed_seq := committed_seq \<rparr> else c);
          (replaced, pieces) = place_piece piece (pc_pieces c)
      in (replaced, c \<lparr> pc_pieces := pieces \<rparr>))"

definition content_combine :: "projected_content \<Rightarrow> projected_content \<Rightarrow> projected_content" where
  "content_combine c later =
     fold (\<lambda>piece c. snd (content_insert_piece (pc_content_ref later) piece
                           (pc_committed_seq later) c)) (pc_pieces later) c"

text \<open>
  Each inline entry with the largest reference to its content in the same commit.  A
  commit without one is refused before replay; the panic there is \<open>None\<close>.
\<close>

fun revision_content :: "wal_delta \<Rightarrow> content_ref option" where
  "revision_content (AppendFileRevision _ _ _ _ _ _ _ _ _ content _ _) = Some content"
| "revision_content _ = None"

definition entry_content_ref :: "wal_commit_payload \<Rightarrow> wal_inline_content \<Rightarrow> content_ref option" where
  "entry_content_ref payload entry =
     max_by_key ct_size_bytes
       (filter (\<lambda>content. ct_content_id content = ic_content_id entry)
          (List.map_filter (\<lambda>d. revision_content (wd_delta d)) (wc_deltas payload)))"

fun inline_content_refs_loop ::
  "wal_commit_payload \<Rightarrow> wal_inline_content list \<Rightarrow> (content_ref \<times> wal_inline_content) list option" where
  "inline_content_refs_loop payload [] = Some []"
| "inline_content_refs_loop payload (entry # entries) =
     (case entry_content_ref payload entry of
        None \<Rightarrow> None
      | Some content \<Rightarrow>
          map_option (\<lambda>rest. (content, entry) # rest) (inline_content_refs_loop payload entries))"

definition inline_content_refs ::
  "wal_commit_payload \<Rightarrow> (content_ref \<times> wal_inline_content) list option" where
  "inline_content_refs payload = inline_content_refs_loop payload (wc_inline_content payload)"

section \<open>Chunks and tails\<close>

record tail_chunk =
  tc_first_seq :: change_seq
  tc_rows :: metadata_state
  tc_activity :: manifest_activity
  tc_contents :: "projected_content list"
  tc_content_positions :: "content_id \<rightharpoonup> nat"
  tc_inline_bytes :: u64
  tc_wal_bytes :: u64

record projected_wal_tail =
  wt_chunks :: "tail_chunk list"
  wt_activity :: manifest_activity
  wt_inline_bytes :: u64
  wt_wal_bytes :: u64

definition zero_activity :: manifest_activity where
  "zero_activity = \<lparr> ma_content_bytes = 0, ma_file_revisions = 0, ma_mutations = 0 \<rparr>"

definition default_tail :: projected_wal_tail where
  "default_tail =
     \<lparr> wt_chunks = [], wt_activity = zero_activity, wt_inline_bytes = 0, wt_wal_bytes = 0 \<rparr>"

definition tail_chunk_new :: "change_seq \<Rightarrow> metadata_state \<Rightarrow> tail_chunk" where
  "tail_chunk_new first_seq rows =
     \<lparr> tc_first_seq = first_seq, tc_rows = rows, tc_activity = zero_activity, tc_contents = [],
       tc_content_positions = Map.empty, tc_inline_bytes = 0, tc_wal_bytes = 0 \<rparr>"

definition chunk_insert_piece ::
  "content_ref \<Rightarrow> wal_inline_content \<Rightarrow> change_seq \<Rightarrow> tail_chunk \<Rightarrow> tail_chunk" where
  "chunk_insert_piece content entry committed_seq chunk =
     (let (position, chunk) =
            (case tc_content_positions chunk (ct_content_id content) of
               Some position \<Rightarrow> (position, chunk)
             | None \<Rightarrow>
                 (length (tc_contents chunk),
                  chunk \<lparr> tc_content_positions := (tc_content_positions chunk)
                            (ct_content_id content \<mapsto> length (tc_contents chunk)),
                          tc_contents := tc_contents chunk
                            @ [projected_content_new content committed_seq] \<rparr>));
          piece = \<lparr> pp_offset = ic_offset entry, pp_bytes = ic_bytes entry \<rparr>;
          (replaced, c) =
            content_insert_piece content piece committed_seq (tc_contents chunk ! position);
          added = tc_inline_bytes chunk + of_nat (length (ic_bytes entry))
      in chunk \<lparr> tc_contents := (tc_contents chunk)[position := c],
                 tc_inline_bytes :=
                   (case replaced of
                      Some q \<Rightarrow> added - of_nat (length (pp_bytes q))
                    | None \<Rightarrow> added) \<rparr>)"

text \<open>One step of \<open>TailChunk::from_records\<close>: the pieces, then the rows.  The panic of a
  commit whose inline entry has no reference is \<open>None\<close>.\<close>

definition chunk_apply_record ::
  "wal_commit_payload \<Rightarrow> tail_chunk \<Rightarrow> (wal_object_error, tail_chunk) result option" where
  "chunk_apply_record payload chunk =
     (case Option.bind (committed_activity payload) (activity_checked_add (tc_activity chunk)) of
        None \<Rightarrow> Some (Inl ActivityOverflow)
      | Some activity \<Rightarrow>
          map_option (\<lambda>refs.
            let chunk = fold (\<lambda>(content, entry).
                           chunk_insert_piece content entry (wc_committed_seq payload)) refs chunk
            in Inr (chunk \<lparr> tc_rows := apply_committed_wal_record payload (tc_rows chunk),
                            tc_activity := activity \<rparr>))
            (inline_content_refs payload))"

fun chunk_apply_records ::
  "wal_commit_payload list \<Rightarrow> tail_chunk \<Rightarrow> (wal_object_error, tail_chunk) result option" where
  "chunk_apply_records [] chunk = Some (Inr chunk)"
| "chunk_apply_records (payload # payloads) chunk =
     (case chunk_apply_record payload chunk of
        None \<Rightarrow> None
      | Some (Inl e) \<Rightarrow> Some (Inl e)
      | Some (Inr chunk) \<Rightarrow> chunk_apply_records payloads chunk)"

definition chunk_from_records ::
  "wal_commit_payload list \<Rightarrow> u64 \<Rightarrow> (wal_object_error, tail_chunk) result option" where
  "chunk_from_records payloads wal_bytes =
     chunk_apply_records payloads
       ((tail_chunk_new (wc_committed_seq (hd payloads)) default_state) \<lparr> tc_wal_bytes := wal_bytes \<rparr>)"

definition push_chunk ::
  "tail_chunk \<Rightarrow> projected_wal_tail \<Rightarrow> (wal_object_error, projected_wal_tail) result" where
  "push_chunk chunk tail =
     rbind (ok_or ActivityOverflow (activity_checked_add (wt_activity tail) (tc_activity chunk)))
       (\<lambda>activity.
         Inr \<lparr> wt_chunks = wt_chunks tail @ [chunk], wt_activity = activity,
               wt_inline_bytes = wt_inline_bytes tail + tc_inline_bytes chunk,
               wt_wal_bytes = wt_wal_bytes tail + tc_wal_bytes chunk \<rparr>)"

definition push_object ::
  "wal_commit_payload list \<Rightarrow> u64 \<Rightarrow> projected_wal_tail
    \<Rightarrow> (wal_object_error, projected_wal_tail) result option" where
  "push_object payloads wal_bytes tail =
     (if payloads = [] then Some (Inr tail)
      else case chunk_from_records payloads wal_bytes of
             None \<Rightarrow> None
           | Some (Inl e) \<Rightarrow> Some (Inl e)
           | Some (Inr chunk) \<Rightarrow> Some (push_chunk chunk tail))"

definition tail_from_rows :: "metadata_state \<Rightarrow> projected_wal_tail" where
  "tail_from_rows rows = default_tail \<lparr> wt_chunks := [tail_chunk_new 0 rows] \<rparr>"

text \<open>The rows of the chunks a view at a sequence can see, newest first.\<close>

definition tail_row_states :: "projected_wal_tail \<Rightarrow> change_seq \<Rightarrow> metadata_state list" where
  "tail_row_states tail visible_seq =
     map tc_rows (filter (\<lambda>chunk. tc_first_seq chunk \<le> visible_seq) (rev (wt_chunks tail)))"

definition tail_combined_rows :: "projected_wal_tail \<Rightarrow> metadata_state" where
  "tail_combined_rows tail =
     (let rows = map tc_rows (wt_chunks tail)
      in from_rows (concat (map ms_inodes rows)) (concat (map ms_direntry_binds rows))
           (concat (map ms_revisions rows)) (concat (map ms_subtree_tombstones rows))
           (concat (map ms_commit_receipts rows)) (concat (map ms_commits rows))
           (concat (map ms_attributes_revisions rows)) (concat (map ms_content_layouts rows))
           (concat (map ms_access_revisions rows)))"

definition tail_find_commit_receipt ::
  "projected_wal_tail \<Rightarrow> commit_id \<Rightarrow> commit_receipt_record option" where
  "tail_find_commit_receipt tail commit_id =
     find_map (\<lambda>chunk. ix_commit_receipt_by_id (ms_indexes (tc_rows chunk)) commit_id)
       (rev (wt_chunks tail))"

text \<open>The contents with pieces, combined over the chunks, in the order of first mention.\<close>

fun combine_contents :: "projected_content list \<Rightarrow> projected_content list \<Rightarrow> projected_content list" where
  "combine_contents acc [] = acc"
| "combine_contents acc (c # cs) =
     (let same = (\<lambda>d. ct_content_id (pc_content_ref d) = ct_content_id (pc_content_ref c))
      in if list_ex same acc
         then combine_contents (map (\<lambda>d. if same d then content_combine d c else d) acc) cs
         else combine_contents (acc @ [c]) cs)"

definition tail_contents :: "projected_wal_tail \<Rightarrow> projected_content list" where
  "tail_contents tail = combine_contents [] (concat (map tc_contents (wt_chunks tail)))"

text \<open>Replay of a validated tail: one push per object.\<close>

fun project_wal_tail ::
  "projected_wal_tail \<Rightarrow> (wal_object_payload \<times> u64) list
    \<Rightarrow> (wal_object_error, projected_wal_tail) result option" where
  "project_wal_tail tail [] = Some (Inr tail)"
| "project_wal_tail tail ((object, stored_bytes) # objects) =
     (case push_object (wo_records object) stored_bytes tail of
        None \<Rightarrow> None
      | Some (Inl e) \<Rightarrow> Some (Inl e)
      | Some (Inr tail) \<Rightarrow> project_wal_tail tail objects)"

section \<open>Contiguity\<close>

lemma check_contiguous_Inr:
  "check_contiguous first offset payloads = Inr () \<Longrightarrow> i < length payloads
    \<Longrightarrow> unat offset + length payloads < 2 ^ 64
    \<Longrightarrow> unat (wc_committed_seq (payloads ! i)) = unat first + unat offset + i"
proof (induction payloads arbitrary: offset i)
  case Nil
  then show ?case by simp
next
  case (Cons payload payloads)
  from Cons.prems(1) have expected: "checked_add first offset = Some (wc_committed_seq payload)"
    and rest: "check_contiguous first (offset + 1) payloads = Inr ()"
    by (auto split: option.splits)
  have one: "unat (offset + 1) = unat offset + 1"
    using Cons.prems(3) unat_add_lem [of offset 1] by (simp only: unat_1 list.size) simp
  show ?case
  proof (cases i)
    case 0
    with checked_add_Some [OF expected] show ?thesis by (simp only: nth_Cons_0 add_0_right)
  next
    case (Suc j)
    with Cons.IH [OF rest, of j] Cons.prems(2,3) one show ?thesis by simp
  qed
qed

lemma validate_object_contiguous:
  assumes "validate_wal_object_for_replay prior payload = Inr ()"
    and "i < length (wo_records payload)" and "length (wo_records payload) < 2 ^ 64"
  shows "unat (wc_committed_seq (wo_records payload ! i)) = unat prior + 1 + i"
    and "unat (wo_head_seq payload) = unat prior + length (wo_records payload)"
proof -
  have ne: "wo_records payload \<noteq> []" using assms(2) by auto
  with assms(1) obtain first where first: "successor prior = Inr first"
    and head: "wc_committed_seq (last (wo_records payload)) = wo_head_seq payload"
    and check: "check_contiguous first 0 (wo_records payload) = Inr ()"
    by (auto simp: validate_wal_object_for_replay_def)
  from first have "unat first = unat prior + 1"
    by (simp add: successor_def next_public_ordinal_Some(2))
  then have seqs: "unat (wc_committed_seq (wo_records payload ! j)) = unat prior + 1 + j"
    if "j < length (wo_records payload)" for j
    using check_contiguous_Inr [OF check that] assms(3) by simp
  show "unat (wc_committed_seq (wo_records payload ! i)) = unat prior + 1 + i"
    using assms(2) by (rule seqs)
  show "unat (wo_head_seq payload) = unat prior + length (wo_records payload)"
    using seqs [of "length (wo_records payload) - 1"] ne
    by (simp add: head [symmetric] last_conv_nth)
qed

section \<open>Replay\<close>

text \<open>A record's rows do not depend on the state they are appended to.\<close>

lemma default_state_sel [simp]:
  shows "ms_inodes default_state = []"
    and "ms_direntry_binds default_state = []"
    and "ms_revisions default_state = []"
    and "ms_subtree_tombstones default_state = []"
    and "ms_commit_receipts default_state = []"
    and "ms_commits default_state = []"
    and "ms_content_layouts default_state = []"
    and "ms_attributes_revisions default_state = []"
    and "ms_access_revisions default_state = []"
  by (simp_all add: default_state_def from_rows_def rebuild_indexes_def Let_def)

lemma apply_delta_rows:
  shows "ms_inodes (apply_committed_wal_delta seq cid actor ms d st) =
      ms_inodes st @ ms_inodes (apply_committed_wal_delta seq cid actor ms d default_state)"
    and "ms_direntry_binds (apply_committed_wal_delta seq cid actor ms d st) =
      ms_direntry_binds st @ ms_direntry_binds (apply_committed_wal_delta seq cid actor ms d default_state)"
    and "ms_revisions (apply_committed_wal_delta seq cid actor ms d st) =
      ms_revisions st @ ms_revisions (apply_committed_wal_delta seq cid actor ms d default_state)"
    and "ms_subtree_tombstones (apply_committed_wal_delta seq cid actor ms d st) =
      ms_subtree_tombstones st @ ms_subtree_tombstones (apply_committed_wal_delta seq cid actor ms d default_state)"
    and "ms_commit_receipts (apply_committed_wal_delta seq cid actor ms d st) =
      ms_commit_receipts st @ ms_commit_receipts (apply_committed_wal_delta seq cid actor ms d default_state)"
    and "ms_commits (apply_committed_wal_delta seq cid actor ms d st) =
      ms_commits st @ ms_commits (apply_committed_wal_delta seq cid actor ms d default_state)"
    and "ms_content_layouts (apply_committed_wal_delta seq cid actor ms d st) =
      ms_content_layouts st @ ms_content_layouts (apply_committed_wal_delta seq cid actor ms d default_state)"
    and "ms_attributes_revisions (apply_committed_wal_delta seq cid actor ms d st) =
      ms_attributes_revisions st @ ms_attributes_revisions (apply_committed_wal_delta seq cid actor ms d default_state)"
    and "ms_access_revisions (apply_committed_wal_delta seq cid actor ms d st) =
      ms_access_revisions st @ ms_access_revisions (apply_committed_wal_delta seq cid actor ms d default_state)"
  by (cases d; simp add: Let_def split: option.splits)+

lemma fold_rows_append:
  assumes "\<And>d st. sel (app d st) = sel st @ sel (app d e)" and "sel e = []"
  shows "sel (fold app ds st) = sel st @ sel (fold app ds e)"
proof (induction ds arbitrary: st)
  case Nil
  then show ?case by (simp add: assms(2))
next
  case (Cons d ds)
  have "sel (fold app (d # ds) st) = sel (app d st) @ sel (fold app ds e)"
    by (simp add: Cons.IH [of "app d st"])
  also have "\<dots> = sel st @ sel (app d e) @ sel (fold app ds e)"
    by (simp add: assms(1) [of d st])
  also have "sel (app d e) @ sel (fold app ds e) = sel (fold app (d # ds) e)"
    by (simp add: Cons.IH [of "app d e"])
  finally show ?case .
qed

text \<open>A selector of rows: what a record appends to its list is the same for every state.\<close>

definition row_selector :: "(metadata_state \<Rightarrow> 'a list) \<Rightarrow> bool" where
  "row_selector sel \<longleftrightarrow>
     sel default_state = [] \<and>
     (\<forall>payload st. sel (apply_committed_wal_record payload st) =
        sel st @ sel (apply_committed_wal_record payload default_state))"

lemma row_selectorI:
  assumes empty: "sel default_state = []"
    and delta: "\<And>seq cid actor ms d st. sel (apply_committed_wal_delta seq cid actor ms d st) =
      sel st @ sel (apply_committed_wal_delta seq cid actor ms d default_state)"
    and finish: "\<And>receipt commit st. sel (push_commit_receipt_record receipt (push_commit_record commit st)) =
      sel st @ sel (push_commit_receipt_record receipt (push_commit_record commit default_state))"
  shows "row_selector sel"
proof -
  have "sel (apply_committed_wal_record payload st) =
      sel st @ sel (apply_committed_wal_record payload default_state)" for payload st
  proof -
    let ?app = "\<lambda>d. apply_committed_wal_delta (wc_committed_seq payload) (wc_commit_id payload)
      (wc_committed_by payload) (wc_committed_at_ms payload) (wd_delta d)"
    have rows: "sel (fold ?app (wc_deltas payload) st) = sel st @ sel (fold ?app (wc_deltas payload) default_state)"
      by (rule fold_rows_append [OF delta empty])
    show ?thesis
      unfolding apply_committed_wal_record_def Let_def
        finish [of _ _ "fold ?app (wc_deltas payload) st"]
        finish [of _ _ "fold ?app (wc_deltas payload) default_state"] rows
      by simp
  qed
  with empty show ?thesis unfolding row_selector_def by blast
qed

lemma row_selectors:
  shows "row_selector ms_inodes" and "row_selector ms_direntry_binds" and "row_selector ms_revisions"
    and "row_selector ms_subtree_tombstones" and "row_selector ms_commit_receipts"
    and "row_selector ms_commits" and "row_selector ms_content_layouts"
    and "row_selector ms_attributes_revisions" and "row_selector ms_access_revisions"
  by (rule row_selectorI; (rule apply_delta_rows | simp))+

text \<open>Two states hold the same rows, in the same order.\<close>

definition same_rows :: "metadata_state \<Rightarrow> metadata_state \<Rightarrow> bool" where
  "same_rows st st' \<longleftrightarrow>
     ms_inodes st = ms_inodes st' \<and>
     ms_direntry_binds st = ms_direntry_binds st' \<and>
     ms_revisions st = ms_revisions st' \<and>
     ms_subtree_tombstones st = ms_subtree_tombstones st' \<and>
     ms_commit_receipts st = ms_commit_receipts st' \<and>
     ms_commits st = ms_commits st' \<and>
     ms_content_layouts st = ms_content_layouts st' \<and>
     ms_attributes_revisions st = ms_attributes_revisions st' \<and>
     ms_access_revisions st = ms_access_revisions st'"

abbreviation replay :: "wal_commit_payload list \<Rightarrow> metadata_state" where
  "replay payloads \<equiv> fold apply_committed_wal_record payloads default_state"

lemma replay_append:
  assumes "row_selector sel"
  shows "sel (replay (rs @ qs)) = sel (replay rs) @ sel (replay qs)"
  unfolding fold_append comp_def
  by (rule fold_rows_append) (use assms in \<open>unfold row_selector_def, blast\<close>)+

lemma tc_rows_insert_piece [simp]:
  "tc_rows (chunk_insert_piece content entry s chunk) = tc_rows chunk"
  "tc_first_seq (chunk_insert_piece content entry s chunk) = tc_first_seq chunk"
  by (simp_all add: chunk_insert_piece_def Let_def split: option.splits prod.splits)

lemma fold_insert_piece_rows:
  "tc_rows (fold (\<lambda>(content, entry). chunk_insert_piece content entry s) refs chunk) = tc_rows chunk"
  "tc_first_seq (fold (\<lambda>(content, entry). chunk_insert_piece content entry s) refs chunk) =
     tc_first_seq chunk"
  by (induction refs arbitrary: chunk) (simp_all add: split_beta)

lemma chunk_apply_records_rows:
  "chunk_apply_records payloads chunk = Some (Inr chunk') \<Longrightarrow>
    tc_rows chunk' = fold apply_committed_wal_record payloads (tc_rows chunk) \<and>
    tc_first_seq chunk' = tc_first_seq chunk"
proof (induction payloads arbitrary: chunk)
  case Nil
  then show ?case by simp
next
  case (Cons payload payloads)
  from Cons.prems obtain mid where mid: "chunk_apply_record payload chunk = Some (Inr mid)"
    and rest: "chunk_apply_records payloads mid = Some (Inr chunk')"
    by (auto split: option.splits sum.splits)
  from mid have "tc_rows mid = apply_committed_wal_record payload (tc_rows chunk)"
    "tc_first_seq mid = tc_first_seq chunk"
    by (auto simp: chunk_apply_record_def Let_def fold_insert_piece_rows split: option.splits)
  with Cons.IH [OF rest] show ?case by simp
qed

lemma chunk_from_records_rows:
  "chunk_from_records payloads b = Some (Inr chunk) \<Longrightarrow>
    tc_rows chunk = replay payloads \<and> tc_first_seq chunk = wc_committed_seq (hd payloads)"
  unfolding chunk_from_records_def
  by (drule chunk_apply_records_rows) (simp add: tail_chunk_new_def)

lemma push_object_rows:
  assumes "push_object payloads b tail = Some (Inr tail')"
  shows "map tc_rows (wt_chunks tail') =
    map tc_rows (wt_chunks tail) @ (if payloads = [] then [] else [replay payloads])"
  using assms
  by (auto simp: push_object_def push_chunk_def dest: chunk_from_records_rows
        split: if_splits option.splits sum.splits)

lemma project_wal_tail_rows:
  "project_wal_tail tail objects = Some (Inr tail') \<Longrightarrow>
    map tc_rows (wt_chunks tail') = map tc_rows (wt_chunks tail) @
      map replay (filter (\<lambda>payloads. payloads \<noteq> []) (map (wo_records \<circ> fst) objects))"
proof (induction tail objects rule: project_wal_tail.induct)
  case (1 tail)
  then show ?case by simp
next
  case (2 tail object stored_bytes objects)
  from 2(2) obtain mid where mid: "push_object (wo_records object) stored_bytes tail = Some (Inr mid)"
    and rest: "project_wal_tail mid objects = Some (Inr tail')"
    by (auto split: option.splits sum.splits)
  from 2(1) [OF mid refl rest] push_object_rows [OF mid] show ?case by simp
qed

lemma concat_replay:
  assumes "row_selector sel"
  shows "concat (map sel (map replay (filter (\<lambda>ps. ps \<noteq> []) pss))) = sel (replay (concat pss))"
proof (induction pss)
  case Nil
  have "sel default_state = []" using assms unfolding row_selector_def by blast
  then show ?case by simp
next
  case (Cons ps pss)
  then show ?case
    by (cases "ps = []") (simp_all add: replay_append [OF assms, of ps] del: fold_append)
qed

lemma from_rows_sel [simp]:
  shows "ms_inodes (from_rows a b c d e f g h i) = a"
    and "ms_direntry_binds (from_rows a b c d e f g h i) = b"
    and "ms_revisions (from_rows a b c d e f g h i) = c"
    and "ms_subtree_tombstones (from_rows a b c d e f g h i) = d"
    and "ms_commit_receipts (from_rows a b c d e f g h i) = e"
    and "ms_commits (from_rows a b c d e f g h i) = f"
    and "ms_attributes_revisions (from_rows a b c d e f g h i) = g"
    and "ms_content_layouts (from_rows a b c d e f g h i) = h"
    and "ms_access_revisions (from_rows a b c d e f g h i) = i"
  by (simp_all add: from_rows_def rebuild_indexes_def Let_def)

lemma replay_combines:
  assumes "project_wal_tail default_tail objects = Some (Inr tail)"
  shows "same_rows (tail_combined_rows tail) (replay (concat (map (wo_records \<circ> fst) objects)))"
proof -
  have rows: "map tc_rows (wt_chunks tail) =
      map replay (filter (\<lambda>ps. ps \<noteq> []) (map (wo_records \<circ> fst) objects))"
    using project_wal_tail_rows [OF assms] by (simp add: default_tail_def)
  show ?thesis
    unfolding same_rows_def tail_combined_rows_def Let_def rows from_rows_sel row_selectors [THEN concat_replay]
    by (intro conjI refl)
qed

section \<open>Pieces stay in order\<close>

abbreviation pieces_sorted :: "projected_piece list \<Rightarrow> bool" where
  "pieces_sorted \<equiv> increasing pp_offset"

lemma place_piece_set:
  "pieces_sorted ps \<Longrightarrow> set (snd (place_piece p ps)) = insert p {q \<in> set ps. pp_offset q \<noteq> pp_offset p}"
  by (induction ps) (auto simp: split_beta)

lemma place_piece_sorted: "pieces_sorted ps \<Longrightarrow> pieces_sorted (snd (place_piece p ps))"
proof (induction ps)
  case (Cons q ps)
  then show ?case by (auto simp: split_beta place_piece_set)
qed simp

lemma place_piece_replaced:
  "pieces_sorted ps \<Longrightarrow> fst (place_piece p ps) = find (\<lambda>q. pp_offset q = pp_offset p) ps"
proof (induction ps)
  case (Cons q ps)
  have "find (\<lambda>x. pp_offset x = pp_offset p) ps = None" if "pp_offset p < pp_offset q"
    unfolding find_None_iff using Cons.prems that by (auto dest: less_trans)
  with Cons show ?case by (auto simp: split_beta)
qed simp

end
