(* ===== verification/Core_Error.thy ===== *)
theory Core_Error
  imports Visibility
begin

text \<open>
  The errors of commit validation (\<open>loonfs-core/src/commit/validate/error.rs\<close>) and the
  variants of \<open>CoreError\<close> (\<open>loonfs-core/src/error.rs\<close>) that the modelled reads, planners
  and validators return, with the codes they map to.  Formatted messages are kept as the
  values they are formatted from.
\<close>

datatype commit_operand =
    CreateParent
  | RenameSource
  | RenameTargetParent
  | ReplaceTarget
  | RestoreTarget
  | DeleteTarget
  | SubtreeRoot
  | AttributeTarget
  | AccessTarget
  | UndeleteTarget
  | EmptyDirectoryTarget

text \<open>What a binding precondition names: a name under a parent, or a path.\<close>

datatype binding_target =
    NameUnderParent name_key inode_id
  | AtPath string

datatype commit_validation_error =
    InodeMissing commit_operand inode_id
  | InodeWrongKind commit_operand inode_id inode_kind inode_kind
  | NameTaken commit_operand inode_id name_key inode_id
  | TargetUnderSubtreeTombstone commit_operand inode_id inode_id change_seq
  | BaseRevisionMismatch inode_id revision_no "revision_no option"
  | BindingPreconditionMissing inode_id name_key
  | BindingPreconditionMismatch binding_target "inode_id option" "inode_id option"
  | DirectoryNotEmpty inode_id
  | RestoreRevisionSourceRevisionMissing inode_id revision_no
  | RenameWouldCycleDirectory inode_id inode_id
  | UndeleteTargetNotDeleted inode_id
  | UndeleteTargetsCurrentCommit inode_id
  | UndeleteSequenceMismatch inode_id change_seq change_seq
  | RevisionOverflow inode_id revision_no
  | UpdateAttributesBaseRevisionMismatch inode_id attributes_revision_no
      "attributes_revision_no option"
  | UpdateAttributesRevisionOverflow inode_id attributes_revision_no
  | UpdateAccessBaseRevisionMismatch inode_id access_revision_no "access_revision_no option"
  | UpdateAccessRevisionOverflow inode_id access_revision_no
  | OperationIndexOverflow
  | DeltaIndexOverflow

datatype error_code =
    StaleRevision
  | RevisionNotFound
  | NamespaceCorruptCode
  | StaleAttributes
  | StaleAccess
  | ServerError
  | PathConflict
  | DirectoryNotEmptyCode
  | PathNotFoundCode
  | NotDeleted
  | WouldCycle

fun commit_error_code :: "commit_validation_error \<Rightarrow> error_code" where
  "commit_error_code (BaseRevisionMismatch _ _ _) = StaleRevision"
| "commit_error_code (RestoreRevisionSourceRevisionMissing _ _) = RevisionNotFound"
| "commit_error_code (TargetUnderSubtreeTombstone _ _ _ _) = NamespaceCorruptCode"
| "commit_error_code (UpdateAttributesBaseRevisionMismatch _ _ _) = StaleAttributes"
| "commit_error_code (UpdateAttributesRevisionOverflow _ _) = ServerError"
| "commit_error_code (UpdateAccessBaseRevisionMismatch _ _ _) = StaleAccess"
| "commit_error_code (UpdateAccessRevisionOverflow _ _) = ServerError"
| "commit_error_code (NameTaken _ _ _ _) = PathConflict"
| "commit_error_code (InodeWrongKind _ _ _ _) = PathConflict"
| "commit_error_code (BindingPreconditionMissing _ _) = PathConflict"
| "commit_error_code (BindingPreconditionMismatch _ _ _) = PathConflict"
| "commit_error_code (DirectoryNotEmpty _) = DirectoryNotEmptyCode"
| "commit_error_code (InodeMissing _ _) = PathNotFoundCode"
| "commit_error_code (UndeleteTargetNotDeleted _) = NotDeleted"
| "commit_error_code (UndeleteTargetsCurrentCommit _) = NotDeleted"
| "commit_error_code (UndeleteSequenceMismatch _ _ _) = NotDeleted"
| "commit_error_code (RenameWouldCycleDirectory _ _) = WouldCycle"
| "commit_error_code (RevisionOverflow _ _) = ServerError"
| "commit_error_code OperationIndexOverflow = ServerError"
| "commit_error_code DeltaIndexOverflow = ServerError"

fun visible_path_error_code :: "visible_path_error \<Rightarrow> error_code" where
  "visible_path_error_code RootMissing = NamespaceCorruptCode"
| "visible_path_error_code (ParentBindingCycle _) = NamespaceCorruptCode"
| "visible_path_error_code (PathNotFound _) = PathNotFoundCode"
| "visible_path_error_code (PathComponentNotDirectory _ _ _) = PathConflict"

text \<open>The corruptions that reads, planning, validation and compaction report, with the values of
  their messages.\<close>

datatype corruption =
    BindsBoundInode inode_id name_key inode_id
  | FileHasNoRevision inode_id
  | HeadAtLargestSequence change_seq
  | ContentTooLargeToAppend content_id u64 nat
  | ContentChecksumAlgorithm content_id checksum_algorithm checksum_algorithm
  | ContentChecksumInvalid content_id
  | RepeatedStateRevision inode_id metadata_row_family u64
  | SlotBoundTwice inode_id name_key inode_id inode_id
  | ChildBoundTwice inode_id name_key inode_id name_key inode_id
  | DuplicateRowKey metadata_row_family string
  | RowKeyBackwards metadata_row_family string string
  | IndexDisagrees metadata_family_group u64 u128 u64 u128
  | MissingInputRun u64
  | RevisionSegmentsOverfull namespace_id

text \<open>What makes a commit request invalid.\<close>

datatype attributes_error = TooManyAttributes nat | AttributesTooLarge nat

datatype request_problem =
    ContentNotPrepared
  | MergeCreatesUnassigned
  | MergeAssignsUnused inode_id
  | MergeCreatesExisting inode_id
  | AdminOutsideRoot
  | BoundaryOnFile
  | NoAttributeChange
  | AttributeRemovedTwice string
  | AttributeSetAndRemoved string
  | AttributeReserved string
  | AttributesInvalid attributes_error

datatype destination_precondition_error =
    PreconditionsRequireReplace string
  | RevisionRequiresInode string string

datatype field_problem =
    BadDestinationPrecondition destination_precondition_error
  | BadBindingVersion

text \<open>The positions in the history that a retention floor can refuse.\<close>

datatype history_position =
    FeedCursor change_seq
  | DiffStart change_seq
  | ReadSeq change_seq
  | ForkPoint change_seq
  | RangeStart namespace_id change_seq

text \<open>
  \<open>Store\<close> stands for a failed read of the object store, with the object's key and the
  message; \<open>Panicked\<close> for a panic (a failed \<open>expect\<close>) with its message, which is not a
  variant of the source.  The other variants of \<open>CoreError\<close> belong to code that is not
  modelled.
\<close>

datatype core_error =
    VisiblePath visible_path_error
  | CorePathNotFound string
  | CommitValidation commit_validation_error
  | NamespaceCorrupt corruption
  | Store string string
  | InvalidPath string
  | InvalidCommitRequest request_problem
  | InvalidCommitField string field_problem
  | InodeNotFound inode_id
  | ExpectedFile string inode_kind
  | ExpectedDirectory string inode_kind
  | RootMutationForbidden
  | DestinationExists string "string option"
  | BindingVersionMismatch inode_id string "string option"
  | MergeRangeConflict namespace_id change_seq change_seq
  | RebootstrapRequired history_position change_seq
  | NamespaceUnrestricted namespace_id
  | SubjectRequired namespace_id
  | PrincipalScopeMismatch string string
  | Forbidden inode_id
  | StaleHeadPrecondition change_seq change_seq
  | FailedOperation u32 core_error
  | FailedPrecondition u32 core_error
  | Panicked string

definition at_operation :: "nat \<Rightarrow> core_error \<Rightarrow> core_error" where
  "at_operation index e = (if int index < 4294967296 then FailedOperation (word_of_nat index) e else e)"

definition at_precondition :: "nat \<Rightarrow> core_error \<Rightarrow> core_error" where
  "at_precondition index e = (if int index < 4294967296 then FailedPrecondition (word_of_nat index) e else e)"

fun core_from_visible_path :: "visible_path_error \<Rightarrow> core_error" where
  "core_from_visible_path (PathNotFound absolute_path) = CorePathNotFound absolute_path"
| "core_from_visible_path e = VisiblePath e"

end
