(* ===== verification/Metadata_View.thy ===== *)
theory Metadata_View
  imports State_Reads Wal_Tail Core_Error
begin

text \<open>
  \<open>MetadataView\<close> of \<open>loonfs-core/src/metadata/view.rs\<close>, \<open>view_bindings.rs\<close> and
  \<open>view_revisions.rs\<close>: lookups at one sequence over the manifest's segments, the chunks of
  the write-ahead-log tail, the rows of a batch's accepted commits and the rows of the
  commit being validated.  The manifest's lookups read segments of the object store; they
  are a record of functions whose answers \<open>manifest_ok\<close> relates to the manifest's rows.
  The view's lookups then answer as a scan of all the rows would, which makes the view a
  provider of the visibility rules.  The durable cache, a memo of the durable part of a
  lookup, is left out: the modelled views have none.
\<close>

section \<open>The sources of a view\<close>

record metadata_manifest =
  mf_retention_floor_seq :: change_seq
  mf_head_seq :: change_seq
  mf_inode_at_seq :: "inode_id \<Rightarrow> change_seq \<Rightarrow> (core_error, inode_record option) result"
  mf_direntry_binds_for_parent_name ::
    "inode_id \<Rightarrow> name_key \<Rightarrow> change_seq \<Rightarrow> (core_error, direntry_binding_record list) result"
  mf_direntry_binds_for_child ::
    "inode_id \<Rightarrow> change_seq \<Rightarrow> (core_error, direntry_binding_record list) result"
  mf_newest_tombstone_for_root ::
    "inode_id \<Rightarrow> change_seq \<Rightarrow> (core_error, subtree_tombstone_record option) result"
  mf_latest_revision_by_inode ::
    "inode_id \<Rightarrow> change_seq \<Rightarrow> (core_error, revision_record option) result"
  mf_revision_by_inode_no ::
    "inode_id \<Rightarrow> revision_no \<Rightarrow> change_seq \<Rightarrow> (core_error, revision_record option) result"
  mf_attributes_by_inode ::
    "inode_id \<Rightarrow> change_seq \<Rightarrow> (core_error, attributes_revision_record option) result"
  mf_access_by_inode ::
    "inode_id \<Rightarrow> change_seq \<Rightarrow> (core_error, access_revision_record option) result"
  mf_commit_receipt ::
    "commit_id \<Rightarrow> change_seq \<Rightarrow> (core_error, commit_receipt_record option) result"
  mf_newest_merge ::
    "namespace_id \<Rightarrow> change_seq \<Rightarrow> (core_error, merge_index_record option) result"
  mf_commit_at_seq :: "change_seq \<Rightarrow> (core_error, wal_commit_payload option) result"
  mf_content_layout :: "content_id \<Rightarrow> (core_error, content_layout_record option) result"

record metadata_view =
  mv_visible_seq :: change_seq
  mv_overlay :: "metadata_state option"
  mv_batch_accepted :: "metadata_state option"
  mv_wal_tail :: "projected_wal_tail option"
  mv_manifest :: metadata_manifest

definition over_loaded_basis ::
  "metadata_manifest \<Rightarrow> projected_wal_tail \<Rightarrow> change_seq \<Rightarrow> metadata_view" where
  "over_loaded_basis manifest tail visible_seq =
     \<lparr> mv_visible_seq = visible_seq, mv_overlay = None, mv_batch_accepted = None,
       mv_wal_tail = Some tail, mv_manifest = manifest \<rparr>"

definition over_manifest_segments :: "metadata_manifest \<Rightarrow> change_seq \<Rightarrow> metadata_view" where
  "over_manifest_segments manifest folded_head_seq =
     \<lparr> mv_visible_seq = folded_head_seq, mv_overlay = None, mv_batch_accepted = None,
       mv_wal_tail = None, mv_manifest = manifest \<rparr>"

definition with_overlay ::
  "metadata_view \<Rightarrow> metadata_state option \<Rightarrow> metadata_state \<Rightarrow> change_seq \<Rightarrow> metadata_view" where
  "with_overlay view overlay batch_accepted visible_seq =
     \<lparr> mv_visible_seq = visible_seq, mv_overlay = overlay, mv_batch_accepted = Some batch_accepted,
       mv_wal_tail = mv_wal_tail view, mv_manifest = mv_manifest view \<rparr>"

text \<open>The view at an earlier sequence; callers never ask for a later one.\<close>

definition view_at_seq :: "metadata_view \<Rightarrow> change_seq \<Rightarrow> metadata_view" where
  "view_at_seq view visible_seq = view \<lparr> mv_visible_seq := visible_seq \<rparr>"

definition view_retention_floor_seq :: "metadata_view \<Rightarrow> change_seq" where
  "view_retention_floor_seq view = mf_retention_floor_seq (mv_manifest view)"

definition overlay_states :: "metadata_view \<Rightarrow> metadata_state list" where
  "overlay_states view = option_list (mv_overlay view) @ option_list (mv_batch_accepted view)"

definition durable_row_states :: "metadata_view \<Rightarrow> metadata_state list" where
  "durable_row_states view =
     (case mv_wal_tail view of None \<Rightarrow> [] | Some tail \<Rightarrow> tail_row_states tail (mv_visible_seq view))"

definition view_row_states :: "metadata_view \<Rightarrow> metadata_state list" where
  "view_row_states view = overlay_states view @ durable_row_states view"

definition state_rows ::
  "change_seq \<Rightarrow> (metadata_state \<Rightarrow> 'a list) \<Rightarrow> ('a \<Rightarrow> bool) \<Rightarrow> (metadata_state \<Rightarrow> 'a option)
    \<Rightarrow> metadata_state \<Rightarrow> 'a list" where
  "state_rows visible_seq rows_of matches newest_in st =
     (if indexed_seq st \<le> visible_seq then option_list (newest_in st)
      else filter matches (rows_of st))"

definition shared_rows ::
  "metadata_view \<Rightarrow> (core_error, 'a list) result \<Rightarrow> (metadata_state \<Rightarrow> 'a list) \<Rightarrow> ('a \<Rightarrow> bool)
    \<Rightarrow> (metadata_state \<Rightarrow> 'a option) \<Rightarrow> (core_error, 'a list) result" where
  "shared_rows view fetch rows_of matches newest_in =
     (let rows = (\<lambda>sts. concat (map (state_rows (mv_visible_seq view) rows_of matches newest_in) sts))
      in rbind fetch (\<lambda>fetched.
           let durable = fetched @ rows (durable_row_states view); overlay = rows (overlay_states view)
           in Inr (durable @ overlay)))"

text \<open>The newer of a row-state row and a manifest row.\<close>

definition newest_row :: "('a \<Rightarrow> 'k::linorder) \<Rightarrow> 'a option \<Rightarrow> 'a option \<Rightarrow> 'a option" where
  "newest_row key row manifest_row = max_by_key key (option_list row @ option_list manifest_row)"

definition latest_visible_binding ::
  "direntry_binding_record list \<Rightarrow> change_seq \<Rightarrow> direntry_binding_record option" where
  "latest_visible_binding rows visible_seq =
     max_by_key db_position (filter (\<lambda>row. db_committed_seq row \<le> visible_seq) rows)"

section \<open>Binding and tombstone lookups\<close>

definition direntry_binds_for_parent_name ::
  "metadata_view \<Rightarrow> inode_id \<Rightarrow> name_key \<Rightarrow> (core_error, direntry_binding_record list) result" where
  "direntry_binds_for_parent_name view parent name_key =
     shared_rows view
       (mf_direntry_binds_for_parent_name (mv_manifest view) parent name_key (mv_visible_seq view))
       ms_direntry_binds
       (\<lambda>row. db_parent_inode_id row = parent \<and> db_name_key row = name_key)
       (\<lambda>st. ix_latest_bind_by_parent_name (ms_indexes st) (parent, name_key))"

definition direntry_binds_for_child ::
  "metadata_view \<Rightarrow> inode_id \<Rightarrow> (core_error, direntry_binding_record list) result" where
  "direntry_binds_for_child view child =
     shared_rows view
       (mf_direntry_binds_for_child (mv_manifest view) child (mv_visible_seq view))
       ms_direntry_binds
       (\<lambda>row. db_child_inode_id row = child \<and> is_binding_event row)
       (\<lambda>st. ix_latest_binding_by_child (ms_indexes st) child)"

definition tombstones_for_root ::
  "metadata_view \<Rightarrow> inode_id \<Rightarrow> (core_error, subtree_tombstone_record list) result" where
  "tombstones_for_root view root =
     shared_rows view
       (rbind (mf_newest_tombstone_for_root (mv_manifest view) root (mv_visible_seq view))
          (\<lambda>row. Inr (option_list row)))
       ms_subtree_tombstones
       (\<lambda>row. tb_root_inode_id row = root)
       (\<lambda>st. ix_tombstone_by_root (ms_indexes st) root)"

definition view_bound_child ::
  "metadata_view \<Rightarrow> inode_id \<Rightarrow> name_key \<Rightarrow> (core_error, direntry_binding_record option) result" where
  "view_bound_child view parent name_key =
     rbind (direntry_binds_for_parent_name view parent name_key) (\<lambda>rows.
       Inr (latest_visible_binding rows (mv_visible_seq view)))"

definition view_latest_parent_binding_for_child ::
  "metadata_view \<Rightarrow> inode_id \<Rightarrow> (core_error, direntry_binding_record option) result" where
  "view_latest_parent_binding_for_child view child =
     (if child = ROOT_INODE_ID then Inr None
      else rbind (direntry_binds_for_child view child) (\<lambda>rows.
             Inr (latest_visible_binding rows (mv_visible_seq view))))"

definition view_newest_subtree_tombstone ::
  "metadata_view \<Rightarrow> inode_id \<Rightarrow> (core_error, subtree_tombstone_record option) result" where
  "view_newest_subtree_tombstone view root =
     rbind (tombstones_for_root view root) (\<lambda>rows.
       Inr (newest_tombstone_from_records rows (mv_visible_seq view)))"

definition view_hiding_subtree_tombstone ::
  "metadata_view \<Rightarrow> inode_id \<Rightarrow> (core_error, subtree_tombstone_record option) result" where
  "view_hiding_subtree_tombstone view root =
     rbind (tombstones_for_root view root) (\<lambda>rows.
       Inr (hiding_tombstone_from_records rows (mv_visible_seq view)))"

definition view_recoverable_deletion ::
  "metadata_view \<Rightarrow> inode_id \<Rightarrow> (core_error, subtree_tombstone_record option) result" where
  "view_recoverable_deletion view root =
     rbind (view_hiding_subtree_tombstone view root) (\<lambda>row.
       Inr (option_filter (\<lambda>row. tb_committed_seq row > view_retention_floor_seq view) row))"

section \<open>Inode lookups\<close>

text \<open>\<open>MetadataState::inode_at_seq\<close> on each state of the stack, then the manifest.\<close>

definition view_inode_at_seq :: "metadata_view \<Rightarrow> inode_id \<Rightarrow> (core_error, inode_record option) result" where
  "view_inode_at_seq view inode_id =
     (let at = (\<lambda>st. state_find_inode st (mv_visible_seq view) inode_id)
      in case find_map at (overlay_states view) of
           Some row \<Rightarrow> Inr (Some row)
         | None \<Rightarrow>
             (case find_map at (durable_row_states view) of
                Some row \<Rightarrow> Inr (Some row)
              | None \<Rightarrow> mf_inode_at_seq (mv_manifest view) inode_id (mv_visible_seq view)))"

section \<open>Revision, attribute and access lookups\<close>

definition revision_order_key :: "revision_record \<Rightarrow> revision_no \<times> change_seq \<times> u32" where
  "revision_order_key row = (rv_revision_no row, rv_committed_seq row, rv_delta_index row)"

definition attributes_order_key ::
  "attributes_revision_record \<Rightarrow> attributes_revision_no \<times> change_seq \<times> u32" where
  "attributes_order_key row =
     (ar_attributes_revision_no row, ar_committed_seq row, ar_delta_index row)"

definition access_order_key :: "access_revision_record \<Rightarrow> access_revision_no \<times> change_seq \<times> u32" where
  "access_order_key row = (xr_access_revision_no row, xr_committed_seq row, xr_delta_index row)"

definition row_latest_revision_by_inode :: "metadata_view \<Rightarrow> inode_id \<Rightarrow> revision_record option" where
  "row_latest_revision_by_inode view inode_id =
     max_by_key revision_order_key
       (filter (\<lambda>row. rv_inode_id row = inode_id \<and> rv_committed_seq row \<le> mv_visible_seq view)
          (concat (map ms_revisions (view_row_states view))))"

definition row_revision_by_inode_no ::
  "metadata_view \<Rightarrow> inode_id \<Rightarrow> revision_no \<Rightarrow> revision_record option" where
  "row_revision_by_inode_no view inode_id revision_no =
     max_by_key revision_order_key
       (filter (\<lambda>row. rv_inode_id row = inode_id \<and> rv_revision_no row = revision_no
                        \<and> rv_committed_seq row \<le> mv_visible_seq view)
          (concat (map ms_revisions (view_row_states view))))"

definition view_latest_revision_record ::
  "metadata_view \<Rightarrow> inode_id \<Rightarrow> (core_error, revision_record option) result" where
  "view_latest_revision_record view inode_id =
     rbind (mf_latest_revision_by_inode (mv_manifest view) inode_id (mv_visible_seq view)) (\<lambda>row.
       Inr (newest_row revision_order_key (row_latest_revision_by_inode view inode_id) row))"

definition view_revision_at_head ::
  "metadata_view \<Rightarrow> inode_id \<Rightarrow> revision_no \<Rightarrow> (core_error, revision_record option) result" where
  "view_revision_at_head view inode_id revision_no =
     rbind (mf_revision_by_inode_no (mv_manifest view) inode_id revision_no (mv_visible_seq view))
       (\<lambda>row. Inr (newest_row revision_order_key
                     (row_revision_by_inode_no view inode_id revision_no) row))"

definition view_latest_attributes_revision ::
  "metadata_view \<Rightarrow> inode_id \<Rightarrow> (core_error, attributes_revision_record option) result" where
  "view_latest_attributes_revision view inode_id =
     (let row_record = max_by_key attributes_order_key
            (filter (\<lambda>row. ar_inode_id row = inode_id \<and> ar_committed_seq row \<le> mv_visible_seq view)
               (concat (map ms_attributes_revisions (view_row_states view))))
      in rbind (mf_attributes_by_inode (mv_manifest view) inode_id (mv_visible_seq view)) (\<lambda>row.
           Inr (newest_row attributes_order_key row_record row)))"

definition view_latest_access_revision ::
  "metadata_view \<Rightarrow> inode_id \<Rightarrow> (core_error, access_revision_record option) result" where
  "view_latest_access_revision view inode_id =
     (let row_record = max_by_key access_order_key
            (filter (\<lambda>row. xr_inode_id row = inode_id \<and> xr_committed_seq row \<le> mv_visible_seq view)
               (concat (map ms_access_revisions (view_row_states view))))
      in rbind (mf_access_by_inode (mv_manifest view) inode_id (mv_visible_seq view)) (\<lambda>row.
           Inr (newest_row access_order_key row_record row)))"

record attributes_projection =
  pj_attributes_revision_no :: attributes_revision_no
  pj_attributes_updated_by :: "actor_id option"
  pj_attributes_updated_at_ms :: "u64 option"
  pj_attributes :: attributes

definition view_attributes :: "metadata_view \<Rightarrow> inode_id \<Rightarrow> (core_error, attributes_projection) result" where
  "view_attributes view inode_id =
     rbind (view_latest_attributes_revision view inode_id) (\<lambda>row.
       Inr (case row of
              Some row \<Rightarrow>
                \<lparr> pj_attributes_revision_no = ar_attributes_revision_no row,
                  pj_attributes_updated_by = Some (ar_committed_by row),
                  pj_attributes_updated_at_ms = Some (ar_committed_at_ms row),
                  pj_attributes = ar_attributes row \<rparr>
            | None \<Rightarrow>
                \<lparr> pj_attributes_revision_no = 0, pj_attributes_updated_by = None,
                  pj_attributes_updated_at_ms = None, pj_attributes = [] \<rparr>))"

section \<open>Commit, receipt and layout lookups\<close>

definition view_find_commit_receipt ::
  "metadata_view \<Rightarrow> commit_id \<Rightarrow> (core_error, commit_receipt_record option) result" where
  "view_find_commit_receipt view commit_id =
     (let row_receipt = max_by_key cr_committed_seq
            (filter (\<lambda>row. cr_committed_seq row \<le> mv_visible_seq view)
               (List.map_filter (\<lambda>st. ix_commit_receipt_by_id (ms_indexes st) commit_id)
                  (view_row_states view)))
      in rbind (mf_commit_receipt (mv_manifest view) commit_id (mv_visible_seq view)) (\<lambda>row.
           Inr (newest_row cr_committed_seq row_receipt row)))"

definition view_newest_merge ::
  "metadata_view \<Rightarrow> namespace_id \<Rightarrow> (core_error, merge_index_record option) result" where
  "view_newest_merge view source_namespace_id =
     (let row_merge = max_by_key mi_committed_seq
            (filter (\<lambda>row. mi_source_namespace_id row = source_namespace_id)
               (List.map_filter merge_index_from_commit
                  (filter (\<lambda>commit. wc_committed_seq commit \<le> mv_visible_seq view)
                     (concat (map ms_commits (view_row_states view))))))
      in rbind (mf_newest_merge (mv_manifest view) source_namespace_id (mv_visible_seq view)) (\<lambda>row.
           Inr (newest_row mi_committed_seq row_merge row)))"

definition view_commit_at_seq ::
  "metadata_view \<Rightarrow> change_seq \<Rightarrow> (core_error, wal_commit_payload option) result" where
  "view_commit_at_seq view seq =
     (if seq > mv_visible_seq view then Inr None
      else case find (\<lambda>row. wc_committed_seq row = seq)
                  (concat (map ms_commits (view_row_states view))) of
             Some row \<Rightarrow> Inr (Some row)
           | None \<Rightarrow> mf_commit_at_seq (mv_manifest view) seq)"

definition layout_order_key :: "content_layout_record \<Rightarrow> u64 \<times> change_seq" where
  "layout_order_key row = (cl_size_bytes row, cl_committed_seq row)"

definition view_content_layout ::
  "metadata_view \<Rightarrow> content_id \<Rightarrow> (core_error, content_layout_record option) result" where
  "view_content_layout view content_id =
     (let tail = max_by_key layout_order_key
            (List.map_filter (\<lambda>st.
               if indexed_seq st \<le> mv_visible_seq view
               then ix_content_layout_by_id (ms_indexes st) content_id
               else max_by_key layout_order_key
                      (filter (\<lambda>row. cl_content_id row = content_id
                                       \<and> cl_committed_seq row \<le> mv_visible_seq view)
                         (ms_content_layouts st)))
               (view_row_states view))
      in rbind (mf_content_layout (mv_manifest view) content_id) (\<lambda>row.
           Inr (newest_row layout_order_key tail row)))"

record content_head =
  ch_size_bytes :: u64
  ch_creator_namespace_id :: "namespace_id option"

definition view_content_head ::
  "metadata_view \<Rightarrow> content_id \<Rightarrow> (core_error, content_head option) result" where
  "view_content_head view content_id =
     (let tail_size = max_by_key (\<lambda>n. n)
            (map (\<lambda>row. ct_size_bytes (rv_content_ref row))
               (filter (\<lambda>row. ct_content_id (rv_content_ref row) = content_id
                                \<and> rv_committed_seq row \<le> mv_visible_seq view)
                  (concat (map ms_revisions (view_row_states view)))))
      in rbind (view_content_layout view content_id) (\<lambda>layout.
           Inr (map_option (\<lambda>size_bytes.
             \<lparr> ch_size_bytes = size_bytes,
               ch_creator_namespace_id =
                 map_option (\<lambda>row. ly_creator_namespace_id (cl_layout row)) layout \<rparr>)
             (max_by_key (\<lambda>n. n)
                (option_list tail_size @ option_list (map_option cl_size_bytes layout))))))"

section \<open>The view's visibility reads\<close>

definition view_lookups :: "metadata_view \<Rightarrow> core_error visibility_reads" where
  "view_lookups view =
     \<lparr> vr_from = core_from_visible_path,
       vr_retention_floor_seq = view_retention_floor_seq view,
       vr_find_inode = view_inode_at_seq view,
       vr_find_latest_slot_binding = view_bound_child view,
       vr_find_latest_parent_binding_for_child = view_latest_parent_binding_for_child view,
       vr_find_hiding_subtree_tombstone = view_hiding_subtree_tombstone view,
       vr_find_access_row = view_latest_access_revision view,
       vr_current_parent_binding_for_child = (\<lambda>_. Inr None),
       vr_active_child_binding = (\<lambda>_ _. Inr None),
       vr_covering_subtree_tombstone = (\<lambda>_. Inr None),
       vr_visible_inode = (\<lambda>_. Inr None) \<rparr>"

definition view_reads :: "metadata_view \<Rightarrow> core_error visibility_reads" where
  "view_reads view =
     (let lookups = view_lookups view
      in with_provided lookups (current_parent_binding_for_child lookups)
           (active_child_binding lookups))"

end
