(* ===== verification/View_Reads.thy ===== *)
theory View_Reads
  imports Metadata_View
begin

text \<open>
  The view answers as a scan of all its rows would.  \<open>flat\<close> lists the rows of a view in
  commit order; \<open>manifest_ok\<close> says what the manifest's lookups return about the rows its
  segments hold; and under \<open>view_ok\<close> every lookup that returns is the scan of the flat rows
  at the view's sequence.
\<close>

section \<open>Newest rows of layered sources\<close>

text \<open>
  A source's contribution to a lookup: rows of the source, the newest of the wanted ones
  among them.
\<close>

definition covers :: "('a \<Rightarrow> 'k::linorder) \<Rightarrow> ('a \<Rightarrow> bool) \<Rightarrow> 'a list \<Rightarrow> 'a list \<Rightarrow> bool" where
  "covers f P rows contrib \<longleftrightarrow>
     set contrib \<subseteq> set rows \<and> (\<forall>m. max_by_key f (filter P rows) = Some m \<longrightarrow> m \<in> set contrib)"

lemma covers_all: "(\<And>x. x \<in> set rows \<Longrightarrow> P x \<Longrightarrow> Q x) \<Longrightarrow> covers f P rows (filter Q rows)"
  by (auto simp: covers_def dest: max_by_key_mem)

lemma covers_newest:
  assumes "newest_of f (filter Q rows) m" "inj_on f (set rows)"
    "\<And>x. x \<in> set rows \<Longrightarrow> P x = Q x"
  shows "covers f P rows (option_list m)"
proof -
  have same: "filter P rows = filter Q rows" using assms(3) by (rule filter_cong [OF refl])
  have "inj_on f (set (filter Q rows))" using assms(2) by (rule inj_on_subset) auto
  with assms(1) have "max_by_key f (filter P rows) = m"
    unfolding same by (rule max_by_key_newest_of)
  then show ?thesis by (cases m) (auto simp: covers_def same dest: max_by_key_mem)
qed

lemma covers_max: "covers f P rows (option_list (max_by_key f (filter P rows)))"
  by (cases "max_by_key f (filter P rows)") (auto simp: covers_def dest: max_by_key_mem)

lemma filter_max:
  "filter P (option_list (max_by_key f (filter P rows))) = option_list (max_by_key f (filter P rows))"
  by (cases "max_by_key f (filter P rows)") (auto dest: max_by_key_mem)

lemma covers_concat:
  assumes cov: "list_all2 (covers f P) rowss contribs" and inj: "inj_on f (set (concat rowss))"
  shows "max_by_key f (filter P (concat contribs)) = max_by_key f (filter P (concat rowss))"
proof -
  have sub: "set (filter P (concat contribs)) \<subseteq> set (filter P (concat rowss))"
    using cov by (induction rule: list_all2_induct) (auto simp: covers_def)
  show ?thesis
  proof (cases "max_by_key f (filter P (concat rowss))")
    case None
    then have "filter P (concat rowss) = []" by (simp only: max_by_key_None_iff)
    with sub have "filter P (concat contribs) = []"
      by (metis empty_set set_empty subset_empty)
    with None show ?thesis by (simp only: max_by_key.simps)
  next
    case (Some m)
    from max_by_key_mem [OF Some] have m: "m \<in> set (concat rowss)" "P m" by auto
    have "m \<in> set (concat contribs)"
      using cov inj m(1) max_by_key_ge [OF Some]
    proof (induction rule: list_all2_induct)
      case Nil
      then show ?case by simp
    next
      case (Cons rows rowss contrib contribs)
      show ?case
      proof (cases "m \<in> set rows")
        case True
        have "max_by_key f (filter P rows) = Some m"
        proof (rule max_by_key_unique)
          show "m \<in> set (filter P rows)" using True m(2) by simp
          show "f x \<le> f m" if "x \<in> set (filter P rows)" for x using Cons.prems(3) that by auto
          show "inj_on f (set (filter P rows))"
            using Cons.prems(1) by (rule inj_on_subset) auto
        qed
        with Cons.hyps(1) show ?thesis by (auto simp: covers_def)
      next
        case False
        have "inj_on f (set (concat rowss))" using Cons.prems(1) by (rule inj_on_subset) auto
        with Cons.IH Cons.prems(2,3) False show ?thesis by auto
      qed
    qed
    with m(2) have "m \<in> set (filter P (concat contribs))" by simp
    moreover have "inj_on f (set (filter P (concat rowss)))" using inj by (rule inj_on_subset) auto
    ultimately show ?thesis using max_by_key_subset [OF sub Some] Some by (simp only:)
  qed
qed

lemma max_by_key_set_cong:
  assumes "set xs = set ys" "inj_on f (set ys)"
  shows "max_by_key f xs = max_by_key f ys"
proof (cases "max_by_key f ys")
  case None
  with assms(1) show ?thesis by simp
next
  case (Some m)
  from max_by_key_mem [OF Some] assms(1) have "m \<in> set xs" by simp
  with assms have "max_by_key f xs = Some m" by (intro max_by_key_subset [OF _ Some]) simp_all
  with Some show ?thesis by simp
qed

section \<open>The rows of a view\<close>

definition flat :: "(metadata_state \<Rightarrow> 'a list) \<Rightarrow> metadata_view \<Rightarrow> metadata_state \<Rightarrow> 'a list" where
  "flat sel view m = sel m @ concat (map sel (rev (view_row_states view)))"

lemma set_flat: "set (flat sel view m) = set (sel m) \<union> (\<Union>st\<in>set (view_row_states view). set (sel st))"
  by (simp add: flat_def)

text \<open>
  What the manifest's lookups return about the rows its segments hold: the rows of an
  edge's newest positions, the newest event of a root, and the newest revision rows.
\<close>

definition manifest_inodes_ok :: "metadata_manifest \<Rightarrow> metadata_state \<Rightarrow> bool" where
  "manifest_inodes_ok mf m \<longleftrightarrow>
     (\<forall>i s x. mf_inode_at_seq mf i s = Inr x \<longrightarrow> x = inode_at_seq_scan (ms_inodes m) i s)"

definition manifest_slots_ok :: "metadata_manifest \<Rightarrow> metadata_state \<Rightarrow> bool" where
  "manifest_slots_ok mf m \<longleftrightarrow>
     (\<forall>p n s rows. mf_direntry_binds_for_parent_name mf p n s = Inr rows \<longrightarrow>
        (\<forall>row\<in>set rows. row \<in> set (ms_direntry_binds m) \<and> db_parent_inode_id row = p
           \<and> db_name_key row = n) \<and>
        (\<forall>row. bound_child_at_seq_scan (ms_direntry_binds m) p n s = Some row \<longrightarrow> row \<in> set rows))"

definition manifest_children_ok :: "metadata_manifest \<Rightarrow> metadata_state \<Rightarrow> bool" where
  "manifest_children_ok mf m \<longleftrightarrow>
     (\<forall>c s rows. mf_direntry_binds_for_child mf c s = Inr rows \<longrightarrow>
        (\<forall>row\<in>set rows. row \<in> set (ms_direntry_binds m) \<and> db_child_inode_id row = c
           \<and> is_binding_event row) \<and>
        (\<forall>row. latest_parent_binding_for_child_at_seq (ms_direntry_binds m) c s = Some row
           \<longrightarrow> row \<in> set rows))"

definition manifest_tombstones_ok :: "metadata_manifest \<Rightarrow> metadata_state \<Rightarrow> bool" where
  "manifest_tombstones_ok mf m \<longleftrightarrow>
     (\<forall>r s x. mf_newest_tombstone_for_root mf r s = Inr x \<longrightarrow>
        x = newest_tombstone_from_records
              (filter (\<lambda>row. tb_root_inode_id row = r) (ms_subtree_tombstones m)) s)"

definition manifest_revisions_ok :: "metadata_manifest \<Rightarrow> metadata_state \<Rightarrow> bool" where
  "manifest_revisions_ok mf m \<longleftrightarrow>
     (\<forall>i s x. mf_latest_revision_by_inode mf i s = Inr x \<longrightarrow>
        x = max_by_key revision_order_key
              (filter (\<lambda>row. rv_inode_id row = i \<and> rv_committed_seq row \<le> s) (ms_revisions m)))"

definition manifest_ok :: "metadata_manifest \<Rightarrow> metadata_state \<Rightarrow> bool" where
  "manifest_ok mf m \<longleftrightarrow>
     manifest_inodes_ok mf m \<and> manifest_slots_ok mf m \<and> manifest_children_ok mf m \<and>
     manifest_tombstones_ok mf m \<and> manifest_revisions_ok mf m"

lemma manifest_slot_rows:
  assumes "manifest_slots_ok mf m" "mf_direntry_binds_for_parent_name mf p n s = Inr rows"
  shows "(\<forall>row\<in>set rows. db_parent_inode_id row = p \<and> db_name_key row = n) \<and>
    covers db_position (\<lambda>row. (db_parent_inode_id row = p \<and> db_name_key row = n)
      \<and> db_committed_seq row \<le> s) (ms_direntry_binds m) rows"
proof -
  from assms have "\<forall>row\<in>set rows. row \<in> set (ms_direntry_binds m) \<and> db_parent_inode_id row = p
      \<and> db_name_key row = n"
    and "\<forall>row. bound_child_at_seq_scan (ms_direntry_binds m) p n s = Some row \<longrightarrow> row \<in> set rows"
    unfolding manifest_slots_ok_def by blast+
  then show ?thesis unfolding covers_def bound_child_at_seq_scan_def conj_assoc by blast
qed

lemma manifest_child_rows:
  assumes "manifest_children_ok mf m" "mf_direntry_binds_for_child mf c s = Inr rows"
  shows "(\<forall>row\<in>set rows. db_child_inode_id row = c \<and> is_binding_event row) \<and>
    covers db_position (\<lambda>row. (db_child_inode_id row = c \<and> is_binding_event row)
      \<and> db_committed_seq row \<le> s) (ms_direntry_binds m) rows"
proof -
  from assms have "\<forall>row\<in>set rows. row \<in> set (ms_direntry_binds m) \<and> db_child_inode_id row = c
      \<and> is_binding_event row"
    and "\<forall>row. latest_parent_binding_for_child_at_seq (ms_direntry_binds m) c s = Some row
      \<longrightarrow> row \<in> set rows"
    unfolding manifest_children_ok_def by blast+
  then show ?thesis unfolding covers_def latest_parent_binding_for_child_at_seq_def conj_assoc by blast
qed

definition view_ok :: "metadata_view \<Rightarrow> metadata_state \<Rightarrow> bool" where
  "view_ok view m \<longleftrightarrow>
     manifest_ok (mv_manifest view) m \<and>
     (\<forall>st\<in>set (view_row_states view). indexes_ok st) \<and>
     inj_on db_position (set (flat ms_direntry_binds view m)) \<and>
     inj_on tb_position (set (flat ms_subtree_tombstones view m)) \<and>
     inj_on revision_order_key (set (flat ms_revisions view m)) \<and>
     distinct (map ir_inode_id (flat ms_inodes view m)) \<and>
     (\<forall>row\<in>set (flat ms_direntry_binds view m). db_child_inode_id row \<noteq> ROOT_INODE_ID)"

lemma flat_state: "st \<in> set (view_row_states view) \<Longrightarrow> set (sel st) \<subseteq> set (flat sel view m)"
  by (auto simp: set_flat)

lemma flat_manifest: "set (sel m) \<subseteq> set (flat sel view m)"
  by (simp add: set_flat)

lemma distinct_flat_state:
  assumes "distinct (map f (flat sel view m))" "st \<in> set (view_row_states view)"
  shows "distinct (map f (sel st))"
proof -
  obtain xs ys where "rev (view_row_states view) = xs @ st # ys"
    using assms(2) by (metis set_rev split_list)
  with assms(1) show ?thesis by (simp add: flat_def)
qed

lemma view_state_ok:
  assumes ok: "view_ok view m" and st: "st \<in> set (view_row_states view)"
  shows "state_ok st"
  unfolding state_ok_def
proof (intro conjI)
  show "indexes_ok st" using assms by (simp add: view_ok_def)
  have "inj_on db_position (set (flat ms_direntry_binds view m))" using ok by (simp add: view_ok_def)
  then show "inj_on db_position (set (ms_direntry_binds st))"
    by (rule inj_on_subset) (rule flat_state [OF st])
  have "inj_on tb_position (set (flat ms_subtree_tombstones view m))" using ok by (simp add: view_ok_def)
  then show "inj_on tb_position (set (ms_subtree_tombstones st))"
    by (rule inj_on_subset) (rule flat_state [OF st])
  show "distinct (map ir_inode_id (ms_inodes st))"
    by (rule distinct_flat_state [OF _ st, of _ _ m]) (use ok in \<open>simp add: view_ok_def\<close>)
  have "\<forall>row\<in>set (flat ms_direntry_binds view m). db_child_inode_id row \<noteq> ROOT_INODE_ID"
    using ok by (simp add: view_ok_def)
  with flat_state [OF st, of ms_direntry_binds m]
  show "\<forall>row\<in>set (ms_direntry_binds st). db_child_inode_id row \<noteq> ROOT_INODE_ID" by blast
qed

section \<open>Lookups are scans of the flat rows\<close>

lemma shared_rows_newest:
  assumes rows: "shared_rows view fetch sel matches newest_in = Inr rows"
    and fetched: "\<And>xs. fetch = Inr xs \<Longrightarrow> (\<forall>x\<in>set xs. matches x) \<and>
      covers f (\<lambda>x. matches x \<and> seq x \<le> mv_visible_seq view) (sel m) xs"
    and inj: "inj_on f (set (flat sel view m))"
    and index: "\<And>st. st \<in> set (view_row_states view) \<Longrightarrow> indexed_seq st \<le> mv_visible_seq view
      \<Longrightarrow> newest_of f (filter matches (sel st)) (newest_in st) \<and>
        (\<forall>x\<in>set (sel st). seq x \<le> mv_visible_seq view)"
  shows "max_by_key f (filter (\<lambda>x. seq x \<le> mv_visible_seq view) rows) =
    max_by_key f (filter (\<lambda>x. matches x \<and> seq x \<le> mv_visible_seq view) (flat sel view m))"
proof -
  let ?P = "\<lambda>x. matches x \<and> seq x \<le> mv_visible_seq view"
  let ?sts = "durable_row_states view @ overlay_states view"
  let ?c = "state_rows (mv_visible_seq view) sel matches newest_in"
  from rows obtain xs where xs: "fetch = Inr xs" and eq: "rows = concat (xs # map ?c ?sts)"
    by (auto simp: shared_rows_def Let_def)
  have sts: "set ?sts = set (view_row_states view)" by (auto simp: view_row_states_def)
  have inj': "inj_on f (set (sel st))" if "st \<in> set ?sts" for st
    using inj by (rule inj_on_subset) (use that sts in \<open>auto simp: set_flat\<close>)
  have state: "covers f ?P (sel st) (?c st)" if "st \<in> set ?sts" for st
  proof (cases "indexed_seq st \<le> mv_visible_seq view")
    case True
    with index [of st] that sts have "newest_of f (filter matches (sel st)) (newest_in st)"
      and "\<forall>x\<in>set (sel st). seq x \<le> mv_visible_seq view" by auto
    then have "covers f ?P (sel st) (option_list (newest_in st))"
      using inj' [OF that] by (intro covers_newest) auto
    with True show ?thesis by (simp add: state_rows_def)
  next
    case False
    then show ?thesis by (auto simp: state_rows_def intro: covers_all)
  qed
  have "list_all2 (covers f ?P) (map sel ?sts) (map ?c ?sts)"
    unfolding list_all2_map1 list_all2_map2 by (rule list.rel_refl_strong) (rule state)
  then have cov: "list_all2 (covers f ?P) (sel m # map sel ?sts) (xs # map ?c ?sts)"
    using fetched [OF xs] by (simp only: list_all2_Cons)
  have matching: "\<forall>x\<in>set xs. matches x" using fetched [OF xs] by blast
  have same: "set (concat (sel m # map sel ?sts)) = set (flat sel view m)"
    by (auto simp: set_flat view_row_states_def)
  have "matches x" if "st \<in> set ?sts" "x \<in> set (?c st)" for st x
  proof (cases "indexed_seq st \<le> mv_visible_seq view")
    case True
    with that have "newest_in st = Some x" by (auto simp: state_rows_def)
    with index [of st] that sts True show ?thesis by (auto simp: newest_of_Some)
  next
    case False
    with that show ?thesis by (simp add: state_rows_def)
  qed
  with matching have "filter (\<lambda>x. seq x \<le> mv_visible_seq view) rows = filter ?P rows"
    unfolding eq by (intro filter_cong) auto
  then have "max_by_key f (filter (\<lambda>x. seq x \<le> mv_visible_seq view) rows) = max_by_key f (filter ?P rows)"
    by (simp only:)
  also have "max_by_key f (filter ?P rows) = max_by_key f (filter ?P (concat (sel m # map sel ?sts)))"
    unfolding eq by (rule covers_concat [OF cov]) (use inj same in simp)
  also have "\<dots> = max_by_key f (filter ?P (flat sel view m))"
  proof (rule max_by_key_set_cong)
    show "set (filter ?P (concat (sel m # map sel ?sts))) = set (filter ?P (flat sel view m))"
      unfolding set_filter same by (rule refl)
    show "inj_on f (set (filter ?P (flat sel view m)))" using inj by (rule inj_on_subset) auto
  qed
  finally show ?thesis .
qed

lemma view_bound_child_scan:
  assumes ok: "view_ok view m" and found: "view_bound_child view p n = Inr x"
  shows "x = bound_child_at_seq_scan (flat ms_direntry_binds view m) p n (mv_visible_seq view)"
proof -
  from found obtain rows where rows: "direntry_binds_for_parent_name view p n = Inr rows"
    and x: "x = latest_visible_binding rows (mv_visible_seq view)"
    by (auto simp: view_bound_child_def)
  let ?m = "\<lambda>row. db_parent_inode_id row = p \<and> db_name_key row = n"
  have "max_by_key db_position (filter (\<lambda>row. db_committed_seq row \<le> mv_visible_seq view) rows) =
    max_by_key db_position (filter (\<lambda>row. ?m row \<and> db_committed_seq row \<le> mv_visible_seq view)
      (flat ms_direntry_binds view m))"
  proof (rule shared_rows_newest [OF rows [unfolded direntry_binds_for_parent_name_def]])
    show "inj_on db_position (set (flat ms_direntry_binds view m))"
      using ok by (simp add: view_ok_def)
    show "newest_of db_position (filter ?m (ms_direntry_binds st))
        (ix_latest_bind_by_parent_name (ms_indexes st) (p, n)) \<and>
      (\<forall>row\<in>set (ms_direntry_binds st). db_committed_seq row \<le> mv_visible_seq view)"
      if st: "st \<in> set (view_row_states view)" "indexed_seq st \<le> mv_visible_seq view" for st
    proof
      show "\<forall>row\<in>set (ms_direntry_binds st). db_committed_seq row \<le> mv_visible_seq view"
        using head_rows(2) [OF view_state_ok [OF ok st(1)] st(2)] by blast
      have "index_of (\<lambda>_. True) (\<lambda>row. (db_parent_inode_id row, db_name_key row)) db_position
          (ms_direntry_binds st) (ix_latest_bind_by_parent_name (ms_indexes st))"
        using ok st(1) by (simp add: view_ok_def indexes_ok_def)
      then show "newest_of db_position (filter ?m (ms_direntry_binds st))
          (ix_latest_bind_by_parent_name (ms_indexes st) (p, n))"
        unfolding index_of_def by (drule_tac x = "(p, n)" in spec) simp
    qed
    show "(\<forall>row\<in>set xs. ?m row) \<and>
        covers db_position (\<lambda>row. ?m row \<and> db_committed_seq row \<le> mv_visible_seq view)
          (ms_direntry_binds m) xs"
      if "mf_direntry_binds_for_parent_name (mv_manifest view) p n (mv_visible_seq view) = Inr xs" for xs
      using ok that by (intro manifest_slot_rows) (simp_all add: view_ok_def manifest_ok_def)
  qed
  then show ?thesis unfolding x latest_visible_binding_def bound_child_at_seq_scan_def
    by (simp add: conj_assoc)
qed

lemma view_latest_parent_scan:
  assumes ok: "view_ok view m" and found: "view_latest_parent_binding_for_child view c = Inr x"
    and c: "c \<noteq> ROOT_INODE_ID"
  shows "x = latest_parent_binding_for_child_at_seq (flat ms_direntry_binds view m) c (mv_visible_seq view)"
proof -
  from found c obtain rows where rows: "direntry_binds_for_child view c = Inr rows"
    and x: "x = latest_visible_binding rows (mv_visible_seq view)"
    by (auto simp: view_latest_parent_binding_for_child_def)
  let ?m = "\<lambda>row. db_child_inode_id row = c \<and> is_binding_event row"
  have "max_by_key db_position (filter (\<lambda>row. db_committed_seq row \<le> mv_visible_seq view) rows) =
    max_by_key db_position (filter (\<lambda>row. ?m row \<and> db_committed_seq row \<le> mv_visible_seq view)
      (flat ms_direntry_binds view m))"
  proof (rule shared_rows_newest [OF rows [unfolded direntry_binds_for_child_def]])
    show "inj_on db_position (set (flat ms_direntry_binds view m))"
      using ok by (simp add: view_ok_def)
    show "newest_of db_position (filter ?m (ms_direntry_binds st))
        (ix_latest_binding_by_child (ms_indexes st) c) \<and>
      (\<forall>row\<in>set (ms_direntry_binds st). db_committed_seq row \<le> mv_visible_seq view)"
      if st: "st \<in> set (view_row_states view)" "indexed_seq st \<le> mv_visible_seq view" for st
    proof
      show "\<forall>row\<in>set (ms_direntry_binds st). db_committed_seq row \<le> mv_visible_seq view"
        using head_rows(2) [OF view_state_ok [OF ok st(1)] st(2)] by blast
      have "index_of is_binding_event db_child_inode_id db_position
          (ms_direntry_binds st) (ix_latest_binding_by_child (ms_indexes st))"
        using ok st(1) by (simp add: view_ok_def indexes_ok_def)
      then show "newest_of db_position (filter ?m (ms_direntry_binds st))
          (ix_latest_binding_by_child (ms_indexes st) c)"
        unfolding index_of_def by (drule_tac x = c in spec) (simp add: conj_commute)
    qed
    show "(\<forall>row\<in>set xs. ?m row) \<and>
        covers db_position (\<lambda>row. ?m row \<and> db_committed_seq row \<le> mv_visible_seq view)
          (ms_direntry_binds m) xs"
      if "mf_direntry_binds_for_child (mv_manifest view) c (mv_visible_seq view) = Inr xs" for xs
      using ok that by (intro manifest_child_rows) (simp_all add: view_ok_def manifest_ok_def)
  qed
  then show ?thesis unfolding x latest_visible_binding_def latest_parent_binding_for_child_at_seq_def
    by (simp add: conj_assoc)
qed

lemma view_hiding_scan:
  assumes ok: "view_ok view m" and found: "view_hiding_subtree_tombstone view r = Inr x"
  shows "x = hiding_subtree_tombstone_scan (flat ms_subtree_tombstones view m) r (mv_visible_seq view)"
proof -
  from found obtain rows where rows: "tombstones_for_root view r = Inr rows"
    and x: "x = hiding_tombstone_from_records rows (mv_visible_seq view)"
    by (auto simp: view_hiding_subtree_tombstone_def)
  let ?m = "\<lambda>row. tb_root_inode_id row = r"
  have "max_by_key tb_position (filter (\<lambda>row. tb_committed_seq row \<le> mv_visible_seq view) rows) =
    max_by_key tb_position (filter (\<lambda>row. ?m row \<and> tb_committed_seq row \<le> mv_visible_seq view)
      (flat ms_subtree_tombstones view m))"
  proof (rule shared_rows_newest [OF rows [unfolded tombstones_for_root_def]])
    show inj: "inj_on tb_position (set (flat ms_subtree_tombstones view m))"
      using ok by (simp add: view_ok_def)
    show "newest_of tb_position (filter ?m (ms_subtree_tombstones st))
        (ix_tombstone_by_root (ms_indexes st) r) \<and>
      (\<forall>row\<in>set (ms_subtree_tombstones st). tb_committed_seq row \<le> mv_visible_seq view)"
      if st: "st \<in> set (view_row_states view)" "indexed_seq st \<le> mv_visible_seq view" for st
    proof
      show "\<forall>row\<in>set (ms_subtree_tombstones st). tb_committed_seq row \<le> mv_visible_seq view"
        using head_rows(3) [OF view_state_ok [OF ok st(1)] st(2)] by blast
      have "index_of (\<lambda>_. True) tb_root_inode_id tombstone_order_key
          (ms_subtree_tombstones st) (ix_tombstone_by_root (ms_indexes st))"
        using ok st(1) by (simp add: view_ok_def indexes_ok_def)
      then show "newest_of tb_position (filter ?m (ms_subtree_tombstones st))
          (ix_tombstone_by_root (ms_indexes st) r)"
        unfolding index_of_def newest_of_tombstone_order by (drule_tac x = r in spec) simp
    qed
    show "(\<forall>row\<in>set xs. ?m row) \<and>
        covers tb_position (\<lambda>row. ?m row \<and> tb_committed_seq row \<le> mv_visible_seq view)
          (ms_subtree_tombstones m) xs"
      if fetch: "rbind (mf_newest_tombstone_for_root (mv_manifest view) r (mv_visible_seq view))
          (\<lambda>row. Inr (option_list row)) = Inr xs" for xs
    proof -
      from fetch obtain t where t: "mf_newest_tombstone_for_root (mv_manifest view) r (mv_visible_seq view) = Inr t"
        and xs: "xs = option_list t" by auto
      have t_eq: "t = max_by_key tb_position
          (filter (\<lambda>row. ?m row \<and> tb_committed_seq row \<le> mv_visible_seq view) (ms_subtree_tombstones m))"
        using ok t by (simp add: view_ok_def manifest_ok_def manifest_tombstones_ok_def
            newest_tombstone_from_records_def conj_commute)
      then show ?thesis unfolding xs by (cases t) (auto simp: covers_def dest: sym max_by_key_mem)
    qed
  qed
  then show ?thesis
    unfolding x hiding_subtree_tombstone_scan_def hiding_tombstone_from_records_def
      newest_tombstone_from_records_def
    by (simp add: conj_commute)
qed

lemma inode_scan_iff:
  assumes "distinct (map ir_inode_id rows)"
  shows "inode_at_seq_scan rows i s = Some row \<longleftrightarrow>
    row \<in> set rows \<and> ir_inode_id row = i \<and> ir_committed_seq row \<le> s"
proof
  assume "inode_at_seq_scan rows i s = Some row"
  then show "row \<in> set rows \<and> ir_inode_id row = i \<and> ir_committed_seq row \<le> s"
    unfolding inode_at_seq_scan_def find_Some_iff by (auto simp: in_set_conv_nth)
next
  assume "row \<in> set rows \<and> ir_inode_id row = i \<and> ir_committed_seq row \<le> s"
  then show "inode_at_seq_scan rows i s = Some row"
    using find_distinct_key [OF assms, of row "\<lambda>row. ir_committed_seq row \<le> s"]
    by (auto simp: inode_at_seq_scan_def)
qed

lemma inode_scan_None:
  "inode_at_seq_scan rows i s = None \<longleftrightarrow>
    (\<forall>row\<in>set rows. ir_inode_id row = i \<longrightarrow> \<not> ir_committed_seq row \<le> s)"
  by (auto simp: inode_at_seq_scan_def find_None_iff)

lemma find_map_Some: "find_map f xs = Some y \<Longrightarrow> \<exists>x\<in>set xs. f x = Some y"
  by (induction xs) (auto split: option.splits)

lemma find_map_None: "find_map f xs = None \<longleftrightarrow> (\<forall>x\<in>set xs. f x = None)"
  by (induction xs) (auto split: option.splits)

lemma state_find_inode_scan:
  "state_ok st \<Longrightarrow> state_find_inode st s i = inode_at_seq_scan (ms_inodes st) i s"
  using reads_find_inode [of st s i] by (simp add: reads_at_seq_def Let_def state_lookups_def)

lemma view_inode_scan:
  assumes ok: "view_ok view m" and found: "view_inode_at_seq view i = Inr x"
  shows "x = inode_at_seq_scan (flat ms_inodes view m) i (mv_visible_seq view)"
proof -
  let ?s = "mv_visible_seq view" and ?at = "\<lambda>st. state_find_inode st (mv_visible_seq view) i"
  have dist: "distinct (map ir_inode_id (flat ms_inodes view m))" using ok by (simp add: view_ok_def)
  have at: "?at st = inode_at_seq_scan (ms_inodes st) i ?s" if "st \<in> set (view_row_states view)" for st
    by (rule state_find_inode_scan [OF view_state_ok [OF ok that]])
  have states: "set (view_row_states view) = set (overlay_states view) \<union> set (durable_row_states view)"
    by (simp add: view_row_states_def)
  show ?thesis
  proof (cases "\<exists>st\<in>set (view_row_states view). ?at st \<noteq> None")
    case True
    have "\<exists>row. x = Some row \<and> (\<exists>st\<in>set (view_row_states view). ?at st = Some row)"
    proof (cases "find_map ?at (overlay_states view)")
      case (Some row)
      with found have "x = Some row" by (simp add: view_inode_at_seq_def Let_def)
      with find_map_Some [OF Some] states show ?thesis by blast
    next
      case None
      obtain st where st: "st \<in> set (view_row_states view)" "?at st \<noteq> None" using True by blast
      with None have "st \<in> set (durable_row_states view)" unfolding states find_map_None by auto
      with st(2) obtain row where row: "find_map ?at (durable_row_states view) = Some row"
        using find_map_None [of ?at "durable_row_states view"] by auto
      with None found have "x = Some row" by (simp add: view_inode_at_seq_def Let_def)
      with find_map_Some [OF row] states show ?thesis by blast
    qed
    then obtain row where x: "x = Some row" and "\<exists>st\<in>set (view_row_states view). ?at st = Some row"
      by blast
    then obtain st where st: "st \<in> set (view_row_states view)"
      "inode_at_seq_scan (ms_inodes st) i ?s = Some row" using at by auto
    have "distinct (map ir_inode_id (ms_inodes st))" by (rule distinct_flat_state [OF dist st(1)])
    from st(2) [unfolded inode_scan_iff [OF this]] flat_state [OF st(1), of ms_inodes m]
    have "inode_at_seq_scan (flat ms_inodes view m) i ?s = Some row"
      unfolding inode_scan_iff [OF dist] by blast
    with x show ?thesis by simp
  next
    case False
    then have none: "\<forall>st\<in>set (view_row_states view). inode_at_seq_scan (ms_inodes st) i ?s = None"
      using at by auto
    from False have "find_map ?at (overlay_states view) = None" "find_map ?at (durable_row_states view) = None"
      unfolding states find_map_None by blast+
    with found have "mf_inode_at_seq (mv_manifest view) i ?s = Inr x"
      by (simp add: view_inode_at_seq_def Let_def)
    then have x: "x = inode_at_seq_scan (ms_inodes m) i ?s"
      using ok by (simp add: view_ok_def manifest_ok_def manifest_inodes_ok_def)
    have dm: "distinct (map ir_inode_id (ms_inodes m))" using dist by (simp add: flat_def)
    show ?thesis
    proof (cases x)
      case None
      with x have "inode_at_seq_scan (ms_inodes m) i ?s = None" by simp
      with none have "inode_at_seq_scan (flat ms_inodes view m) i ?s = None"
        unfolding inode_scan_None set_flat by blast
      with None show ?thesis by simp
    next
      case (Some row)
      with x have "inode_at_seq_scan (flat ms_inodes view m) i ?s = Some row"
        using flat_manifest [of ms_inodes m view] inode_scan_iff [OF dm, of i ?s row]
        unfolding inode_scan_iff [OF dist] by auto
      with Some show ?thesis by simp
    qed
  qed
qed

lemma view_latest_revision_scan:
  assumes ok: "view_ok view m" and found: "view_latest_revision_record view i = Inr x"
  shows "x = max_by_key revision_order_key
    (filter (\<lambda>row. rv_inode_id row = i \<and> rv_committed_seq row \<le> mv_visible_seq view)
       (flat ms_revisions view m))"
proof -
  let ?P = "\<lambda>row. rv_inode_id row = i \<and> rv_committed_seq row \<le> mv_visible_seq view"
  let ?rows = "concat (map ms_revisions (view_row_states view))"
  have inj: "inj_on revision_order_key (set (flat ms_revisions view m))" using ok by (simp add: view_ok_def)
  have same: "set (concat [?rows, ms_revisions m]) = set (flat ms_revisions view m)"
    by (auto simp: set_flat)
  from found obtain t where t: "mf_latest_revision_by_inode (mv_manifest view) i (mv_visible_seq view) = Inr t"
    and x: "x = newest_row revision_order_key (row_latest_revision_by_inode view i) t"
    by (auto simp: view_latest_revision_record_def)
  have t_eq: "t = max_by_key revision_order_key (filter ?P (ms_revisions m))"
    using ok t by (simp add: view_ok_def manifest_ok_def manifest_revisions_ok_def)
  note row = row_latest_revision_by_inode_def [of view i]
  have cov: "list_all2 (covers revision_order_key ?P) [?rows, ms_revisions m]
      [option_list (row_latest_revision_by_inode view i), option_list t]"
    unfolding row t_eq by (simp only: list_all2_Cons list_all2_Nil covers_max)
  have "x = max_by_key revision_order_key
      (filter ?P (concat [option_list (row_latest_revision_by_inode view i), option_list t]))"
    unfolding row t_eq x newest_row_def by (simp only: concat.simps filter_append filter_max append_Nil2)
  also have "\<dots> = max_by_key revision_order_key (filter ?P (concat [?rows, ms_revisions m]))"
    by (rule covers_concat [OF cov]) (simp only: same inj)
  also have "\<dots> = max_by_key revision_order_key (filter ?P (flat ms_revisions view m))"
  proof (rule max_by_key_set_cong)
    show "set (filter ?P (concat [?rows, ms_revisions m])) = set (filter ?P (flat ms_revisions view m))"
      unfolding set_filter same by (rule refl)
    show "inj_on revision_order_key (set (filter ?P (flat ms_revisions view m)))"
      using inj by (rule inj_on_subset) auto
  qed
  finally show ?thesis .
qed

section \<open>The view is a provider\<close>

lemma flat_row_parent_root:
  assumes "view_ok view m" shows "row_parent (flat ms_direntry_binds view m) s ROOT_INODE_ID = None"
proof -
  have "filter (\<lambda>row. db_child_inode_id row = ROOT_INODE_ID \<and> is_binding_event row
      \<and> db_committed_seq row \<le> s) (flat ms_direntry_binds view m) = []"
    using assms by (auto simp: view_ok_def filter_empty_conv)
  then show ?thesis by (simp add: row_parent_def latest_parent_binding_for_child_at_seq_def)
qed

lemma view_active_child:
  assumes "view_ok view m" "vr_active_child_binding (view_reads view) p n = Inr y"
  shows "row_slot (flat ms_direntry_binds view m) (mv_visible_seq view) p n = y"
  using assms(2) view_bound_child_scan [OF assms(1), of p n]
  by (auto simp: view_reads_def Let_def active_child_binding_def view_lookups_def row_slot_def)

lemma view_current_parent:
  assumes "view_ok view m" "vr_current_parent_binding_for_child (view_reads view) c = Inr y"
  shows "row_parent (flat ms_direntry_binds view m) (mv_visible_seq view) c = y"
proof (cases "c = ROOT_INODE_ID")
  case True
  with assms(2) flat_row_parent_root [OF assms(1)] show ?thesis
    by (simp add: view_reads_def Let_def current_parent_binding_for_child_def)
next
  case False
  with assms(2) view_latest_parent_scan [OF assms(1) _ False] show ?thesis
    by (auto simp: view_reads_def Let_def current_parent_binding_for_child_def view_lookups_def row_parent_def)
qed

interpretation view_provider: visibility_provider
  "\<lambda>(view, m). view_ok view m"
  "\<lambda>(view, m). view_reads view"
  "\<lambda>(view, m) i. inode_at_seq_scan (flat ms_inodes view m) i (mv_visible_seq view)"
  "\<lambda>(view, m). row_slot (flat ms_direntry_binds view m) (mv_visible_seq view)"
  "\<lambda>(view, m). row_parent (flat ms_direntry_binds view m) (mv_visible_seq view)"
  "\<lambda>(view, m) r. hiding_subtree_tombstone_scan (flat ms_subtree_tombstones view m) r (mv_visible_seq view)"
proof (unfold_locales, goal_cases)
  case (1 s i x)
  then show ?case using view_inode_scan [of "fst s" "snd s" i x]
    by (auto simp: view_reads_def Let_def view_lookups_def split: prod.splits)
next
  case (2 s p n y)
  then show ?case by (auto simp: view_active_child split: prod.splits)
next
  case (3 s c y)
  then show ?case by (auto simp: view_current_parent split: prod.splits)
next
  case (4 s r t)
  then show ?case using view_hiding_scan [of "fst s" "snd s" r t]
    by (auto simp: view_reads_def Let_def view_lookups_def split: prod.splits)
next
  case (5 s)
  then show ?case by (simp add: view_reads_def Let_def with_provided_covering split: prod.splits)
next
  case (6 s)
  then show ?case by (simp add: view_reads_def Let_def with_provided_visible_inode split: prod.splits)
next
  case (7 s p n row)
  then show ?case by (simp add: row_slot_def split: prod.splits)
qed

text \<open>A manifest whose lookups all return makes the view's lookups return.\<close>

definition manifest_total :: "metadata_manifest \<Rightarrow> bool" where
  "manifest_total mf \<longleftrightarrow>
     (\<forall>i s. \<exists>x. mf_inode_at_seq mf i s = Inr x) \<and>
     (\<forall>p n s. \<exists>x. mf_direntry_binds_for_parent_name mf p n s = Inr x) \<and>
     (\<forall>c s. \<exists>x. mf_direntry_binds_for_child mf c s = Inr x) \<and>
     (\<forall>r s. \<exists>x. mf_newest_tombstone_for_root mf r s = Inr x)"

lemma view_reads_total:
  assumes "manifest_total (mv_manifest view)"
  shows "\<exists>x. vr_find_inode (view_reads view) i = Inr x"
    and "\<exists>x. vr_active_child_binding (view_reads view) p n = Inr x"
    and "\<exists>x. vr_current_parent_binding_for_child (view_reads view) c = Inr x"
    and "\<exists>x. vr_find_hiding_subtree_tombstone (view_reads view) r = Inr x"
proof -
  obtain inode_at slots children tombs where total:
    "\<And>i s. mf_inode_at_seq (mv_manifest view) i s = Inr (inode_at i s)"
    "\<And>p n s. mf_direntry_binds_for_parent_name (mv_manifest view) p n s = Inr (slots p n s)"
    "\<And>c s. mf_direntry_binds_for_child (mv_manifest view) c s = Inr (children c s)"
    "\<And>r s. mf_newest_tombstone_for_root (mv_manifest view) r s = Inr (tombs r s)"
    using assms unfolding manifest_total_def by metis
  show "\<exists>x. vr_find_inode (view_reads view) i = Inr x"
    by (simp add: view_reads_def view_lookups_def Let_def view_inode_at_seq_def total split: option.splits)
  show "\<exists>x. vr_active_child_binding (view_reads view) p n = Inr x"
    by (simp add: view_reads_def view_lookups_def Let_def active_child_binding_def view_bound_child_def
          direntry_binds_for_parent_name_def shared_rows_def total)
  show "\<exists>x. vr_current_parent_binding_for_child (view_reads view) c = Inr x"
    by (simp add: view_reads_def view_lookups_def Let_def current_parent_binding_for_child_def
          view_latest_parent_binding_for_child_def direntry_binds_for_child_def shared_rows_def total)
  show "\<exists>x. vr_find_hiding_subtree_tombstone (view_reads view) r = Inr x"
    by (simp add: view_reads_def view_lookups_def Let_def view_hiding_subtree_tombstone_def
          tombstones_for_root_def shared_rows_def total)
qed

interpretation total_view: total_provider
  "\<lambda>(view, m). view_ok view m \<and> manifest_total (mv_manifest view)"
  "\<lambda>(view, m). view_reads view"
  "\<lambda>(view, m) i. inode_at_seq_scan (flat ms_inodes view m) i (mv_visible_seq view)"
  "\<lambda>(view, m). row_slot (flat ms_direntry_binds view m) (mv_visible_seq view)"
  "\<lambda>(view, m). row_parent (flat ms_direntry_binds view m) (mv_visible_seq view)"
  "\<lambda>(view, m) r. hiding_subtree_tombstone_scan (flat ms_subtree_tombstones view m) r (mv_visible_seq view)"
  using view_provider.find_inode view_provider.active_child view_provider.current_parent
    view_provider.find_hiding view_provider.covering_provided view_provider.visible_inode_provided
    view_provider.slot_bound
  by unfold_locales (auto simp: view_reads_total split: prod.splits)

end
