(* ===== verification/Commit_Validation.thy ===== *)
theory Commit_Validation
  imports View_Reads
begin

text \<open>
  Commit validation (\<open>loonfs-core/src/commit\<close>): the operations of \<open>ops.rs\<close>, the checks of
  \<open>validate/checks.rs\<close>, one validator per operation (\<open>validate/operations.rs\<close>) and the
  session that runs a commit's operations in order over an overlay of the rows they would
  persist (\<open>validate/session.rs\<close>).  A validator returns the deltas of its operation and the
  numbering after it.  \<open>has_visible_children\<close>, the single-entry page read, is a parameter.
\<close>

section \<open>Operations\<close>

record resolved_binding =
  rb_parent_inode_id :: inode_id
  rb_name_key :: name_key
  rb_display_name :: display_name
  rb_child_inode_id :: inode_id
  rb_bind_position :: delta_position

datatype new_child = NewDirectory | NewFile content_ref

text \<open>The fields of each operation stand in the order of the source.\<close>

datatype commit_operation =
    CreateDirectory inode_id inode_id display_name
  | CreateFile inode_id inode_id display_name content_ref
  | ReplaceFile inode_id revision_no content_ref "u64 option"
  | RestoreRevision inode_id revision_no revision_no
  | DeleteFile inode_id resolved_binding
  | Rename inode_id resolved_binding inode_id display_name
  | DeleteSubtree inode_id resolved_binding bool
  | Undelete inode_id change_seq inode_id display_name
  | UpdateAttributes inode_id attributes_revision_no attributes
  | UpdateAccess inode_id access_revision_no bool access_grants

section \<open>Numbering\<close>

record commit_numbering =
  cn_next_op_index :: u32
  cn_next_delta_index :: u32

definition default_numbering :: commit_numbering where
  "default_numbering = \<lparr> cn_next_op_index = 0, cn_next_delta_index = 0 \<rparr>"

definition reserve_op_index ::
  "commit_numbering \<Rightarrow> (core_error, u32 \<times> commit_numbering) result" where
  "reserve_op_index n =
     rbind (ok_or (CommitValidation OperationIndexOverflow) (checked_add (cn_next_op_index n) 1))
       (\<lambda>i. Inr (cn_next_op_index n, n \<lparr> cn_next_op_index := i \<rparr>))"

definition reserve_delta_index ::
  "commit_numbering \<Rightarrow> (core_error, u32 \<times> commit_numbering) result" where
  "reserve_delta_index n =
     rbind (ok_or (CommitValidation DeltaIndexOverflow) (checked_add (cn_next_delta_index n) 1))
       (\<lambda>i. Inr (cn_next_delta_index n, n \<lparr> cn_next_delta_index := i \<rparr>))"

definition next_revision_no :: "inode_id \<Rightarrow> revision_no \<Rightarrow> (core_error, revision_no) result" where
  "next_revision_no inode_id base =
     ok_or (CommitValidation (RevisionOverflow inode_id base)) (next_public_ordinal base)"

definition next_attributes_revision_no ::
  "inode_id \<Rightarrow> attributes_revision_no \<Rightarrow> (core_error, attributes_revision_no) result" where
  "next_attributes_revision_no inode_id base =
     ok_or (CommitValidation (UpdateAttributesRevisionOverflow inode_id base))
       (next_public_ordinal base)"

definition next_access_revision_no ::
  "inode_id \<Rightarrow> access_revision_no \<Rightarrow> (core_error, access_revision_no) result" where
  "next_access_revision_no inode_id base =
     ok_or (CommitValidation (UpdateAccessRevisionOverflow inode_id base)) (next_public_ordinal base)"

section \<open>The session\<close>

record validation_session =
  vs_base_view :: metadata_view
  vs_batch_accepted :: metadata_state
  vs_committed_seq :: change_seq
  vs_overlay :: metadata_state
  vs_numbering :: commit_numbering
  vs_commit_id :: commit_id
  vs_actor_id :: actor_id
  vs_committed_at_ms :: u64

definition session_new ::
  "metadata_view \<Rightarrow> metadata_state \<Rightarrow> change_seq \<Rightarrow> commit_id \<Rightarrow> actor_id \<Rightarrow> u64
    \<Rightarrow> validation_session" where
  "session_new base_view batch_accepted committed_seq commit_id actor_id committed_at_ms =
     \<lparr> vs_base_view = base_view, vs_batch_accepted = batch_accepted,
       vs_committed_seq = committed_seq, vs_overlay = default_state,
       vs_numbering = default_numbering, vs_commit_id = commit_id, vs_actor_id = actor_id,
       vs_committed_at_ms = committed_at_ms \<rparr>"

definition session_view :: "validation_session \<Rightarrow> metadata_view" where
  "session_view vs =
     with_overlay (vs_base_view vs) (Some (vs_overlay vs)) (vs_batch_accepted vs)
       (vs_committed_seq vs)"

section \<open>Checks\<close>

definition resolve_recoverable_deletion ::
  "validation_session \<Rightarrow> inode_id \<Rightarrow> change_seq \<Rightarrow> (core_error, subtree_tombstone_record) result" where
  "resolve_recoverable_deletion vs inode_id deletion_seq =
     rbind (err_if (deletion_seq \<le> view_retention_floor_seq (session_view vs))
              (CommitValidation (UndeleteTargetNotDeleted inode_id))) (\<lambda>_.
     rbind (view_recoverable_deletion (session_view vs) inode_id) (\<lambda>deletion.
     rbind (ok_or (CommitValidation (UndeleteTargetNotDeleted inode_id)) deletion) (\<lambda>deletion.
     rbind (err_if (tb_committed_seq deletion \<ge> vs_committed_seq vs)
              (CommitValidation (UndeleteTargetsCurrentCommit inode_id))) (\<lambda>_.
     rbind (err_if (tb_committed_seq deletion \<noteq> deletion_seq)
              (CommitValidation (UndeleteSequenceMismatch inode_id deletion_seq
                 (tb_committed_seq deletion)))) (\<lambda>_.
     Inr deletion)))))"

definition ensure_target_visible ::
  "validation_session \<Rightarrow> inode_id \<Rightarrow> commit_operand \<Rightarrow> (core_error, unit) result" where
  "ensure_target_visible vs inode_id operand =
     rbind (visible_inode (view_reads (session_view vs)) inode_id) (\<lambda>inode.
     err_if (inode = None) (CommitValidation (InodeMissing operand inode_id)))"

definition ensure_inode_attributes_revision_is ::
  "validation_session \<Rightarrow> inode_id \<Rightarrow> attributes_revision_no \<Rightarrow> (core_error, unit) result" where
  "ensure_inode_attributes_revision_is vs inode_id expected =
     rbind (view_attributes (session_view vs) inode_id) (\<lambda>projection.
     let actual = pj_attributes_revision_no projection
     in err_if (actual \<noteq> expected)
          (CommitValidation (UpdateAttributesBaseRevisionMismatch inode_id expected (Some actual))))"

definition ensure_inode_access_revision_is ::
  "validation_session \<Rightarrow> inode_id \<Rightarrow> access_revision_no \<Rightarrow> (core_error, unit) result" where
  "ensure_inode_access_revision_is vs inode_id expected =
     rbind (view_latest_access_revision (session_view vs) inode_id) (\<lambda>row.
     let actual = (case row of Some row \<Rightarrow> xr_access_revision_no row | None \<Rightarrow> 0)
     in err_if (actual \<noteq> expected)
          (CommitValidation (UpdateAccessBaseRevisionMismatch inode_id expected (Some actual))))"

definition resolve_inode_kind ::
  "validation_session \<Rightarrow> inode_id \<Rightarrow> inode_kind \<Rightarrow> commit_operand \<Rightarrow> (core_error, inode_record) result" where
  "resolve_inode_kind vs inode_id expected operand =
     rbind (view_inode_at_seq (session_view vs) inode_id) (\<lambda>inode.
     rbind (ok_or (CommitValidation (InodeMissing operand inode_id)) inode) (\<lambda>inode.
     rbind (err_if (ir_inode_kind inode \<noteq> expected)
              (CommitValidation (InodeWrongKind operand inode_id expected (ir_inode_kind inode)))) (\<lambda>_.
     Inr inode)))"

definition ensure_not_covered_by_tombstone ::
  "validation_session \<Rightarrow> inode_id \<Rightarrow> commit_operand \<Rightarrow> (core_error, unit) result" where
  "ensure_not_covered_by_tombstone vs inode_id operand =
     rbind (covering_subtree_tombstone (view_reads (session_view vs)) inode_id) (\<lambda>tombstone.
     case tombstone of
       Some t \<Rightarrow> Inl (CommitValidation (TargetUnderSubtreeTombstone operand inode_id
                        (tb_root_inode_id t) (tb_committed_seq t)))
     | None \<Rightarrow> Inr ())"

definition resolve_name_absent ::
  "unicode_tables \<Rightarrow> validation_session \<Rightarrow> inode_id \<Rightarrow> display_name \<Rightarrow> inode_id option
    \<Rightarrow> commit_operand \<Rightarrow> (core_error, name_key) result" where
  "resolve_name_absent u vs parent_inode_id display_name rebinding_inode_id operand =
     rbind (resolve_inode_kind vs parent_inode_id Directory operand) (\<lambda>_.
     let name_key = name_key_for_display_name u display_name
     in rbind (visible_child (view_reads (session_view vs)) parent_inode_id name_key) (\<lambda>existing.
        case existing of
          Some existing \<Rightarrow>
            if rebinding_inode_id \<noteq> Some (db_child_inode_id existing)
            then Inl (CommitValidation (NameTaken operand parent_inode_id name_key
                        (db_child_inode_id existing)))
            else Inr name_key
        | None \<Rightarrow> Inr name_key))"

definition ensure_child_unbound ::
  "validation_session \<Rightarrow> inode_id \<Rightarrow> delta_position option \<Rightarrow> (core_error, unit) result" where
  "ensure_child_unbound vs child_inode_id unbinding =
     rbind (current_parent_binding_for_child (view_reads (session_view vs)) child_inode_id)
       (\<lambda>current.
         case current of
           Some current \<Rightarrow>
             if Some (db_bind_position current) \<noteq> unbinding
             then Inl (NamespaceCorrupt (BindsBoundInode child_inode_id (db_name_key current)
                         (db_parent_inode_id current)))
             else Inr ()
         | None \<Rightarrow> Inr ())"

definition ensure_source_binding ::
  "validation_session \<Rightarrow> resolved_binding \<Rightarrow> (core_error, unit) result" where
  "ensure_source_binding vs expected =
     rbind (visible_child (view_reads (session_view vs)) (rb_parent_inode_id expected)
              (rb_name_key expected)) (\<lambda>existing.
     rbind (ok_or (CommitValidation (BindingPreconditionMissing (rb_parent_inode_id expected)
                     (rb_name_key expected))) existing) (\<lambda>existing.
     err_if (db_parent_inode_id existing \<noteq> rb_parent_inode_id expected
               \<or> db_name_key existing \<noteq> rb_name_key expected
               \<or> db_child_inode_id existing \<noteq> rb_child_inode_id expected
               \<or> db_bind_position existing \<noteq> rb_bind_position expected)
       (CommitValidation (BindingPreconditionMismatch
          (NameUnderParent (rb_name_key expected) (rb_parent_inode_id expected)) (Some (rb_child_inode_id expected))
          (Some (db_child_inode_id existing))))))"

definition ensure_file_base_revision_is ::
  "validation_session \<Rightarrow> inode_id \<Rightarrow> revision_no \<Rightarrow> commit_operand \<Rightarrow> (core_error, unit) result" where
  "ensure_file_base_revision_is vs inode_id expected operand =
     rbind (resolve_inode_kind vs inode_id File operand) (\<lambda>_.
     rbind (view_latest_revision_record (session_view vs) inode_id) (\<lambda>row.
     let actual = map_option rv_revision_no row
     in err_if (actual \<noteq> Some expected)
          (CommitValidation (BaseRevisionMismatch inode_id expected actual))))"

definition resolve_current_binding ::
  "validation_session \<Rightarrow> inode_id \<Rightarrow> commit_operand \<Rightarrow> (core_error, direntry_binding_record) result" where
  "resolve_current_binding vs inode_id operand =
     rbind (current_parent_binding_for_child (view_reads (session_view vs)) inode_id) (\<lambda>row.
     ok_or (CommitValidation (InodeMissing operand inode_id)) row)"

definition resolve_revision_summary ::
  "validation_session \<Rightarrow> inode_record \<Rightarrow> (core_error, revision_summary option) result" where
  "resolve_revision_summary vs inode =
     (if ir_inode_kind inode = Directory then Inr None
      else rbind (view_latest_revision_record (session_view vs) (ir_inode_id inode)) (\<lambda>row.
           rbind (ok_or (NamespaceCorrupt (FileHasNoRevision (ir_inode_id inode))) row) (\<lambda>row.
           Inr (Some \<lparr> rs_revision_no = rv_revision_no row,
                       rs_size_bytes = ct_size_bytes (rv_content_ref row),
                       rs_committed_by = rv_committed_by row,
                       rs_committed_at_ms = rv_committed_at_ms row \<rparr>))))"

definition resolve_restore_source_revision ::
  "validation_session \<Rightarrow> inode_id \<Rightarrow> revision_no \<Rightarrow> (core_error, revision_record) result" where
  "resolve_restore_source_revision vs inode_id source_revision_no =
     (let missing = CommitValidation (RestoreRevisionSourceRevisionMissing inode_id source_revision_no);
          view = session_view vs
      in rbind (view_revision_at_head view inode_id source_revision_no) (\<lambda>row.
         rbind (ok_or missing row) (\<lambda>revision.
         let floor_seq = view_retention_floor_seq view
         in if rv_committed_seq revision \<le> floor_seq
            then rbind (view_latest_revision_record (view_at_seq view floor_seq) inode_id) (\<lambda>newest.
                 rbind (err_if (case newest of
                                  None \<Rightarrow> True
                                | Some newest \<Rightarrow> rv_revision_no newest \<noteq> rv_revision_no revision)
                          missing) (\<lambda>_.
                 Inr revision))
            else Inr revision)))"

definition ensure_rename_does_not_cycle ::
  "validation_session \<Rightarrow> inode_record \<Rightarrow> inode_id \<Rightarrow> (core_error, unit) result" where
  "ensure_rename_does_not_cycle vs inode new_parent =
     (if ir_inode_kind inode = Directory
      then rbind (would_create_directory_cycle (view_reads (session_view vs)) (ir_inode_id inode)
                    new_parent) (\<lambda>cycle.
           err_if cycle
             (CommitValidation (RenameWouldCycleDirectory (ir_inode_id inode) new_parent)))
      else Inr ())"

section \<open>Deltas\<close>

definition revision_delta ::
  "commit_numbering \<Rightarrow> direntry_binding_record \<Rightarrow> revision_no \<Rightarrow> content_ref \<Rightarrow> u64 option
    \<Rightarrow> (core_error, wal_delta \<times> commit_numbering) result" where
  "revision_delta n edge revision_no content_ref append_offset =
     rbind (reserve_delta_index n) (\<lambda>(delta_index, n).
     rbind (ok_or (Panicked ''a current binding should be bound'') (db_display_name edge))
       (\<lambda>display_name.
     Inr (AppendFileRevision delta_index (db_child_inode_id edge) (db_parent_inode_id edge)
            (db_name_key edge) display_name (db_bind_position edge) (db_child_created_by edge)
            (db_child_created_at_ms edge) revision_no content_ref None append_offset, n)))"

definition unbind_delta ::
  "commit_numbering \<Rightarrow> resolved_binding \<Rightarrow> inode_record
    \<Rightarrow> (core_error, wal_delta \<times> commit_numbering) result" where
  "unbind_delta n binding inode =
     rbind (reserve_delta_index n) (\<lambda>(delta_index, n).
     Inr (UnbindDirentry delta_index (rb_parent_inode_id binding) (rb_name_key binding)
            (rb_display_name binding) (rb_child_inode_id binding) (ir_inode_kind inode)
            (ir_committed_by inode) (ir_committed_at_ms inode) (rb_bind_position binding), n))"

definition delete_deltas ::
  "commit_numbering \<Rightarrow> inode_record \<Rightarrow> resolved_binding
    \<Rightarrow> (core_error, wal_delta list \<times> commit_numbering) result" where
  "delete_deltas n inode binding =
     rbind (unbind_delta n binding inode) (\<lambda>(unbind, n).
     rbind (reserve_delta_index n) (\<lambda>(delta_index, n).
     Inr ([unbind,
           TombstoneSubtree delta_index (ir_inode_id inode) (ir_inode_kind inode)
             \<lparr> dl_parent_inode_id = rb_parent_inode_id binding,
               dl_name_key = rb_name_key binding,
               dl_display_name = rb_display_name binding \<rparr>], n)))"

section \<open>Validators\<close>

definition validate_create ::
  "unicode_tables \<Rightarrow> validation_session \<Rightarrow> inode_id \<Rightarrow> inode_id \<Rightarrow> display_name \<Rightarrow> new_child
    \<Rightarrow> (core_error, wal_delta list \<times> commit_numbering) result" where
  "validate_create u vs child_inode_id parent_inode_id display_name child =
     rbind (resolve_name_absent u vs parent_inode_id display_name None CreateParent) (\<lambda>name_key.
     rbind (ensure_child_unbound vs child_inode_id None) (\<lambda>_.
     rbind (ensure_not_covered_by_tombstone vs parent_inode_id CreateParent) (\<lambda>_.
     let (inode_kind, revision) =
           (case child of
              NewDirectory \<Rightarrow> (Directory, None)
            | NewFile content_ref \<Rightarrow>
                (File, Some \<lparr> rs_revision_no = 1, rs_size_bytes = ct_size_bytes content_ref,
                              rs_committed_by = vs_actor_id vs,
                              rs_committed_at_ms = vs_committed_at_ms vs \<rparr>))
     in rbind (reserve_delta_index (vs_numbering vs)) (\<lambda>(create_index, n).
        rbind (reserve_delta_index n) (\<lambda>(bind_index, n).
        let bind_position = DeltaPosition (vs_committed_seq vs) bind_index;
            deltas =
              [CreateInode create_index child_inode_id inode_kind,
               BindDirentry bind_index parent_inode_id name_key display_name child_inode_id
                 inode_kind (vs_actor_id vs) (vs_committed_at_ms vs) revision]
        in case child of
             NewDirectory \<Rightarrow> Inr (deltas, n)
           | NewFile content_ref \<Rightarrow>
               rbind (reserve_delta_index n) (\<lambda>(delta_index, n).
               Inr (deltas @
                    [AppendFileRevision delta_index child_inode_id parent_inode_id name_key
                       display_name bind_position (vs_actor_id vs) (vs_committed_at_ms vs) 1
                       content_ref None None], n)))))))"

definition validate_replace_file ::
  "validation_session \<Rightarrow> inode_id \<Rightarrow> revision_no \<Rightarrow> content_ref \<Rightarrow> u64 option
    \<Rightarrow> (core_error, wal_delta list \<times> commit_numbering) result" where
  "validate_replace_file vs inode_id base_revision_no content_ref append_offset =
     rbind (ensure_file_base_revision_is vs inode_id base_revision_no ReplaceTarget) (\<lambda>_.
     rbind (next_revision_no inode_id base_revision_no) (\<lambda>revision_no.
     rbind (ensure_not_covered_by_tombstone vs inode_id ReplaceTarget) (\<lambda>_.
     rbind (resolve_current_binding vs inode_id ReplaceTarget) (\<lambda>edge.
     rbind (revision_delta (vs_numbering vs) edge revision_no content_ref append_offset)
       (\<lambda>(delta, n).
     Inr ([delta], n))))))"

definition validate_restore_revision ::
  "validation_session \<Rightarrow> inode_id \<Rightarrow> revision_no \<Rightarrow> revision_no
    \<Rightarrow> (core_error, wal_delta list \<times> commit_numbering) result" where
  "validate_restore_revision vs inode_id source_revision_no base_revision_no =
     rbind (ensure_file_base_revision_is vs inode_id base_revision_no RestoreTarget) (\<lambda>_.
     rbind (resolve_restore_source_revision vs inode_id source_revision_no) (\<lambda>source_revision.
     rbind (next_revision_no inode_id base_revision_no) (\<lambda>revision_no.
     rbind (ensure_not_covered_by_tombstone vs inode_id RestoreTarget) (\<lambda>_.
     rbind (resolve_current_binding vs inode_id RestoreTarget) (\<lambda>edge.
     rbind (revision_delta (vs_numbering vs) edge revision_no (rv_content_ref source_revision) None)
       (\<lambda>(delta, n).
     Inr ([delta], n)))))))"

definition validate_delete_file ::
  "validation_session \<Rightarrow> inode_id \<Rightarrow> resolved_binding
    \<Rightarrow> (core_error, wal_delta list \<times> commit_numbering) result" where
  "validate_delete_file vs inode_id source_binding =
     rbind (ensure_source_binding vs source_binding) (\<lambda>_.
     rbind (resolve_inode_kind vs inode_id File DeleteTarget) (\<lambda>inode.
     rbind (ensure_not_covered_by_tombstone vs inode_id DeleteTarget) (\<lambda>_.
     delete_deltas (vs_numbering vs) inode source_binding)))"

definition validate_rename ::
  "unicode_tables \<Rightarrow> validation_session \<Rightarrow> inode_id \<Rightarrow> resolved_binding \<Rightarrow> inode_id \<Rightarrow> display_name
    \<Rightarrow> (core_error, wal_delta list \<times> commit_numbering) result" where
  "validate_rename u vs inode_id source_binding new_parent_inode_id new_display_name =
     rbind (ensure_source_binding vs source_binding) (\<lambda>_.
     rbind (view_inode_at_seq (session_view vs) inode_id) (\<lambda>inode.
     rbind (ok_or (CommitValidation (InodeMissing RenameSource inode_id)) inode) (\<lambda>inode.
     rbind (resolve_name_absent u vs new_parent_inode_id new_display_name (Some inode_id)
              RenameTargetParent) (\<lambda>new_name_key.
     rbind (ensure_child_unbound vs inode_id (Some (rb_bind_position source_binding))) (\<lambda>_.
     rbind (ensure_rename_does_not_cycle vs inode new_parent_inode_id) (\<lambda>_.
     rbind (ensure_not_covered_by_tombstone vs inode_id RenameSource) (\<lambda>_.
     rbind (ensure_not_covered_by_tombstone vs new_parent_inode_id RenameTargetParent) (\<lambda>_.
     rbind (resolve_revision_summary vs inode) (\<lambda>revision.
     rbind (unbind_delta (vs_numbering vs) source_binding inode) (\<lambda>(unbind, n).
     rbind (reserve_delta_index n) (\<lambda>(delta_index, n).
     Inr ([unbind,
           BindDirentry delta_index new_parent_inode_id new_name_key new_display_name inode_id
             (ir_inode_kind inode) (ir_committed_by inode) (ir_committed_at_ms inode) revision],
          n))))))))))))"

definition validate_delete_subtree ::
  "(metadata_view \<Rightarrow> inode_id \<Rightarrow> (core_error, bool) result) \<Rightarrow> validation_session \<Rightarrow> inode_id
    \<Rightarrow> resolved_binding \<Rightarrow> bool \<Rightarrow> (core_error, wal_delta list \<times> commit_numbering) result" where
  "validate_delete_subtree has_visible_children vs root_inode_id source_binding require_empty =
     rbind (ensure_source_binding vs source_binding) (\<lambda>_.
     rbind (resolve_inode_kind vs root_inode_id Directory
              (if require_empty then EmptyDirectoryTarget else SubtreeRoot)) (\<lambda>inode.
     rbind (if require_empty
            then rbind (has_visible_children (session_view vs) root_inode_id) (\<lambda>some.
                 err_if some (CommitValidation (DirectoryNotEmpty root_inode_id)))
            else Inr ()) (\<lambda>_.
     rbind (ensure_not_covered_by_tombstone vs root_inode_id SubtreeRoot) (\<lambda>_.
     delete_deltas (vs_numbering vs) inode source_binding))))"

definition validate_undelete ::
  "unicode_tables \<Rightarrow> validation_session \<Rightarrow> inode_id \<Rightarrow> change_seq \<Rightarrow> inode_id \<Rightarrow> display_name
    \<Rightarrow> (core_error, wal_delta list \<times> commit_numbering) result" where
  "validate_undelete u vs inode_id deletion_seq parent_inode_id display_name =
     rbind (view_inode_at_seq (session_view vs) inode_id) (\<lambda>inode.
     rbind (ok_or (CommitValidation (InodeMissing UndeleteTarget inode_id)) inode) (\<lambda>inode.
     rbind (resolve_recoverable_deletion vs inode_id deletion_seq) (\<lambda>deletion.
     rbind (resolve_name_absent u vs parent_inode_id display_name None UndeleteTarget) (\<lambda>name_key.
     rbind (ensure_child_unbound vs inode_id None) (\<lambda>_.
     rbind (ensure_not_covered_by_tombstone vs parent_inode_id UndeleteTarget) (\<lambda>_.
     rbind (resolve_revision_summary vs inode) (\<lambda>revision.
     rbind (reserve_delta_index (vs_numbering vs)) (\<lambda>(revoke_index, n).
     rbind (reserve_delta_index n) (\<lambda>(bind_index, n).
     Inr ([RevokeSubtreeTombstone revoke_index inode_id (tb_position deletion),
           BindDirentry bind_index parent_inode_id name_key display_name inode_id
             (ir_inode_kind inode) (ir_committed_by inode) (ir_committed_at_ms inode) revision],
          n))))))))))"

definition validate_update_attributes ::
  "validation_session \<Rightarrow> inode_id \<Rightarrow> attributes_revision_no \<Rightarrow> attributes
    \<Rightarrow> (core_error, wal_delta list \<times> commit_numbering) result" where
  "validate_update_attributes vs inode_id base_attributes_revision_no attributes =
     rbind (ensure_target_visible vs inode_id AttributeTarget) (\<lambda>_.
     rbind (ensure_inode_attributes_revision_is vs inode_id base_attributes_revision_no) (\<lambda>_.
     rbind (next_attributes_revision_no inode_id base_attributes_revision_no)
       (\<lambda>attributes_revision_no.
     rbind (reserve_delta_index (vs_numbering vs)) (\<lambda>(delta_index, n).
     Inr ([AppendAttributesRevision delta_index inode_id attributes_revision_no attributes], n)))))"

definition validate_update_access ::
  "validation_session \<Rightarrow> inode_id \<Rightarrow> access_revision_no \<Rightarrow> bool \<Rightarrow> access_grants
    \<Rightarrow> (core_error, wal_delta list \<times> commit_numbering) result" where
  "validate_update_access vs inode_id base_access_revision_no boundary grants =
     rbind (ensure_target_visible vs inode_id AccessTarget) (\<lambda>_.
     rbind (ensure_inode_access_revision_is vs inode_id base_access_revision_no) (\<lambda>_.
     rbind (next_access_revision_no inode_id base_access_revision_no) (\<lambda>access_revision_no.
     rbind (reserve_delta_index (vs_numbering vs)) (\<lambda>(delta_index, n).
     Inr ([AppendAccessRevision delta_index inode_id access_revision_no boundary grants], n)))))"

fun validate_operation ::
  "unicode_tables \<Rightarrow> (metadata_view \<Rightarrow> inode_id \<Rightarrow> (core_error, bool) result) \<Rightarrow> validation_session
    \<Rightarrow> commit_operation \<Rightarrow> (core_error, wal_delta list \<times> commit_numbering) result" where
  "validate_operation u hvc vs (CreateDirectory child parent name) =
     validate_create u vs child parent name NewDirectory"
| "validate_operation u hvc vs (CreateFile child parent name content_ref) =
     validate_create u vs child parent name (NewFile content_ref)"
| "validate_operation u hvc vs (ReplaceFile inode_id base content_ref append_offset) =
     validate_replace_file vs inode_id base content_ref append_offset"
| "validate_operation u hvc vs (RestoreRevision inode_id source base) =
     validate_restore_revision vs inode_id source base"
| "validate_operation u hvc vs (DeleteFile inode_id binding) =
     validate_delete_file vs inode_id binding"
| "validate_operation u hvc vs (Rename inode_id binding parent name) =
     validate_rename u vs inode_id binding parent name"
| "validate_operation u hvc vs (DeleteSubtree root binding require_empty) =
     validate_delete_subtree hvc vs root binding require_empty"
| "validate_operation u hvc vs (Undelete inode_id deletion_seq parent name) =
     validate_undelete u vs inode_id deletion_seq parent name"
| "validate_operation u hvc vs (UpdateAttributes inode_id base attributes) =
     validate_update_attributes vs inode_id base attributes"
| "validate_operation u hvc vs (UpdateAccess inode_id base boundary grants) =
     validate_update_access vs inode_id base boundary grants"

section \<open>The commit\<close>

text \<open>The layout a revision of a planned reference carries, put into its delta.\<close>

fun carry_layout :: "(content_ref \<Rightarrow> content_layout option) \<Rightarrow> wal_delta \<Rightarrow> wal_delta" where
  "carry_layout revision_layout
     (AppendFileRevision delta_index inode_id parent name_key display_name bind_position
        created_by created_at_ms revision_no content_ref layout append_offset) =
     AppendFileRevision delta_index inode_id parent name_key display_name bind_position
       created_by created_at_ms revision_no content_ref
       (case revision_layout content_ref of Some carried \<Rightarrow> Some carried | None \<Rightarrow> layout)
       append_offset"
| "carry_layout revision_layout delta = delta"

definition overlay_deltas :: "wal_delta list \<Rightarrow> validation_session \<Rightarrow> metadata_state" where
  "overlay_deltas deltas vs =
     foldl (\<lambda>st delta. apply_committed_wal_delta (vs_committed_seq vs) (vs_commit_id vs)
                          (vs_actor_id vs) (vs_committed_at_ms vs) delta st)
       (vs_overlay vs) deltas"

text \<open>One turn of the loop: the operation's deltas and the session after it.\<close>

definition validate_step ::
  "unicode_tables \<Rightarrow> (metadata_view \<Rightarrow> inode_id \<Rightarrow> (core_error, bool) result)
    \<Rightarrow> (content_ref \<Rightarrow> content_layout option) \<Rightarrow> validation_session \<Rightarrow> commit_operation
    \<Rightarrow> (core_error, wal_commit_delta list \<times> validation_session) result" where
  "validate_step u hvc revision_layout vs op1 =
     rbind (reserve_op_index (vs_numbering vs)) (\<lambda>(op_index, n).
     let vs = vs \<lparr> vs_numbering := n \<rparr>
     in rbind (validate_operation u hvc vs op1) (\<lambda>(deltas, n).
        let operation_deltas = map (carry_layout revision_layout) deltas
        in Inr (map (\<lambda>delta. \<lparr> wd_semantic_operation_index = op_index, wd_delta = delta \<rparr>)
                  operation_deltas,
                vs \<lparr> vs_numbering := n, vs_overlay := overlay_deltas operation_deltas vs \<rparr>)))"

fun validate_ops ::
  "unicode_tables \<Rightarrow> (metadata_view \<Rightarrow> inode_id \<Rightarrow> (core_error, bool) result)
    \<Rightarrow> (content_ref \<Rightarrow> content_layout option) \<Rightarrow> validation_session \<Rightarrow> commit_operation list
    \<Rightarrow> (core_error, wal_commit_delta list \<times> validation_session) result" where
  "validate_ops u hvc revision_layout vs [] = Inr ([], vs)"
| "validate_ops u hvc revision_layout vs (op1 # ops) =
     rbind (validate_step u hvc revision_layout vs op1) (\<lambda>(deltas, vs).
     rbind (validate_ops u hvc revision_layout vs ops) (\<lambda>(more, vs).
     Inr (deltas @ more, vs)))"

end
