(* ===== verification/Namespace_Tree.thy ===== *)
theory Namespace_Tree
  imports State_Reads Wal_Tail
begin

text \<open>
  The abstract namespace that the rows of a history stand for: which slots hold which
  child, where each inode is bound, which subtrees are deleted and which kind each inode
  has.  A delta moves the tree by one step, rows and tree move together, and the steps a
  valid commit takes keep the tree a tree.
\<close>

section \<open>The tree\<close>

text \<open>
  A slot holds its child with the position of the bind and the display name; the parent map
  is the same edge seen from the child.
\<close>

record tree =
  t_slot :: "inode_id \<times> name_key \<rightharpoonup> inode_id \<times> delta_position \<times> display_name"
  t_parent :: "inode_id \<rightharpoonup> (inode_id \<times> name_key) \<times> delta_position \<times> display_name"
  t_hidden :: "inode_id set"
  t_kind :: "inode_id \<rightharpoonup> inode_kind"

definition tree_edges :: "tree \<Rightarrow> (inode_id \<times> inode_id) set" where
  "tree_edges t = {(c, p). \<exists>n b. t_parent t c = Some ((p, n), b)}"

definition tree_ancestors :: "tree \<Rightarrow> inode_id \<Rightarrow> inode_id set" where
  "tree_ancestors t i = (tree_edges t)\<^sup>* `` {i}"

definition tree_covered :: "tree \<Rightarrow> inode_id \<Rightarrow> bool" where
  "tree_covered t i \<longleftrightarrow> (\<exists>a\<in>tree_ancestors t i. a \<in> t_hidden t)"

definition tree_visible :: "tree \<Rightarrow> inode_id \<Rightarrow> bool" where
  "tree_visible t i \<longleftrightarrow> t_kind t i \<noteq> None \<and> \<not> tree_covered t i"

fun tree_step :: "change_seq \<Rightarrow> wal_delta \<Rightarrow> tree \<Rightarrow> tree" where
  "tree_step s (CreateInode _ i k) t = t \<lparr> t_kind := (t_kind t)(i \<mapsto> k) \<rparr>"
| "tree_step s (BindDirentry di p n d c _ _ _ _) t =
     t \<lparr> t_slot := (t_slot t)((p, n) \<mapsto> (c, DeltaPosition s di, d)),
         t_parent := (t_parent t)(c \<mapsto> ((p, n), DeltaPosition s di, d)) \<rparr>"
| "tree_step s (UnbindDirentry _ p n _ c _ _ _ _) t =
     t \<lparr> t_slot := (t_slot t)((p, n) := None), t_parent := (t_parent t)(c := None) \<rparr>"
| "tree_step s (AppendFileRevision _ i p n d b _ _ _ _ _ _) t =
     t \<lparr> t_slot := (t_slot t)((p, n) \<mapsto> (i, b, d)) \<rparr>"
| "tree_step s (TombstoneSubtree _ r _ _) t = t \<lparr> t_hidden := insert r (t_hidden t) \<rparr>"
| "tree_step s (RevokeSubtreeTombstone _ r _) t = t \<lparr> t_hidden := t_hidden t - {r} \<rparr>"
| "tree_step s (AppendAttributesRevision _ _ _ _) t = t"
| "tree_step s (AppendAccessRevision _ _ _ _ _) t = t"

section \<open>What a tree promises\<close>

text \<open>
  The slots and the parents are the same edges, no inode is its own ancestor, a deleted
  inode exists and is bound nowhere, edges lead from existing inodes to directories, and
  the root is a directory that is neither bound nor deleted.
\<close>

definition tree_inv :: "tree \<Rightarrow> bool" where
  "tree_inv t \<longleftrightarrow>
     (\<forall>e c b. t_slot t e = Some (c, b) \<longleftrightarrow> t_parent t c = Some (e, b)) \<and>
     acyclic (tree_edges t) \<and>
     (\<forall>r\<in>t_hidden t. t_parent t r = None \<and> t_kind t r \<noteq> None) \<and>
     (\<forall>(c, p)\<in>tree_edges t. t_kind t c \<noteq> None \<and> t_kind t p = Some Directory) \<and>
     t_kind t ROOT_INODE_ID = Some Directory \<and> t_parent t ROOT_INODE_ID = None \<and>
     ROOT_INODE_ID \<notin> t_hidden t"

lemma tree_invD:
  assumes "tree_inv t"
  shows "t_slot t e = Some (c, b) \<longleftrightarrow> t_parent t c = Some (e, b)"
    and "acyclic (tree_edges t)"
    and "r \<in> t_hidden t \<Longrightarrow> t_parent t r = None \<and> t_kind t r \<noteq> None"
    and "(c, p) \<in> tree_edges t \<Longrightarrow> t_kind t c \<noteq> None \<and> t_kind t p = Some Directory"
    and "t_kind t ROOT_INODE_ID = Some Directory" "t_parent t ROOT_INODE_ID = None"
    and "ROOT_INODE_ID \<notin> t_hidden t"
  using assms unfolding tree_inv_def by blast+

lemma tree_edges_bind:
  "t_parent t c = None \<Longrightarrow> tree_edges (tree_step s (BindDirentry di p n d c k by1 ms rv) t) =
     insert (c, p) (tree_edges t)"
  by (auto simp: tree_edges_def split: if_splits)

lemma tree_edges_unbind:
  "tree_edges (tree_step s (UnbindDirentry di p n d c k by1 ms target) t) =
     tree_edges t - {c} \<times> UNIV"
  by (auto simp: tree_edges_def split: if_splits)

lemma tree_ancestors_refl [simp]: "i \<in> tree_ancestors t i"
  by (simp add: tree_ancestors_def)

text \<open>Above an inode there are only directories that exist.\<close>

lemma tree_ancestor_kind:
  assumes "tree_inv t" "a \<in> tree_ancestors t i" "a \<noteq> i"
  shows "t_kind t a = Some Directory"
proof -
  from assms(2,3) obtain b where "(b, a) \<in> tree_edges t"
    unfolding tree_ancestors_def by (auto elim: rtranclE)
  with assms(1) show ?thesis by (blast dest: tree_invD(4))
qed

lemma tree_ancestors_unfold:
  assumes "t_parent t c = Some ((p, n), b)"
  shows "tree_ancestors t c = insert c (tree_ancestors t p)"
proof -
  have "(c, x) \<in> tree_edges t \<longleftrightarrow> x = p" for x using assms by (auto simp: tree_edges_def)
  then show ?thesis
    unfolding tree_ancestors_def by (auto elim: converse_rtranclE intro: converse_rtrancl_into_rtrancl)
qed

lemma tree_ancestors_root:
  assumes "t_parent t c = None" shows "tree_ancestors t c = {c}"
proof -
  have "(c, x) \<notin> tree_edges t" for x using assms by (simp add: tree_edges_def)
  then show ?thesis unfolding tree_ancestors_def by (auto elim: converse_rtranclE)
qed

lemma tree_ancestors_mono: "tree_edges t \<subseteq> tree_edges t' \<Longrightarrow> tree_ancestors t i \<subseteq> tree_ancestors t' i"
  unfolding tree_ancestors_def by (meson Image_mono order_refl rtrancl_mono)

lemma tree_covered_mono:
  "tree_edges t \<subseteq> tree_edges t' \<Longrightarrow> t_hidden t \<subseteq> t_hidden t' \<Longrightarrow> tree_covered t i \<Longrightarrow> tree_covered t' i"
  using tree_ancestors_mono [of t t' i] by (auto simp: tree_covered_def)

text \<open>A new edge out of an inode that is not above another leaves the other's ancestors alone.\<close>

lemma tree_ancestors_insert:
  assumes "tree_edges t' = insert (c, p) (tree_edges t)" "c \<notin> tree_ancestors t i"
  shows "tree_ancestors t' i = tree_ancestors t i"
proof
  show "tree_ancestors t' i \<subseteq> tree_ancestors t i"
  proof
    fix a assume "a \<in> tree_ancestors t' i"
    then have "(i, a) \<in> (tree_edges t')\<^sup>*" by (simp add: tree_ancestors_def)
    then show "a \<in> tree_ancestors t i"
    proof induction
      case base
      then show ?case by simp
    next
      case (step y z)
      with assms have "(y, z) \<in> tree_edges t" by auto
      with step(3) show ?case by (auto simp: tree_ancestors_def intro: rtrancl_into_rtrancl)
    qed
  qed
  show "tree_ancestors t i \<subseteq> tree_ancestors t' i" using assms(1) by (intro tree_ancestors_mono) blast
qed

lemma tree_covered_child:
  assumes "t_parent t c = Some ((p, n), b)"
  shows "tree_covered t c \<longleftrightarrow> c \<in> t_hidden t \<or> tree_covered t p"
  by (simp add: tree_covered_def tree_ancestors_unfold [OF assms])

section \<open>Steps that keep the promises\<close>

lemma tree_inv_create:
  assumes "tree_inv t" "t_kind t i = None"
  shows "tree_inv (tree_step s (CreateInode di i k) t)"
proof -
  have "tree_edges (tree_step s (CreateInode di i k) t) = tree_edges t" by (simp add: tree_edges_def)
  moreover have "(i, x) \<notin> tree_edges t" "(x, i) \<notin> tree_edges t" for x
    using tree_invD(4) [OF assms(1), of i x] tree_invD(4) [OF assms(1), of x i] assms(2) by auto
  moreover have "i \<noteq> ROOT_INODE_ID" using tree_invD(5) [OF assms(1)] assms(2) by auto
  ultimately show ?thesis using assms(1) unfolding tree_inv_def by auto
qed

lemma tree_inv_unbind:
  assumes "tree_inv t" "t_slot t (p, n) = Some (c, b)"
  shows "tree_inv (tree_step s (UnbindDirentry di p n d c k by1 ms target) t)"
proof -
  let ?t = "tree_step s (UnbindDirentry di p n d c k by1 ms target) t"
  have parent: "t_parent t c = Some ((p, n), b)" using assms tree_invD(1) by blast
  have "t_slot ?t e = Some (x, b') \<longleftrightarrow> t_parent ?t x = Some (e, b')" for e x b'
    using tree_invD(1) [OF assms(1), of e x b'] assms(2) parent by auto
  moreover have sub: "tree_edges ?t \<subseteq> tree_edges t" unfolding tree_edges_unbind by blast
  then have "acyclic (tree_edges ?t)" by (rule acyclic_subset [OF tree_invD(2) [OF assms(1)]])
  ultimately show ?thesis using assms(1) sub unfolding tree_inv_def by auto
qed

lemma tree_inv_bind:
  assumes "tree_inv t" "t_slot t (p, n) = None" "t_parent t c = None" "t_kind t p = Some Directory"
    "t_kind t c \<noteq> None" "c \<notin> t_hidden t" "c \<noteq> ROOT_INODE_ID" "c \<notin> tree_ancestors t p"
  shows "tree_inv (tree_step s (BindDirentry di p n d c k by1 ms rv) t)"
proof -
  let ?t = "tree_step s (BindDirentry di p n d c k by1 ms rv) t"
  note edges = tree_edges_bind [OF assms(3), of s di p n d k by1 ms rv]
  have "t_slot ?t e = Some (x, b) \<longleftrightarrow> t_parent ?t x = Some (e, b)" for e x b
    using tree_invD(1) [OF assms(1), of e x b] assms(2,3) by auto
  moreover have "acyclic (tree_edges ?t)"
    unfolding edges acyclic_insert using tree_invD(2) [OF assms(1)] assms(8)
    by (simp add: tree_ancestors_def)
  moreover have "\<forall>(x, y)\<in>tree_edges ?t. t_kind ?t x \<noteq> None \<and> t_kind ?t y = Some Directory"
    unfolding edges using tree_invD(4) [OF assms(1)] assms(4,5) by auto
  ultimately show ?thesis using assms(1,6,7) unfolding tree_inv_def by auto
qed

lemma tree_step_revision:
  assumes "t_slot t (p, n) = Some (i, b, d)"
  shows "tree_step s (AppendFileRevision di i p n d b by1 ms rn cr ly off) t = t"
  using assms by (simp add: fun_upd_idem)

lemma tree_inv_hide:
  assumes "tree_inv t" "t_parent t r = None" "r \<noteq> ROOT_INODE_ID" "t_kind t r \<noteq> None"
  shows "tree_inv (tree_step s (TombstoneSubtree di r k del) t)"
  using assms unfolding tree_inv_def by (auto simp: tree_edges_def)

lemma tree_inv_revoke:
  assumes "tree_inv t"
  shows "tree_inv (tree_step s (RevokeSubtreeTombstone di r target) t)"
  using assms unfolding tree_inv_def by (auto simp: tree_edges_def)

section \<open>The tree of a history of rows\<close>

definition binding_edge :: "direntry_binding_record \<Rightarrow> delta_position \<times> display_name" where
  "binding_edge row = (db_bind_position row, the_default [] (db_display_name row))"

definition core_tree ::
  "inode_record list \<Rightarrow> direntry_binding_record list \<Rightarrow> subtree_tombstone_record list \<Rightarrow> change_seq
    \<Rightarrow> tree" where
  "core_tree inodes binds tombstones s =
     \<lparr> t_slot = (\<lambda>(p, n). map_option (\<lambda>row. (db_child_inode_id row, binding_edge row))
                            (row_slot binds s p n)),
       t_parent = (\<lambda>c. map_option (\<lambda>row. ((db_parent_inode_id row, db_name_key row), binding_edge row))
                         (row_parent binds s c)),
       t_hidden = {r. hiding_subtree_tombstone_scan tombstones r s \<noteq> None},
       t_kind = (\<lambda>i. map_option ir_inode_kind (inode_at_seq_scan inodes i s)) \<rparr>"

text \<open>The rows a delta appends, whatever it is applied to.\<close>

abbreviation delta_rows :: "(metadata_state \<Rightarrow> 'a list) \<Rightarrow> change_seq \<Rightarrow> commit_id \<Rightarrow> actor_id \<Rightarrow> u64
    \<Rightarrow> wal_delta \<Rightarrow> 'a list" where
  "delta_rows sel s cid actor ms d \<equiv> sel (apply_committed_wal_delta s cid actor ms d default_state)"

text \<open>
  A history up to a position: positions increase and lie below it.  Every row of such a
  history is at or below the position's sequence, so the newest row is the last one.
\<close>

definition history_below ::
  "direntry_binding_record list \<Rightarrow> subtree_tombstone_record list \<Rightarrow> delta_position \<Rightarrow> bool" where
  "history_below binds tombstones pos \<longleftrightarrow>
     increasing db_position binds \<and> (\<forall>row\<in>set binds. db_position row < pos) \<and>
     increasing tb_position tombstones \<and> (\<forall>row\<in>set tombstones. tb_position row < pos)"

lemma below_seq:
  "db_position row < DeltaPosition s di \<Longrightarrow> db_committed_seq row \<le> s"
  "tb_position tb < DeltaPosition s di \<Longrightarrow> tb_committed_seq tb \<le> s"
  by (auto simp: db_position_def tb_position_def)

lemma history_below_scans:
  assumes "history_below binds tombstones pos" "dp_seq pos = s"
  shows "bound_child_at_seq_scan binds p n s =
      latest (\<lambda>row. db_parent_inode_id row = p \<and> db_name_key row = n) binds"
    and "latest_parent_binding_for_child_at_seq binds c s =
      latest (\<lambda>row. db_child_inode_id row = c \<and> is_binding_event row) binds"
    and "hiding_subtree_tombstone_scan tombstones r s =
      option_filter (hides_subtree \<circ> tb_action) (latest (\<lambda>row. tb_root_inode_id row = r) tombstones)"
proof -
  obtain di where pos: "pos = DeltaPosition s di" using assms(2) by (cases pos) auto
  have seq: "row \<in> set binds \<Longrightarrow> db_committed_seq row \<le> s" "tb \<in> set tombstones \<Longrightarrow> tb_committed_seq tb \<le> s"
    for row tb using assms(1) by (auto simp: history_below_def pos intro: below_seq)
  have inc: "increasing db_position binds" "increasing tb_position tombstones"
    using assms(1) by (simp_all add: history_below_def)
  show "bound_child_at_seq_scan binds p n s =
      latest (\<lambda>row. db_parent_inode_id row = p \<and> db_name_key row = n) binds"
    unfolding bound_child_at_seq_scan_def by (rule max_by_key_latest [OF inc(1)]) (simp add: seq)
  show "latest_parent_binding_for_child_at_seq binds c s =
      latest (\<lambda>row. db_child_inode_id row = c \<and> is_binding_event row) binds"
    unfolding latest_parent_binding_for_child_at_seq_def
    by (rule max_by_key_latest [OF inc(1)]) (simp add: seq)
  have "max_by_key tb_position (filter (\<lambda>row. tb_root_inode_id row = r \<and> tb_committed_seq row \<le> s) tombstones) =
      latest (\<lambda>row. tb_root_inode_id row = r) tombstones"
    by (rule max_by_key_latest [OF inc(2)]) (simp add: seq)
  then show "hiding_subtree_tombstone_scan tombstones r s =
      option_filter (hides_subtree \<circ> tb_action) (latest (\<lambda>row. tb_root_inode_id row = r) tombstones)"
    by (simp add: hiding_subtree_tombstone_scan_def hiding_tombstone_from_records_def
          newest_tombstone_from_records_def conj_commute comp_def)
qed

text \<open>
  What the rows need of a delta to follow it: the inode it creates is new, and a summary
  row is not the bind it repeats.
\<close>

fun delta_fits :: "change_seq \<Rightarrow> tree \<Rightarrow> wal_delta \<Rightarrow> bool" where
  "delta_fits s t (CreateInode _ i _) \<longleftrightarrow> t_kind t i = None"
| "delta_fits s t (AppendFileRevision di _ _ _ _ b _ _ _ _ _ _) \<longleftrightarrow> b \<noteq> DeltaPosition s di"
| "delta_fits s t _ \<longleftrightarrow> True"

lemma find_snoc: "find P (xs @ [x]) = (case find P xs of Some y \<Rightarrow> Some y | None \<Rightarrow> if P x then Some x else None)"
  by (induction xs) simp_all

text \<open>A delta appends at most one row of each kind, at its own position.\<close>

lemma delta_rows_one:
  shows "delta_rows ms_direntry_binds s cid actor ms d = [] \<or>
      (\<exists>row. delta_rows ms_direntry_binds s cid actor ms d = [row] \<and>
         db_position row = DeltaPosition s (wal_delta_index d))"
    and "delta_rows ms_subtree_tombstones s cid actor ms d = [] \<or>
      (\<exists>row. delta_rows ms_subtree_tombstones s cid actor ms d = [row] \<and>
         tb_position row = DeltaPosition s (wal_delta_index d))"
  by (cases d; simp add: db_position_def tb_position_def Let_def split: option.splits)+

lemma history_below_delta:
  assumes "history_below binds tombstones (DeltaPosition s di)" "di \<le> wal_delta_index d"
    "wal_delta_index d < di'"
  shows "history_below (binds @ delta_rows ms_direntry_binds s cid actor ms d)
    (tombstones @ delta_rows ms_subtree_tombstones s cid actor ms d) (DeltaPosition s di')"
proof -
  have step: "pos < DeltaPosition s di \<Longrightarrow> pos < DeltaPosition s (wal_delta_index d)"
    "pos < DeltaPosition s di \<Longrightarrow> pos < DeltaPosition s di'" for pos
    using assms(2,3) by (cases pos; auto)+
  have "\<forall>row\<in>set binds. db_position row < DeltaPosition s (wal_delta_index d) \<and>
      db_position row < DeltaPosition s di'"
    "\<forall>row\<in>set tombstones. tb_position row < DeltaPosition s (wal_delta_index d) \<and>
      tb_position row < DeltaPosition s di'"
    using assms(1) step unfolding history_below_def by blast+
  with assms(1,3) delta_rows_one [where s = s and cid = cid and actor = actor and ms = ms and d = d]
  show ?thesis unfolding history_below_def by (auto simp: sorted_wrt_append)
qed

lemma core_tree_latest:
  assumes "history_below binds tombstones (DeltaPosition s di)"
  shows "core_tree inodes binds tombstones s =
     \<lparr> t_slot = (\<lambda>(p, n). map_option (\<lambda>row. (db_child_inode_id row, binding_edge row))
         (option_filter is_bound (latest (\<lambda>row. db_parent_inode_id row = p \<and> db_name_key row = n) binds))),
       t_parent = (\<lambda>c. map_option (\<lambda>row. ((db_parent_inode_id row, db_name_key row), binding_edge row))
         (option_filter is_bound (latest (\<lambda>row. db_child_inode_id row = c \<and> is_binding_event row) binds))),
       t_hidden = {r. option_filter (hides_subtree \<circ> tb_action)
         (latest (\<lambda>row. tb_root_inode_id row = r) tombstones) \<noteq> None},
       t_kind = (\<lambda>i. map_option ir_inode_kind (inode_at_seq_scan inodes i s)) \<rparr>"
  by (simp add: core_tree_def row_slot_def row_parent_def history_below_scans [OF assms])

lemma core_tree_delta:
  assumes hist: "history_below binds tombstones (DeltaPosition s di)" and di: "di \<le> wal_delta_index d"
    and di': "wal_delta_index d < di'" and fits: "delta_fits s (core_tree inodes binds tombstones s) d"
  shows "core_tree (inodes @ delta_rows ms_inodes s cid actor ms d)
      (binds @ delta_rows ms_direntry_binds s cid actor ms d)
      (tombstones @ delta_rows ms_subtree_tombstones s cid actor ms d) s =
    tree_step s d (core_tree inodes binds tombstones s)"
  unfolding core_tree_latest [OF hist] core_tree_latest [OF history_below_delta [OF hist di di']]
  using fits [unfolded core_tree_latest [OF hist]]
  by (cases d)
     (auto simp: fun_eq_iff inode_at_seq_scan_def find_snoc binding_edge_def is_binding_event_def
        is_bound_def db_position_def db_display_name_def Let_def split: option.splits)

end
