(* ===== verification/Commit_Safety.thy ===== *)
theory Commit_Safety
  imports Commit_Validation Namespace_Tree
begin

text \<open>
  What a validated commit does to the namespace.  The contract is \<open>tree_allows\<close>: the deltas
  an abstract namespace accepts.  Each check of the validators is read as a fact about the
  tree of the session's rows, and every delta of a validated operation is shown to be
  allowed, so the tree stays a tree through every commit.
\<close>

section \<open>The contract\<close>

fun tree_allows :: "change_seq \<Rightarrow> tree \<Rightarrow> wal_delta \<Rightarrow> bool" where
  "tree_allows s t (CreateInode _ i _) \<longleftrightarrow> t_kind t i = None"
| "tree_allows s t (BindDirentry _ p n _ c k _ _ _) \<longleftrightarrow>
     t_slot t (p, n) = None \<and> t_parent t c = None \<and> t_kind t p = Some Directory \<and>
     t_kind t c = Some k \<and> c \<notin> t_hidden t \<and> c \<noteq> ROOT_INODE_ID \<and> \<not> tree_covered t p \<and>
     c \<notin> tree_ancestors t p"
| "tree_allows s t (UnbindDirentry _ p n _ c k _ _ target) \<longleftrightarrow>
     (\<exists>d. t_slot t (p, n) = Some (c, target, d)) \<and> \<not> tree_covered t c \<and> t_kind t c = Some k"
| "tree_allows s t (AppendFileRevision di i p n d b _ _ _ _ _ _) \<longleftrightarrow>
     t_slot t (p, n) = Some (i, b, d) \<and> t_kind t i = Some File \<and> \<not> tree_covered t i \<and>
     b < DeltaPosition s di"
| "tree_allows s t (TombstoneSubtree _ r k _) \<longleftrightarrow>
     t_parent t r = None \<and> r \<noteq> ROOT_INODE_ID \<and> t_kind t r = Some k"
| "tree_allows s t (RevokeSubtreeTombstone _ r _) \<longleftrightarrow> r \<in> t_hidden t"
| "tree_allows s t (AppendAttributesRevision _ i _ _) \<longleftrightarrow> tree_visible t i"
| "tree_allows s t (AppendAccessRevision _ i _ _ _) \<longleftrightarrow> tree_visible t i"

fun tree_run :: "change_seq \<Rightarrow> tree \<Rightarrow> wal_delta list \<Rightarrow> bool" where
  "tree_run s t [] \<longleftrightarrow> True"
| "tree_run s t (d # ds) \<longleftrightarrow> tree_allows s t d \<and> tree_run s (tree_step s d t) ds"

lemma tree_inv_step:
  assumes "tree_inv t" "tree_allows s t d" shows "tree_inv (tree_step s d t)"
proof (cases d)
  case (CreateInode di i k)
  with assms show ?thesis by (simp add: tree_inv_create [simplified])
next
  case (BindDirentry di p n d' c k by1 ms rv)
  with assms show ?thesis using tree_inv_bind [of t p n c s di d' k by1 ms rv] by simp
next
  case (UnbindDirentry di p n d' c k by1 ms target)
  with assms show ?thesis using tree_inv_unbind [of t p n c _ s di d' k by1 ms target] by auto
next
  case (AppendFileRevision di i p n d' b by1 ms rn cr ly off)
  with assms show ?thesis using tree_step_revision [of t p n i b d'] by simp
next
  case (TombstoneSubtree di r k del)
  with assms show ?thesis using tree_inv_hide [of t r s di k del] by simp
next
  case (RevokeSubtreeTombstone di r target)
  with assms show ?thesis using tree_inv_revoke [of t s di r target] by simp
qed (use assms in simp_all)

lemma tree_inv_run: "tree_inv t \<Longrightarrow> tree_run s t ds \<Longrightarrow> tree_inv (fold (tree_step s) ds t)"
  by (induction ds arbitrary: t) (auto intro: tree_inv_step)

lemma tree_run_append:
  "tree_run s t (ds @ ds') \<longleftrightarrow> tree_run s t ds \<and> tree_run s (fold (tree_step s) ds t) ds'"
  by (induction ds arbitrary: t) auto

lemma tree_allows_fits: "tree_allows s t d \<Longrightarrow> delta_fits s t d"
  by (cases d) auto

section \<open>The tree of a session\<close>

definition view_tree :: "metadata_view \<Rightarrow> metadata_state \<Rightarrow> tree" where
  "view_tree view m =
     core_tree (flat ms_inodes view m) (flat ms_direntry_binds view m)
       (flat ms_subtree_tombstones view m) (mv_visible_seq view)"

definition next_position :: "validation_session \<Rightarrow> delta_position" where
  "next_position vs = DeltaPosition (vs_committed_seq vs) (cn_next_delta_index (vs_numbering vs))"

definition rv_position :: "revision_record \<Rightarrow> delta_position" where
  "rv_position row = DeltaPosition (rv_committed_seq row) (rv_delta_index row)"

text \<open>
  The sessions a commit passes through: the manifest's lookups are right about its rows,
  the rows lie in commit order below the next delta, and they form a tree.
\<close>

definition session_rows_ok :: "validation_session \<Rightarrow> metadata_state \<Rightarrow> bool" where
  "session_rows_ok vs m \<longleftrightarrow>
     view_ok (session_view vs) m \<and>
     history_below (flat ms_direntry_binds (session_view vs) m)
       (flat ms_subtree_tombstones (session_view vs) m) (next_position vs) \<and>
     increasing rv_position (flat ms_revisions (session_view vs) m) \<and>
     (\<forall>row\<in>set (flat ms_revisions (session_view vs) m). rv_position row < next_position vs) \<and>
     (\<forall>row\<in>set (flat ms_inodes (session_view vs) m). ir_committed_seq row \<le> vs_committed_seq vs)"

text \<open>Every binding carries the kind of its child, which path resolution reads off the binding.\<close>

definition kinds_ok :: "metadata_view \<Rightarrow> metadata_state \<Rightarrow> bool" where
  "kinds_ok view m \<longleftrightarrow>
     (\<forall>row\<in>set (flat ms_direntry_binds view m).
        t_kind (view_tree view m) (db_child_inode_id row) = Some (db_child_kind row))"

definition session_ok :: "validation_session \<Rightarrow> metadata_state \<Rightarrow> bool" where
  "session_ok vs m \<longleftrightarrow>
     session_rows_ok vs m \<and> tree_inv (view_tree (session_view vs) m) \<and> kinds_ok (session_view vs) m"

lemma session_view_seq [simp]: "mv_visible_seq (session_view vs) = vs_committed_seq vs"
  by (simp add: session_view_def with_overlay_def)

lemma tree_edges_core: "tree_edges (core_tree I B T s) = parent_edges (row_parent B s)"
  by (fastforce simp: tree_edges_def parent_edges_def core_tree_def)

lemma tree_ancestors_core: "tree_ancestors (core_tree I B T s) i = ancestors (row_parent B s) i"
  by (simp add: tree_ancestors_def ancestors_def tree_edges_core)

lemma t_hidden_core: "t_hidden (core_tree I B T s) = {r. hiding_subtree_tombstone_scan T r s \<noteq> None}"
  by (simp add: core_tree_def)

lemma t_kind_core: "t_kind (core_tree I B T s) i = map_option ir_inode_kind (inode_at_seq_scan I i s)"
  by (simp add: core_tree_def)

lemma view_covered: "view_provider.covered (view, m) i = tree_covered (view_tree view m) i"
  by (simp add: view_provider.covered_def tree_covered_def view_tree_def tree_ancestors_core t_hidden_core)

lemma row_parent_event:
  "row_parent B s c = Some row \<Longrightarrow>
    row \<in> set B \<and> db_child_inode_id row = c \<and> is_bound row \<and> db_bind_position row = db_position row"
  by (auto simp: row_parent_def latest_parent_binding_for_child_at_seq_def is_binding_event_def
        dest!: max_by_key_mem)

section \<open>Checks as facts about the tree\<close>

text \<open>The facts every check below starts from.\<close>

lemma session_okD:
  assumes "session_ok vs m"
  shows "view_ok (session_view vs) m" "tree_inv (view_tree (session_view vs) m)"
    and "history_below (flat ms_direntry_binds (session_view vs) m)
       (flat ms_subtree_tombstones (session_view vs) m) (next_position vs)"
    and "kinds_ok (session_view vs) m"
  using assms by (simp_all add: session_ok_def session_rows_ok_def)

lemma kind_checked:
  assumes "session_ok vs m" "view_inode_at_seq (session_view vs) i = Inr (Some row)"
  shows "t_kind (view_tree (session_view vs) m) i = Some (ir_inode_kind row)" "ir_inode_id row = i"
proof -
  have scan: "inode_at_seq_scan (flat ms_inodes (session_view vs) m) i (vs_committed_seq vs) = Some row"
    using view_inode_scan [OF session_okD(1) [OF assms(1)] assms(2)] by simp
  then show "t_kind (view_tree (session_view vs) m) i = Some (ir_inode_kind row)"
    by (simp add: view_tree_def core_tree_def)
  show "ir_inode_id row = i" using scan by (auto simp: inode_at_seq_scan_def find_Some_iff)
qed

lemma resolve_inode_kind_checked:
  assumes "session_ok vs m" "resolve_inode_kind vs i k operand = Inr row"
  shows "t_kind (view_tree (session_view vs) m) i = Some k" "ir_inode_id row = i" "ir_inode_kind row = k"
  using kind_checked [OF assms(1), of i row] assms(2) by (auto simp: resolve_inode_kind_def)

lemma not_covered_checked:
  assumes "session_ok vs m" "ensure_not_covered_by_tombstone vs i operand = Inr ()"
  shows "\<not> tree_covered (view_tree (session_view vs) m) i"
proof -
  have "covering_subtree_tombstone (view_reads (session_view vs)) i = Inr None"
    using assms(2) by (auto simp: ensure_not_covered_by_tombstone_def split: option.splits)
  with view_provider.covering_right(1) [of "(session_view vs, m)" i None] session_okD(1) [OF assms(1)]
  have "\<not> view_provider.covered (session_view vs, m) i" by (simp add: view_provider.covered_def)
  then show ?thesis by (simp add: view_covered)
qed

lemma visible_child_checked:
  assumes "session_ok vs m" "visible_child (view_reads (session_view vs)) p n = Inr x"
  defines "t \<equiv> view_tree (session_view vs) m"
  shows "x = Some row \<Longrightarrow> t_slot t (p, n) = Some (db_child_inode_id row, binding_edge row) \<and>
      \<not> tree_covered t (db_child_inode_id row)"
    and "x = None \<Longrightarrow> t_kind t p = Some Directory \<Longrightarrow> \<not> tree_covered t p \<Longrightarrow> t_slot t (p, n) = None"
proof -
  note right = view_provider.visible_child_right [of "(session_view vs, m)" p n x,
      unfolded view_covered, simplified, OF session_okD(1) [OF assms(1)] assms(2)]
  show "t_slot t (p, n) = Some (db_child_inode_id row, binding_edge row) \<and>
      \<not> tree_covered t (db_child_inode_id row)" if "x = Some row"
    using right [of row] that by (simp add: t_def view_tree_def core_tree_def)
  show "t_slot t (p, n) = None"
    if none: "x = None" and dir: "t_kind t p = Some Directory" and unc: "\<not> tree_covered t p"
  proof (rule ccontr)
    assume "t_slot t (p, n) \<noteq> None"
    then obtain row where slot: "row_slot (flat ms_direntry_binds (session_view vs) m) (vs_committed_seq vs) p n = Some row"
      and t_slot: "t_slot t (p, n) = Some (db_child_inode_id row, binding_edge row)"
      by (auto simp: t_def view_tree_def core_tree_def)
    let ?c = "db_child_inode_id row"
    have inv: "tree_inv t" using session_okD(2) [OF assms(1)] by (simp add: t_def)
    have par: "t_parent t ?c = Some ((p, n), binding_edge row)" using tree_invD(1) [OF inv] t_slot by blast
    then have edge: "(?c, p) \<in> tree_edges t" by (cases "binding_edge row") (auto simp: tree_edges_def)
    have "\<not> tree_covered t ?c"
      using tree_covered_child [OF par] unc tree_invD(3) [OF inv, of ?c] par by auto
    moreover have "t_kind t ?c \<noteq> None" using tree_invD(4) [OF inv edge] by blast
    ultimately show False
      using right [of row] none dir unc slot
      by (auto simp: t_def view_tree_def core_tree_def)
  qed
qed

lemma name_absent_checked:
  assumes "session_ok vs m" "resolve_name_absent u vs p d rebinding operand = Inr n"
  defines "t \<equiv> view_tree (session_view vs) m"
  shows "n = name_key_for_display_name u d" "t_kind t p = Some Directory"
    and "\<not> tree_covered t p \<Longrightarrow> t_slot t (p, n) = None \<or>
      (\<exists>c b. rebinding = Some c \<and> t_slot t (p, n) = Some (c, b))"
proof -
  from assms(2) obtain row x where kind: "resolve_inode_kind vs p Directory operand = Inr row"
    and x: "visible_child (view_reads (session_view vs)) p n = Inr x"
    and n: "n = name_key_for_display_name u d"
    and reb: "\<And>r. x = Some r \<Longrightarrow> rebinding = Some (db_child_inode_id r)"
    by (auto simp: resolve_name_absent_def Let_def split: option.splits if_splits)
  show "n = name_key_for_display_name u d" by (rule n)
  show dir: "t_kind t p = Some Directory"
    using resolve_inode_kind_checked(1) [OF assms(1) kind] by (simp add: t_def)
  show "t_slot t (p, n) = None \<or> (\<exists>c b. rebinding = Some c \<and> t_slot t (p, n) = Some (c, b))"
    if "\<not> tree_covered t p"
    using visible_child_checked [OF assms(1) x] reb that dir by (cases x) (auto simp: t_def)
qed

lemma parent_checked:
  assumes "session_ok vs m" "current_parent_binding_for_child (view_reads (session_view vs)) c = Inr x"
  shows "t_parent (view_tree (session_view vs) m) c =
      map_option (\<lambda>row. ((db_parent_inode_id row, db_name_key row), binding_edge row)) x"
    and "x = Some row \<Longrightarrow> db_child_inode_id row = c \<and> is_bound row \<and>
      db_bind_position row < next_position vs"
proof -
  have "vr_current_parent_binding_for_child (view_reads (session_view vs)) c = Inr x"
    using assms(2)
    by (auto simp: view_reads_def Let_def current_parent_binding_for_child_def split: if_splits)
  then have par: "row_parent (flat ms_direntry_binds (session_view vs) m) (vs_committed_seq vs) c = x"
    using view_current_parent [OF session_okD(1) [OF assms(1)]] by simp
  then show "t_parent (view_tree (session_view vs) m) c =
      map_option (\<lambda>row. ((db_parent_inode_id row, db_name_key row), binding_edge row)) x"
    by (simp add: view_tree_def core_tree_def)
  show "db_child_inode_id row = c \<and> is_bound row \<and> db_bind_position row < next_position vs"
    if "x = Some row"
    using row_parent_event [of _ _ c row] par that session_okD(3) [OF assms(1)]
    by (auto simp: history_below_def)
qed

lemma child_unbound_checked:
  assumes "session_ok vs m" "ensure_child_unbound vs c unbinding = Inr ()"
  shows "case t_parent (view_tree (session_view vs) m) c of
      None \<Rightarrow> True | Some (_, b, _) \<Rightarrow> unbinding = Some b"
proof -
  from assms(2) obtain x where x: "current_parent_binding_for_child (view_reads (session_view vs)) c = Inr x"
    and b: "\<And>row. x = Some row \<Longrightarrow> unbinding = Some (db_bind_position row)"
    by (auto simp: ensure_child_unbound_def split: option.splits if_splits)
  from parent_checked(1) [OF assms(1) x] b show ?thesis
    by (cases x) (auto simp: binding_edge_def)
qed

lemma source_binding_checked:
  assumes "session_ok vs m" "ensure_source_binding vs b = Inr ()"
  defines "t \<equiv> view_tree (session_view vs) m"
  shows "\<exists>d. t_slot t (rb_parent_inode_id b, rb_name_key b) = Some (rb_child_inode_id b, rb_bind_position b, d)"
    and "\<not> tree_covered t (rb_child_inode_id b)"
proof -
  from assms(2) obtain row
    where x: "visible_child (view_reads (session_view vs)) (rb_parent_inode_id b) (rb_name_key b) = Inr (Some row)"
      and same: "db_child_inode_id row = rb_child_inode_id b" "db_bind_position row = rb_bind_position b"
    by (auto simp: ensure_source_binding_def)
  from visible_child_checked(1) [OF assms(1) x refl] same
  show "\<exists>d. t_slot t (rb_parent_inode_id b, rb_name_key b) = Some (rb_child_inode_id b, rb_bind_position b, d)"
    "\<not> tree_covered t (rb_child_inode_id b)"
    by (auto simp: t_def binding_edge_def)
qed

lemma no_cycle_checked:
  assumes "session_ok vs m" "ensure_rename_does_not_cycle vs inode p = Inr ()" "ir_inode_kind inode = Directory"
  shows "ir_inode_id inode \<notin> tree_ancestors (view_tree (session_view vs) m) p"
proof -
  have "would_create_directory_cycle (view_reads (session_view vs)) (ir_inode_id inode) p = Inr False"
    using assms(2,3) by (auto simp: ensure_rename_does_not_cycle_def)
  from view_provider.would_create_cycle_right [of "(session_view vs, m)", simplified,
      OF session_okD(1) [OF assms(1)] this]
  show ?thesis by (simp add: view_tree_def tree_ancestors_core)
qed

lemma recoverable_checked:
  assumes "session_ok vs m" "resolve_recoverable_deletion vs i seq = Inr row"
  shows "i \<in> t_hidden (view_tree (session_view vs) m)"
proof -
  have "view_hiding_subtree_tombstone (session_view vs) i = Inr (Some row)"
    using assms(2) by (auto simp: resolve_recoverable_deletion_def view_recoverable_deletion_def)
  from view_hiding_scan [OF session_okD(1) [OF assms(1)] this] show ?thesis
    by (auto simp: view_tree_def t_hidden_core dest: sym)
qed

lemma target_visible_checked:
  assumes "session_ok vs m" "ensure_target_visible vs i operand = Inr ()"
  shows "tree_visible (view_tree (session_view vs) m) i"
proof -
  from assms(2) obtain row where "visible_inode (view_reads (session_view vs)) i = Inr (Some row)"
    by (auto simp: ensure_target_visible_def)
  from view_provider.visible_inode_right [of "(session_view vs, m)", unfolded view_covered, simplified,
      OF session_okD(1) [OF assms(1)] this]
  show ?thesis by (auto simp: tree_visible_def view_tree_def t_kind_core split: if_splits dest: sym)
qed

section \<open>Numbering\<close>

text \<open>The deltas carry the numbers from one to another, one by one and without wrapping.\<close>

fun numbered :: "u32 \<Rightarrow> wal_delta list \<Rightarrow> u32 \<Rightarrow> bool" where
  "numbered i [] j \<longleftrightarrow> i = j"
| "numbered i (d # ds) j \<longleftrightarrow> wal_delta_index d = i \<and> i < i + 1 \<and> numbered (i + 1) ds j"

lemma checked_add_one: "checked_add (i :: u32) 1 = Some j \<longleftrightarrow> j = i + 1 \<and> i < i + 1"
proof -
  have "unat i + unat (1 :: u32) < 2 ^ 32 \<longleftrightarrow> i < i + 1"
    using unat_add_lem [of i 1] no_olen_add_nat [of i 1] word_le_less_eq [of i "i + 1"] by auto
  then show ?thesis by (auto simp: checked_add_def)
qed

lemma reserve_delta_index_Inr:
  "reserve_delta_index n = Inr (i, n') \<longleftrightarrow>
     i = cn_next_delta_index n \<and> i < i + 1 \<and> n' = n \<lparr> cn_next_delta_index := i + 1 \<rparr>"
  by (auto simp: reserve_delta_index_def checked_add_one)

text \<open>The builders' results, with the numbers they take.\<close>

lemma unbind_delta_Inr:
  "unbind_delta n b inode = Inr (d, n') \<longleftrightarrow>
     (let i = cn_next_delta_index n
      in d = UnbindDirentry i (rb_parent_inode_id b) (rb_name_key b) (rb_display_name b)
               (rb_child_inode_id b) (ir_inode_kind inode) (ir_committed_by inode)
               (ir_committed_at_ms inode) (rb_bind_position b) \<and>
         i < i + 1 \<and> n' = n \<lparr> cn_next_delta_index := i + 1 \<rparr>)"
  by (auto simp: unbind_delta_def reserve_delta_index_Inr Let_def)

lemma delete_deltas_Inr:
  "delete_deltas n inode b = Inr (ds, n') \<longleftrightarrow>
     (let i = cn_next_delta_index n
      in ds = [UnbindDirentry i (rb_parent_inode_id b) (rb_name_key b) (rb_display_name b)
                 (rb_child_inode_id b) (ir_inode_kind inode) (ir_committed_by inode)
                 (ir_committed_at_ms inode) (rb_bind_position b),
               TombstoneSubtree (i + 1) (ir_inode_id inode) (ir_inode_kind inode)
                 \<lparr> dl_parent_inode_id = rb_parent_inode_id b, dl_name_key = rb_name_key b,
                   dl_display_name = rb_display_name b \<rparr>] \<and>
         i < i + 1 \<and> i + 1 < i + 1 + 1 \<and> n' = n \<lparr> cn_next_delta_index := i + 1 + 1 \<rparr>)"
  by (auto simp: delete_deltas_def unbind_delta_Inr reserve_delta_index_Inr Let_def)

lemma revision_delta_Inr:
  "revision_delta n edge rn cr off = Inr (d, n') \<longleftrightarrow>
     (let i = cn_next_delta_index n
      in (\<exists>name. db_display_name edge = Some name \<and>
            d = AppendFileRevision i (db_child_inode_id edge) (db_parent_inode_id edge)
                  (db_name_key edge) name (db_bind_position edge) (db_child_created_by edge)
                  (db_child_created_at_ms edge) rn cr None off) \<and>
         i < i + 1 \<and> n' = n \<lparr> cn_next_delta_index := i + 1 \<rparr>)"
  by (auto simp: revision_delta_def reserve_delta_index_Inr Let_def)

lemmas builders_Inr = reserve_delta_index_Inr unbind_delta_Inr delete_deltas_Inr revision_delta_Inr

text \<open>What each validator has checked and built when it returns deltas.\<close>

lemma validate_create_InrE:
  assumes "validate_create u vs c p d child = Inr (ds, n)"
  obtains nk i where
    "resolve_name_absent u vs p d None CreateParent = Inr nk"
    "ensure_child_unbound vs c None = Inr ()"
    "ensure_not_covered_by_tombstone vs p CreateParent = Inr ()"
    "i = cn_next_delta_index (vs_numbering vs)" "i < i + 1" "i + 1 < i + 1 + 1"
    "child = NewDirectory \<Longrightarrow>
       ds = [CreateInode i c Directory,
             BindDirentry (i + 1) p nk d c Directory (vs_actor_id vs) (vs_committed_at_ms vs) None] \<and>
       n = (vs_numbering vs) \<lparr> cn_next_delta_index := i + 1 + 1 \<rparr>"
    "\<And>cr. child = NewFile cr \<Longrightarrow>
       ds = [CreateInode i c File,
             BindDirentry (i + 1) p nk d c File (vs_actor_id vs) (vs_committed_at_ms vs)
               (Some \<lparr> rs_revision_no = 1, rs_size_bytes = ct_size_bytes cr,
                       rs_committed_by = vs_actor_id vs, rs_committed_at_ms = vs_committed_at_ms vs \<rparr>),
             AppendFileRevision (i + 1 + 1) c p nk d (DeltaPosition (vs_committed_seq vs) (i + 1))
               (vs_actor_id vs) (vs_committed_at_ms vs) 1 cr None None] \<and>
       i + 1 + 1 < i + 1 + 1 + 1 \<and>
       n = (vs_numbering vs) \<lparr> cn_next_delta_index := i + 1 + 1 + 1 \<rparr>"
proof (cases child)
  case NewDirectory
  with assms show ?thesis
    by (auto simp: validate_create_def Let_def builders_Inr split: prod.splits intro: that)
next
  case (NewFile cr)
  with assms show ?thesis
    by (auto simp: validate_create_def Let_def builders_Inr split: prod.splits intro: that)
qed

section \<open>Every delta is allowed\<close>

text \<open>
  What planning promises of an operation: the inode id of a create is new, and the source
  binding of a delete or rename is the target's own.
\<close>

fun op_planned :: "tree \<Rightarrow> commit_operation \<Rightarrow> bool" where
  "op_planned t (CreateDirectory c _ _) \<longleftrightarrow> t_kind t c = None"
| "op_planned t (CreateFile c _ _ _) \<longleftrightarrow> t_kind t c = None"
| "op_planned t (DeleteFile i b) \<longleftrightarrow> rb_child_inode_id b = i"
| "op_planned t (Rename i b _ _) \<longleftrightarrow> rb_child_inode_id b = i"
| "op_planned t (DeleteSubtree r b _) \<longleftrightarrow> rb_child_inode_id b = r"
| "op_planned t _ \<longleftrightarrow> True"

lemma not_directory_not_above:
  assumes "tree_inv t" "t_kind t p = Some Directory" "t_kind t c \<noteq> Some Directory"
  shows "c \<notin> tree_ancestors t p"
  using tree_ancestor_kind [OF assms(1), of c p] assms(2,3) by (cases "c = p") auto

text \<open>A new inode bound where nothing is bound, under a directory that is not deleted.\<close>

lemma run_create:
  assumes inv: "tree_inv t" and fresh: "t_kind t c = None" and slot: "t_slot t (p, n) = None"
    and dir: "t_kind t p = Some Directory" and unc: "\<not> tree_covered t p"
  shows "tree_run s t [CreateInode i c k, BindDirentry j p n d c k by1 ms rv]"
    and "tree_run s t [CreateInode i c File, BindDirentry j p n d c File by1 ms rv,
      AppendFileRevision j' c p n d (DeltaPosition s j) by1 ms rn cr ly off] \<longleftrightarrow> j < j'"
proof -
  let ?t1 = "\<lambda>k. tree_step s (CreateInode i c k) t"
  let ?t2 = "\<lambda>k. tree_step s (BindDirentry j p n d c k by1 ms rv) (?t1 k)"
  have same: "tree_edges (?t1 k) = tree_edges t" for k by (simp add: tree_edges_def)
  have anc: "tree_ancestors (?t1 k) x = tree_ancestors t x" for k x
    unfolding tree_ancestors_def same by (rule refl)
  have cov: "tree_covered (?t1 k) x = tree_covered t x" for k x
    unfolding tree_covered_def anc by simp
  have c: "c \<notin> t_hidden t" "c \<noteq> ROOT_INODE_ID" "c \<noteq> p"
    using tree_invD(3) [OF inv, of c] tree_invD(5) [OF inv] fresh dir by auto
  have par: "t_parent t c = None"
    using tree_invD(4) [OF inv, of c] fresh by (cases "t_parent t c") (auto simp: tree_edges_def)
  have above: "c \<notin> tree_ancestors t p"
    using fresh by (intro not_directory_not_above [OF inv dir]) simp
  have bind: "tree_allows s (?t1 k) (BindDirentry j p n d c k by1 ms rv)" for k
    using slot par dir c above unc cov anc by simp
  then show "tree_run s t [CreateInode i c k, BindDirentry j p n d c k by1 ms rv]"
    using fresh by simp
  have edges: "tree_edges (?t2 k) = insert (c, p) (tree_edges (?t1 k))" for k
    using par by (intro tree_edges_bind) simp
  have "tree_covered (?t2 k) p = tree_covered t p" for k
    unfolding tree_covered_def tree_ancestors_insert [OF edges, of k p, unfolded anc, OF above]
    by simp
  moreover have "t_parent (?t2 k) c = Some ((p, n), DeltaPosition s j, d)" for k by simp
  ultimately have "\<not> tree_covered (?t2 File) c"
    using tree_covered_child [of "?t2 File" c p n "(DeltaPosition s j, d)"] unc c(1) by simp
  then show "tree_run s t [CreateInode i c File, BindDirentry j p n d c File by1 ms rv,
      AppendFileRevision j' c p n d (DeltaPosition s j) by1 ms rn cr ly off] \<longleftrightarrow> j < j'"
    using fresh bind [of File] by simp
qed

text \<open>An exact unbind, then the tombstone of the inode it unbinds.\<close>

lemma run_delete:
  assumes inv: "tree_inv t" and slot: "t_slot t (p, n) = Some (c, b, d')" and unc: "\<not> tree_covered t c"
    and kind: "t_kind t c = Some k"
  shows "tree_run s t [UnbindDirentry i p n d c k by1 ms b, TombstoneSubtree j c k del]"
proof -
  have "t_parent t c = Some ((p, n), b, d')" using tree_invD(1) [OF inv] slot by blast
  then have "c \<noteq> ROOT_INODE_ID" using tree_invD(6) [OF inv] by auto
  with slot unc kind show ?thesis by simp
qed

text \<open>An exact unbind, then a bind of the same inode somewhere else or at the same slot.\<close>

lemma run_rename:
  assumes inv: "tree_inv t" and slot: "t_slot t (p, n) = Some (c, b, d')" and unc: "\<not> tree_covered t c"
    and kind: "t_kind t c = Some k" and dir: "t_kind t p' = Some Directory"
    and unc': "\<not> tree_covered t p'" and above: "c \<notin> tree_ancestors t p'"
    and free: "t_slot t (p', n') = None \<or> (\<exists>e. t_slot t (p', n') = Some (c, e))"
  shows "tree_run s t [UnbindDirentry i p n d c k by1 ms b, BindDirentry j p' n' d'' c k by2 ms2 rv]"
proof -
  let ?t = "tree_step s (UnbindDirentry i p n d c k by1 ms b) t"
  have par: "t_parent t c = Some ((p, n), b, d')" using tree_invD(1) [OF inv] slot by blast
  then have c: "c \<noteq> ROOT_INODE_ID" "c \<notin> t_hidden t" using tree_invD(3,6) [OF inv] by auto
  have sub: "tree_edges ?t \<subseteq> tree_edges t" unfolding tree_edges_unbind by blast
  have "t_slot ?t (p', n') = None"
  proof (rule ccontr)
    assume some: "t_slot ?t (p', n') \<noteq> None"
    then have "(p', n') \<noteq> (p, n)" "t_slot t (p', n') \<noteq> None" by (auto split: if_splits)
    with free obtain e where "t_slot t (p', n') = Some (c, e)" by auto
    then have "t_parent t c = Some ((p', n'), e)" using tree_invD(1) [OF inv] by (cases e) blast
    with par \<open>(p', n') \<noteq> (p, n)\<close> show False by simp
  qed
  moreover have "\<not> tree_covered ?t p'" using tree_covered_mono [OF sub, of p'] unc' by auto
  moreover have "c \<notin> tree_ancestors ?t p'" using tree_ancestors_mono [OF sub, of p'] above by blast
  ultimately show ?thesis using slot unc kind dir c by simp
qed

text \<open>A revoke of the inode's deletion, then a bind of it.\<close>

lemma run_undelete:
  assumes inv: "tree_inv t" and hid: "c \<in> t_hidden t" and kind: "t_kind t c = Some k"
    and slot: "t_slot t (p, n) = None" and dir: "t_kind t p = Some Directory" and unc: "\<not> tree_covered t p"
  shows "tree_run s t [RevokeSubtreeTombstone i c target, BindDirentry j p n d c k by1 ms rv]"
proof -
  let ?t = "tree_step s (RevokeSubtreeTombstone i c target) t"
  have edges: "tree_edges ?t = tree_edges t" by (simp add: tree_edges_def)
  have "c \<noteq> ROOT_INODE_ID" "t_parent t c = None" using tree_invD(3,7) [OF inv] hid by auto
  moreover have "c \<notin> tree_ancestors t p" using hid unc by (auto simp: tree_covered_def)
  moreover have "tree_ancestors ?t p = tree_ancestors t p" unfolding tree_ancestors_def edges by (rule refl)
  moreover have "\<not> tree_covered ?t p" using tree_covered_mono [of ?t t p] edges unc by auto
  ultimately show ?thesis using hid kind slot dir by simp
qed

lemma validate_create_runs:
  assumes ok: "session_ok vs m" and res: "validate_create u vs c p d child = Inr (ds, n)"
    and fresh: "t_kind (view_tree (session_view vs) m) c = None"
  shows "tree_run (vs_committed_seq vs) (view_tree (session_view vs) m) ds"
proof -
  let ?t = "view_tree (session_view vs) m"
  from res obtain nk i where name: "resolve_name_absent u vs p d None CreateParent = Inr nk"
    and cov: "ensure_not_covered_by_tombstone vs p CreateParent = Inr ()"
    and i: "i < i + 1" "i + 1 < i + 1 + 1"
    and newdir: "child = NewDirectory \<Longrightarrow>
       ds = [CreateInode i c Directory,
             BindDirentry (i + 1) p nk d c Directory (vs_actor_id vs) (vs_committed_at_ms vs) None]"
    and newfile: "\<And>cr. child = NewFile cr \<Longrightarrow>
       ds = [CreateInode i c File,
             BindDirentry (i + 1) p nk d c File (vs_actor_id vs) (vs_committed_at_ms vs)
               (Some \<lparr> rs_revision_no = 1, rs_size_bytes = ct_size_bytes cr,
                       rs_committed_by = vs_actor_id vs, rs_committed_at_ms = vs_committed_at_ms vs \<rparr>),
             AppendFileRevision (i + 1 + 1) c p nk d (DeltaPosition (vs_committed_seq vs) (i + 1))
               (vs_actor_id vs) (vs_committed_at_ms vs) 1 cr None None]"
    by (rule validate_create_InrE) blast
  note unc = not_covered_checked [OF ok cov]
  have slot: "t_slot ?t (p, nk) = None" using name_absent_checked(3) [OF ok name unc] by simp
  note run = run_create [OF session_okD(2) [OF ok] fresh slot name_absent_checked(2) [OF ok name] unc]
  show ?thesis
  proof (cases child)
    case NewDirectory
    show ?thesis unfolding newdir [OF NewDirectory] by (rule run(1))
  next
    case (NewFile cr)
    show ?thesis unfolding newfile [OF NewFile] run(2) by (rule i(2))
  qed
qed

lemma revision_run:
  assumes ok: "session_ok vs m" and cov: "ensure_not_covered_by_tombstone vs i operand = Inr ()"
    and kind: "resolve_inode_kind vs i File operand = Inr inode"
    and edge: "resolve_current_binding vs i operand = Inr row"
    and delta: "revision_delta (vs_numbering vs) row rn cr off = Inr (d, n)"
  shows "tree_run (vs_committed_seq vs) (view_tree (session_view vs) m) [d]"
proof -
  let ?t = "view_tree (session_view vs) m"
  have par: "current_parent_binding_for_child (view_reads (session_view vs)) i = Inr (Some row)"
    using edge by (auto simp: resolve_current_binding_def)
  note row = parent_checked(2) [OF ok par refl]
  from delta obtain name where name: "db_display_name row = Some name"
    and d: "d = AppendFileRevision (cn_next_delta_index (vs_numbering vs)) i (db_parent_inode_id row)
        (db_name_key row) name (db_bind_position row) (db_child_created_by row)
        (db_child_created_at_ms row) rn cr None off"
    using row by (auto simp: revision_delta_Inr Let_def)
  have "t_parent ?t i = Some ((db_parent_inode_id row, db_name_key row), db_bind_position row, name)"
    using parent_checked(1) [OF ok par] name by (simp add: binding_edge_def)
  then have "t_slot ?t (db_parent_inode_id row, db_name_key row) = Some (i, db_bind_position row, name)"
    using tree_invD(1) [OF session_okD(2) [OF ok]] by blast
  with resolve_inode_kind_checked(1) [OF ok kind] not_covered_checked [OF ok cov] row show ?thesis
    unfolding d by (simp add: next_position_def)
qed

lemma delete_runs:
  assumes ok: "session_ok vs m" and source: "ensure_source_binding vs b = Inr ()"
    and kind: "resolve_inode_kind vs i k operand = Inr inode" and i: "rb_child_inode_id b = i"
    and deltas: "delete_deltas (vs_numbering vs) inode b = Inr (ds, n)"
  shows "tree_run (vs_committed_seq vs) (view_tree (session_view vs) m) ds"
proof -
  note checked = source_binding_checked [OF ok source] and inode = resolve_inode_kind_checked [OF ok kind]
  from checked(1) obtain d where "t_slot (view_tree (session_view vs) m)
      (rb_parent_inode_id b, rb_name_key b) = Some (rb_child_inode_id b, rb_bind_position b, d)" by blast
  from run_delete [OF session_okD(2) [OF ok] this checked(2)] inode i deltas show ?thesis
    by (simp add: delete_deltas_Inr Let_def)
qed

lemma validate_rename_runs:
  assumes ok: "session_ok vs m" and res: "validate_rename u vs i b p' d'' = Inr (ds, n)"
    and i: "rb_child_inode_id b = i"
  shows "tree_run (vs_committed_seq vs) (view_tree (session_view vs) m) ds"
proof -
  let ?t = "view_tree (session_view vs) m"
  from res obtain inode nk rv unbind n1 j
    where source: "ensure_source_binding vs b = Inr ()"
      and inode: "view_inode_at_seq (session_view vs) i = Inr (Some inode)"
      and name: "resolve_name_absent u vs p' d'' (Some i) RenameTargetParent = Inr nk"
      and cycle: "ensure_rename_does_not_cycle vs inode p' = Inr ()"
      and cov: "ensure_not_covered_by_tombstone vs p' RenameTargetParent = Inr ()"
      and unbind: "unbind_delta (vs_numbering vs) b inode = Inr (unbind, n1)"
      and ds: "ds = [unbind, BindDirentry j p' nk d'' i (ir_inode_kind inode) (ir_committed_by inode)
                       (ir_committed_at_ms inode) rv]"
    by (auto simp: validate_rename_def)
  note checked = source_binding_checked [OF ok source] and kind = kind_checked [OF ok inode]
    and target = name_absent_checked(2) [OF ok name] and unc = not_covered_checked [OF ok cov]
  from checked(1) obtain d where slot: "t_slot ?t (rb_parent_inode_id b, rb_name_key b) = Some (i, rb_bind_position b, d)"
    unfolding i by blast
  have above: "i \<notin> tree_ancestors ?t p'"
  proof (cases "ir_inode_kind inode = Directory")
    case True
    with no_cycle_checked [OF ok cycle] kind(2) show ?thesis by simp
  next
    case False
    with kind(1) show ?thesis by (intro not_directory_not_above [OF session_okD(2) [OF ok] target]) simp
  qed
  have free: "t_slot ?t (p', nk) = None \<or> (\<exists>e. t_slot ?t (p', nk) = Some (i, e))"
    using name_absent_checked(3) [OF ok name unc] by auto
  from run_rename [OF session_okD(2) [OF ok] slot checked(2) [unfolded i] kind(1) target unc above free]
  show ?thesis using unbind i unfolding ds by (simp add: unbind_delta_Inr Let_def)
qed

lemma validate_undelete_runs:
  assumes ok: "session_ok vs m" and res: "validate_undelete u vs i seq p d = Inr (ds, n)"
  shows "tree_run (vs_committed_seq vs) (view_tree (session_view vs) m) ds"
proof -
  let ?t = "view_tree (session_view vs) m"
  from res obtain inode del nk rv j j'
    where inode: "view_inode_at_seq (session_view vs) i = Inr (Some inode)"
      and del: "resolve_recoverable_deletion vs i seq = Inr del"
      and name: "resolve_name_absent u vs p d None UndeleteTarget = Inr nk"
      and cov: "ensure_not_covered_by_tombstone vs p UndeleteTarget = Inr ()"
      and ds: "ds = [RevokeSubtreeTombstone j i (tb_position del),
                     BindDirentry j' p nk d i (ir_inode_kind inode) (ir_committed_by inode)
                       (ir_committed_at_ms inode) rv]"
    by (auto simp: validate_undelete_def)
  note unc = not_covered_checked [OF ok cov]
  have "t_slot ?t (p, nk) = None" using name_absent_checked(3) [OF ok name unc] by simp
  from run_undelete [OF session_okD(2) [OF ok] recoverable_checked [OF ok del] kind_checked(1) [OF ok inode]
      this name_absent_checked(2) [OF ok name] unc]
  show ?thesis unfolding ds .
qed

lemma validate_operation_runs:
  assumes ok: "session_ok vs m" and res: "validate_operation u hvc vs op1 = Inr (ds, n)"
    and planned: "op_planned (view_tree (session_view vs) m) op1"
  shows "tree_run (vs_committed_seq vs) (view_tree (session_view vs) m) ds"
proof (cases op1)
  case (CreateDirectory c p d)
  with validate_create_runs [OF ok] res planned show ?thesis by simp
next
  case (CreateFile c p d cr)
  with validate_create_runs [OF ok] res planned show ?thesis by simp
next
  case (ReplaceFile i base cr off)
  with res revision_run [OF ok] show ?thesis
    by (auto simp: validate_replace_file_def ensure_file_base_revision_is_def simp del: tree_run.simps)
next
  case (RestoreRevision i source base)
  with res revision_run [OF ok] show ?thesis
    by (auto simp: validate_restore_revision_def ensure_file_base_revision_is_def simp del: tree_run.simps)
next
  case (DeleteFile i b)
  with res planned delete_runs [OF ok] show ?thesis by (auto simp: validate_delete_file_def)
next
  case (Rename i b p d)
  with validate_rename_runs [OF ok] res planned show ?thesis by simp
next
  case (DeleteSubtree r b e)
  with res planned delete_runs [OF ok] show ?thesis by (auto simp: validate_delete_subtree_def)
next
  case (Undelete i seq p d)
  with validate_undelete_runs [OF ok] res show ?thesis by simp
next
  case (UpdateAttributes i base as)
  with res target_visible_checked [OF ok] show ?thesis by (auto simp: validate_update_attributes_def)
next
  case (UpdateAccess i base bd gs)
  with res target_visible_checked [OF ok] show ?thesis by (auto simp: validate_update_access_def)
qed

lemma validate_operation_numbered:
  assumes "validate_operation u hvc vs op1 = Inr (ds, n)"
  shows "numbered (cn_next_delta_index (vs_numbering vs)) ds (cn_next_delta_index n)"
proof (cases op1)
  case (CreateDirectory c p d)
  with assms have "validate_create u vs c p d NewDirectory = Inr (ds, n)" by simp
  then show ?thesis by (rule validate_create_InrE) simp
next
  case (CreateFile c p d cr)
  with assms have "validate_create u vs c p d (NewFile cr) = Inr (ds, n)" by simp
  then show ?thesis by (rule validate_create_InrE) simp
qed (use assms in \<open>auto simp: validate_replace_file_def validate_restore_revision_def
       validate_delete_file_def validate_rename_def validate_delete_subtree_def
       validate_undelete_def validate_update_attributes_def validate_update_access_def
       builders_Inr Let_def\<close>)

section \<open>Sessions advance\<close>

text \<open>The rows of a session end with the overlay's.\<close>

lemma session_flat:
  "flat sel (session_view vs) m =
     sel m @ concat (map sel (rev (durable_row_states (session_view vs)))) @
     sel (vs_batch_accepted vs) @ sel (vs_overlay vs)"
  by (simp add: flat_def view_row_states_def overlay_states_def session_view_def with_overlay_def)

lemma durable_session [simp]:
  "durable_row_states (session_view (vs \<lparr> vs_overlay := st \<rparr>)) = durable_row_states (session_view vs)"
  "durable_row_states (session_view (vs \<lparr> vs_numbering := n \<rparr>)) = durable_row_states (session_view vs)"
  by (simp_all add: durable_row_states_def session_view_def with_overlay_def split: option.splits)

text \<open>One delta of the loop over an operation's deltas.\<close>

definition session_push :: "wal_delta \<Rightarrow> validation_session \<Rightarrow> validation_session" where
  "session_push d vs =
     vs \<lparr> vs_overlay := apply_committed_wal_delta (vs_committed_seq vs) (vs_commit_id vs)
                         (vs_actor_id vs) (vs_committed_at_ms vs) d (vs_overlay vs),
          vs_numbering := (vs_numbering vs) \<lparr> cn_next_delta_index := wal_delta_index d + 1 \<rparr> \<rparr>"

abbreviation session_delta_rows :: "(metadata_state \<Rightarrow> 'a list) \<Rightarrow> validation_session \<Rightarrow> wal_delta \<Rightarrow> 'a list" where
  "session_delta_rows sel vs d \<equiv>
     delta_rows sel (vs_committed_seq vs) (vs_commit_id vs) (vs_actor_id vs) (vs_committed_at_ms vs) d"

lemma session_push_flat:
  shows "flat ms_inodes (session_view (session_push d vs)) m =
      flat ms_inodes (session_view vs) m @ session_delta_rows ms_inodes vs d"
    and "flat ms_direntry_binds (session_view (session_push d vs)) m =
      flat ms_direntry_binds (session_view vs) m @ session_delta_rows ms_direntry_binds vs d"
    and "flat ms_revisions (session_view (session_push d vs)) m =
      flat ms_revisions (session_view vs) m @ session_delta_rows ms_revisions vs d"
    and "flat ms_subtree_tombstones (session_view (session_push d vs)) m =
      flat ms_subtree_tombstones (session_view vs) m @ session_delta_rows ms_subtree_tombstones vs d"
  unfolding session_flat session_push_def by (simp_all add: apply_delta_rows [of _ _ _ _ d "vs_overlay vs"])

lemma session_push_sel [simp]:
  "vs_committed_seq (session_push d vs) = vs_committed_seq vs"
  "next_position (session_push d vs) = DeltaPosition (vs_committed_seq vs) (wal_delta_index d + 1)"
  "mv_manifest (session_view (session_push d vs)) = mv_manifest (session_view vs)"
  by (simp_all add: session_push_def next_position_def session_view_def with_overlay_def)

lemma session_push_tree:
  assumes "session_ok vs m" "tree_allows (vs_committed_seq vs) (view_tree (session_view vs) m) d"
    "next_position vs = DeltaPosition (vs_committed_seq vs) (wal_delta_index d)"
    "wal_delta_index d < wal_delta_index d + 1"
  shows "view_tree (session_view (session_push d vs)) m =
    tree_step (vs_committed_seq vs) d (view_tree (session_view vs) m)"
  unfolding view_tree_def session_push_flat session_view_seq session_push_sel
  by (rule core_tree_delta [OF session_okD(3) [OF assms(1), unfolded assms(3)] order_refl assms(4)
        tree_allows_fits [OF assms(2) [unfolded view_tree_def session_view_seq]]])

lemma tree_allows_not_root:
  assumes "tree_inv t" "tree_allows s t d" "row \<in> set (delta_rows ms_direntry_binds s cid actor ms d)"
  shows "db_child_inode_id row \<noteq> ROOT_INODE_ID"
  using assms(2,3) tree_invD(6) [OF assms(1)] tree_invD(1) [OF assms(1)]
  by (cases d) (auto simp: Let_def split: option.splits)

lemma delta_rows_inode:
  assumes "row \<in> set (delta_rows ms_inodes s cid actor ms d)"
  shows "ir_committed_seq row = s" "tree_allows s t d \<Longrightarrow> t_kind t (ir_inode_id row) = None"
  using assms by (cases d; auto simp: Let_def split: option.splits)+

lemma delta_rows_revision:
  "delta_rows ms_revisions s cid actor ms d = [] \<or>
     (\<exists>row. delta_rows ms_revisions s cid actor ms d = [row] \<and>
        rv_position row = DeltaPosition s (wal_delta_index d))"
  by (cases d) (auto simp: Let_def rv_position_def split: option.splits)

lemma increasing_inj_position:
  assumes "increasing rv_position rows" shows "inj_on revision_order_key (set rows)"
proof (rule inj_onI)
  fix x y assume "x \<in> set rows" "y \<in> set rows" "revision_order_key x = revision_order_key y"
  moreover from this have "rv_position x = rv_position y"
    by (simp add: revision_order_key_def rv_position_def)
  ultimately show "x = y" using increasing_inj_on [OF assms] by (auto dest: inj_onD)
qed

lemma delta_inodes_distinct:
  assumes view: "view_ok view m" and inodes: "\<forall>row\<in>set (flat ms_inodes view m). ir_committed_seq row \<le> s"
    and allows: "tree_allows s (view_tree view m) d" and s: "mv_visible_seq view = s"
  shows "distinct (map ir_inode_id (flat ms_inodes view m @ delta_rows ms_inodes s cid actor ms d))"
proof -
  let ?new = "delta_rows ms_inodes s cid actor ms d"
  have "ir_inode_id row \<notin> ir_inode_id ` set (flat ms_inodes view m)" if "row \<in> set ?new" for row
    using delta_rows_inode(2) [OF that allows] inodes
    by (auto simp: view_tree_def t_kind_core inode_scan_None s)
  then have "\<forall>i\<in>ir_inode_id ` set ?new. i \<notin> ir_inode_id ` set (flat ms_inodes view m)" by simp
  then have "ir_inode_id ` set (flat ms_inodes view m) \<inter> ir_inode_id ` set ?new = {}" by blast
  moreover have "length ?new \<le> 1" by (cases d) (auto simp: Let_def split: option.splits)
  then have "distinct (map ir_inode_id ?new)" by (cases ?new) auto
  ultimately show ?thesis using view by (simp add: view_ok_def)
qed

lemma session_push_rows:
  assumes ok: "session_ok vs m" and allows: "tree_allows (vs_committed_seq vs) (view_tree (session_view vs) m) d"
    and pos: "next_position vs = DeltaPosition (vs_committed_seq vs) (wal_delta_index d)"
    and step: "wal_delta_index d < wal_delta_index d + 1"
  shows "session_rows_ok (session_push d vs) m"
proof -
  let ?s = "vs_committed_seq vs" and ?vs = "session_push d vs"
  from ok have rows: "session_rows_ok vs m" by (simp add: session_ok_def)
  then have view: "view_ok (session_view vs) m"
    and revs: "increasing rv_position (flat ms_revisions (session_view vs) m)"
      "\<forall>row\<in>set (flat ms_revisions (session_view vs) m). rv_position row < next_position vs"
    and inodes: "\<forall>row\<in>set (flat ms_inodes (session_view vs) m). ir_committed_seq row \<le> ?s"
    by (simp_all add: session_rows_ok_def)
  have hist: "history_below (flat ms_direntry_binds (session_view ?vs) m)
      (flat ms_subtree_tombstones (session_view ?vs) m) (next_position ?vs)"
    unfolding session_push_flat session_push_sel
    by (rule history_below_delta [OF session_okD(3) [OF ok, unfolded pos] order_refl step])
  have later: "q < next_position vs \<Longrightarrow> q < next_position ?vs" for q
    using step unfolding pos by (cases q) auto
  have below: "next_position vs < next_position ?vs" using step by (simp add: pos)
  have inc: "increasing rv_position (flat ms_revisions (session_view ?vs) m)"
    "\<forall>row\<in>set (flat ms_revisions (session_view ?vs) m). rv_position row < next_position ?vs"
    using delta_rows_revision [of ?s "vs_commit_id vs" "vs_actor_id vs" "vs_committed_at_ms vs" d] revs later below
    unfolding session_push_flat by (auto simp: sorted_wrt_append pos)
  have dist: "distinct (map ir_inode_id (flat ms_inodes (session_view ?vs) m))"
    unfolding session_push_flat by (rule delta_inodes_distinct [OF view inodes allows session_view_seq])
  have "set (view_row_states (session_view ?vs)) \<subseteq>
      insert (vs_overlay ?vs) (set (view_row_states (session_view vs)))"
    "vs_overlay vs \<in> set (view_row_states (session_view vs))"
    unfolding view_row_states_def overlay_states_def session_push_def
    by (auto simp: session_view_def with_overlay_def durable_row_states_def split: option.splits)
  then have "\<forall>st\<in>set (view_row_states (session_view ?vs)). indexes_ok st"
    using view by (auto simp: view_ok_def session_push_def intro: apply_delta_indexes_ok)
  moreover have "\<forall>row\<in>set (flat ms_direntry_binds (session_view ?vs) m). db_child_inode_id row \<noteq> ROOT_INODE_ID"
    using view tree_allows_not_root [OF session_okD(2) [OF ok] allows]
    unfolding session_push_flat by (auto simp: view_ok_def)
  moreover have "inj_on db_position (set (flat ms_direntry_binds (session_view ?vs) m))"
    "inj_on tb_position (set (flat ms_subtree_tombstones (session_view ?vs) m))"
    using hist by (simp_all add: history_below_def increasing_inj_on)
  ultimately have "view_ok (session_view ?vs) m"
    using view dist increasing_inj_position [OF inc(1)] by (simp add: view_ok_def)
  moreover have "\<forall>row\<in>set (flat ms_inodes (session_view ?vs) m). ir_committed_seq row \<le> ?s"
    using inodes delta_rows_inode(1) unfolding session_push_flat by auto
  ultimately show ?thesis using hist inc by (simp add: session_rows_ok_def)
qed

lemma delta_rows_kind:
  assumes "tree_allows s t d" "row \<in> set (delta_rows ms_direntry_binds s cid actor ms d)"
  shows "t_kind (tree_step s d t) (db_child_inode_id row) = Some (db_child_kind row)"
  using assms by (cases d) (auto simp: Let_def split: option.splits)

lemma tree_step_kind:
  "tree_allows s t d \<Longrightarrow> t_kind t i = Some k \<Longrightarrow> t_kind (tree_step s d t) i = Some k"
  by (cases d) auto

lemma session_push_kinds:
  assumes "session_ok vs m" "tree_allows (vs_committed_seq vs) (view_tree (session_view vs) m) d"
    "next_position vs = DeltaPosition (vs_committed_seq vs) (wal_delta_index d)"
    "wal_delta_index d < wal_delta_index d + 1"
  shows "kinds_ok (session_view (session_push d vs)) m"
  unfolding kinds_ok_def session_push_tree [OF assms] session_push_flat set_append ball_Un
  using session_okD(4) [OF assms(1)] delta_rows_kind [OF assms(2)] tree_step_kind [OF assms(2)]
  unfolding kinds_ok_def by blast

lemma session_push_ok:
  assumes "session_ok vs m" "tree_allows (vs_committed_seq vs) (view_tree (session_view vs) m) d"
    "next_position vs = DeltaPosition (vs_committed_seq vs) (wal_delta_index d)"
    "wal_delta_index d < wal_delta_index d + 1"
  shows "session_ok (session_push d vs) m"
  unfolding session_ok_def session_push_tree [OF assms]
  using session_push_rows [OF assms] session_push_kinds [OF assms]
    tree_inv_step [OF session_okD(2) [OF assms(1)] assms(2)] by simp

lemma session_pushes_ok:
  assumes "session_ok vs m" "tree_run (vs_committed_seq vs) (view_tree (session_view vs) m) ds"
    "numbered (cn_next_delta_index (vs_numbering vs)) ds j"
  shows "session_ok (fold session_push ds vs) m \<and>
    view_tree (session_view (fold session_push ds vs)) m =
      fold (tree_step (vs_committed_seq vs)) ds (view_tree (session_view vs) m)"
  using assms
proof (induction ds arbitrary: vs)
  case Nil
  then show ?case by simp
next
  case (Cons d ds)
  have pos: "next_position vs = DeltaPosition (vs_committed_seq vs) (wal_delta_index d)"
    and step: "wal_delta_index d < wal_delta_index d + 1" using Cons.prems(3) by (auto simp: next_position_def)
  have allows: "tree_allows (vs_committed_seq vs) (view_tree (session_view vs) m) d"
    using Cons.prems(2) by simp
  note push = session_push_ok [OF Cons.prems(1) allows pos step]
    session_push_tree [OF Cons.prems(1) allows pos step]
  have "numbered (cn_next_delta_index (vs_numbering (session_push d vs))) ds j"
    using Cons.prems(3) by (simp add: session_push_def)
  with Cons.IH [OF push(1)] Cons.prems(2) push(2) show ?case by simp
qed

section \<open>Commits\<close>

text \<open>Carrying a layout changes neither the number nor the effect of a delta.\<close>

lemma carry_layout_delta [simp]:
  "wal_delta_index (carry_layout f d) = wal_delta_index d"
  "tree_step s (carry_layout f d) t = tree_step s d t"
  "tree_allows s t (carry_layout f d) = tree_allows s t d"
  by (cases d; simp)+

lemma carry_layouts [simp]:
  "numbered i (map (carry_layout f) ds) j = numbered i ds j"
  "tree_run s t (map (carry_layout f) ds) = tree_run s t ds"
  by (induction ds arbitrary: i t) simp_all

text \<open>The inodes an operation creates, and the promises of planning for a whole commit.\<close>

fun op_creates :: "commit_operation \<Rightarrow> inode_id list" where
  "op_creates (CreateDirectory c _ _) = [c]"
| "op_creates (CreateFile c _ _ _) = [c]"
| "op_creates _ = []"

fun op_source_is_target :: "commit_operation \<Rightarrow> bool" where
  "op_source_is_target (DeleteFile i b) \<longleftrightarrow> rb_child_inode_id b = i"
| "op_source_is_target (Rename i b _ _) \<longleftrightarrow> rb_child_inode_id b = i"
| "op_source_is_target (DeleteSubtree r b _) \<longleftrightarrow> rb_child_inode_id b = r"
| "op_source_is_target _ \<longleftrightarrow> True"

definition plan_ok :: "tree \<Rightarrow> commit_operation list \<Rightarrow> bool" where
  "plan_ok t ops \<longleftrightarrow>
     distinct (concat (map op_creates ops)) \<and>
     (\<forall>i\<in>set (concat (map op_creates ops)). t_kind t i = None) \<and>
     (\<forall>op1\<in>set ops. op_source_is_target op1)"

lemma plan_ok_head: "plan_ok t (op1 # ops) \<Longrightarrow> op_planned t op1"
  by (cases op1) (auto simp: plan_ok_def)

fun delta_creates :: "wal_delta \<Rightarrow> inode_id list" where
  "delta_creates (CreateInode _ i _) = [i]"
| "delta_creates _ = []"

lemma validate_operation_creates:
  assumes "validate_operation u hvc vs op1 = Inr (ds, n)"
  shows "concat (map delta_creates ds) = op_creates op1"
proof (cases op1)
  case (CreateDirectory c p d)
  with assms have "validate_create u vs c p d NewDirectory = Inr (ds, n)" by simp
  then show ?thesis by (rule validate_create_InrE) (simp add: CreateDirectory)
next
  case (CreateFile c p d cr)
  with assms have "validate_create u vs c p d (NewFile cr) = Inr (ds, n)" by simp
  then show ?thesis by (rule validate_create_InrE) (simp add: CreateFile)
qed (use assms in \<open>auto simp: validate_replace_file_def validate_restore_revision_def
       validate_delete_file_def validate_rename_def validate_delete_subtree_def
       validate_undelete_def validate_update_attributes_def validate_update_access_def
       builders_Inr Let_def\<close>)

lemma carry_layout_creates [simp]: "delta_creates (carry_layout f d) = delta_creates d"
  by (cases d) simp_all

lemma carry_layouts_creates [simp]:
  "concat (map (delta_creates \<circ> carry_layout f) ds) = concat (map delta_creates ds)"
  by (simp add: comp_def)

lemma kind_after:
  "i \<notin> set (concat (map delta_creates ds)) \<Longrightarrow> t_kind (fold (tree_step s) ds t) i = t_kind t i"
proof (induction ds arbitrary: t)
  case (Cons d ds)
  then have "t_kind (fold (tree_step s) (d # ds) t) i = t_kind (tree_step s d t) i" by simp
  also have "\<dots> = t_kind t i" using Cons.prems by (cases d) auto
  finally show ?case .
qed simp

lemma plan_ok_tail:
  assumes "plan_ok t (op1 # ops)" "concat (map delta_creates ds) = op_creates op1"
  shows "plan_ok (fold (tree_step s) ds t) ops"
proof -
  have "t_kind (fold (tree_step s) ds t) i = None" if "i \<in> set (concat (map op_creates ops))" for i
  proof -
    have "i \<notin> set (op_creates op1)" "t_kind t i = None" using assms(1) that by (auto simp: plan_ok_def)
    then show ?thesis using kind_after [of i ds s t] unfolding assms(2) by simp
  qed
  with assms(1) show ?thesis by (simp add: plan_ok_def)
qed

lemma session_ok_cong:
  assumes "cn_next_delta_index n = cn_next_delta_index (vs_numbering vs)"
  shows "session_ok (vs \<lparr> vs_numbering := n \<rparr>) m = session_ok vs m"
  using assms by (simp add: session_ok_def session_rows_ok_def next_position_def session_view_def)

lemma fold_session_push:
  "vs_overlay (fold session_push ds vs) = overlay_deltas ds vs"
  "vs_base_view (fold session_push ds vs) = vs_base_view vs"
  "vs_batch_accepted (fold session_push ds vs) = vs_batch_accepted vs"
  "vs_committed_seq (fold session_push ds vs) = vs_committed_seq vs"
  "vs_commit_id (fold session_push ds vs) = vs_commit_id vs"
  "vs_actor_id (fold session_push ds vs) = vs_actor_id vs"
  "vs_committed_at_ms (fold session_push ds vs) = vs_committed_at_ms vs"
  by (induction ds arbitrary: vs) (simp_all add: session_push_def overlay_deltas_def)

lemma fold_session_push_numbering:
  "numbered (cn_next_delta_index (vs_numbering vs)) ds j \<Longrightarrow>
    cn_next_delta_index (vs_numbering (fold session_push ds vs)) = j"
  by (induction ds arbitrary: vs) (auto simp: session_push_def)

text \<open>The session after an operation is the session its deltas push.\<close>

lemma pushed_session:
  assumes "numbered (cn_next_delta_index (vs_numbering vs)) ds (cn_next_delta_index n)"
  shows "session_ok (vs \<lparr> vs_numbering := n, vs_overlay := overlay_deltas ds vs \<rparr>) m =
      session_ok (fold session_push ds vs) m"
    and "session_view (vs \<lparr> vs_numbering := n, vs_overlay := overlay_deltas ds vs \<rparr>) =
      session_view (fold session_push ds vs)"
proof -
  let ?vs = "fold session_push ds vs"
  have same: "vs \<lparr> vs_numbering := n, vs_overlay := overlay_deltas ds vs \<rparr> = ?vs \<lparr> vs_numbering := n \<rparr>"
    by (rule validation_session.equality) (simp_all add: fold_session_push)
  show "session_ok (vs \<lparr> vs_numbering := n, vs_overlay := overlay_deltas ds vs \<rparr>) m = session_ok ?vs m"
    unfolding same using fold_session_push_numbering [OF assms] by (intro session_ok_cong) simp
  show "session_view (vs \<lparr> vs_numbering := n, vs_overlay := overlay_deltas ds vs \<rparr>) = session_view ?vs"
    unfolding same by (simp add: session_view_def)
qed

lemma validate_step_ok:
  assumes ok: "session_ok vs m" and res: "validate_step u hvc rl vs op1 = Inr (wds, vs')"
    and planned: "op_planned (view_tree (session_view vs) m) op1"
  defines "s \<equiv> vs_committed_seq vs" and "t \<equiv> view_tree (session_view vs) m"
  shows "session_ok vs' m \<and> vs_committed_seq vs' = s \<and> tree_run s t (map wd_delta wds) \<and>
    view_tree (session_view vs') m = fold (tree_step s) (map wd_delta wds) t \<and>
    concat (map delta_creates (map wd_delta wds)) = op_creates op1 \<and>
    numbered (cn_next_delta_index (vs_numbering vs)) (map wd_delta wds) (cn_next_delta_index (vs_numbering vs'))"
proof -
  from res obtain op_index n0 ds n where reserved: "reserve_op_index (vs_numbering vs) = Inr (op_index, n0)"
    and op1: "validate_operation u hvc (vs \<lparr> vs_numbering := n0 \<rparr>) op1 = Inr (ds, n)"
    and wds: "map wd_delta wds = map (carry_layout rl) ds"
    and vs': "vs' = vs \<lparr> vs_numbering := n0 \<rparr> \<lparr> vs_numbering := n,
      vs_overlay := overlay_deltas (map (carry_layout rl) ds) (vs \<lparr> vs_numbering := n0 \<rparr>) \<rparr>"
    by (auto simp: validate_step_def Let_def)
  let ?vs = "vs \<lparr> vs_numbering := n0 \<rparr>" and ?ds = "map (carry_layout rl) ds"
  have view: "session_view ?vs = session_view vs" by (simp add: session_view_def)
  have ok': "session_ok ?vs m"
    using reserved ok by (subst session_ok_cong) (auto simp: reserve_op_index_def)
  have run: "tree_run s t ?ds"
    using validate_operation_runs [OF ok' op1] planned unfolding view by (simp add: s_def t_def)
  have num: "numbered (cn_next_delta_index (vs_numbering ?vs)) ?ds (cn_next_delta_index n)"
    using validate_operation_numbered [OF op1] by simp
  have "cn_next_delta_index n0 = cn_next_delta_index (vs_numbering vs)"
    using reserved by (auto simp: reserve_op_index_def)
  moreover have "session_ok (fold session_push ?ds ?vs) m \<and>
      view_tree (session_view (fold session_push ?ds ?vs)) m = fold (tree_step s) ?ds t"
    using session_pushes_ok [OF ok' _ num] run unfolding view by (simp add: s_def t_def)
  moreover have "concat (map delta_creates ?ds) = op_creates op1"
    using validate_operation_creates [OF op1] by simp
  ultimately show ?thesis
    using run num unfolding vs' wds pushed_session [OF num] by (simp add: s_def)
qed

lemma numbered_append:
  "numbered i ds j \<Longrightarrow> numbered j ds' k \<Longrightarrow> numbered i (ds @ ds') k"
  by (induction ds arbitrary: i) auto

lemma validate_ops_ok:
  assumes "session_ok vs m" "plan_ok (view_tree (session_view vs) m) ops"
    "validate_ops u hvc rl vs ops = Inr (wds, vs')"
  shows "session_ok vs' m \<and> vs_committed_seq vs' = vs_committed_seq vs \<and>
    tree_run (vs_committed_seq vs) (view_tree (session_view vs) m) (map wd_delta wds) \<and>
    view_tree (session_view vs') m =
      fold (tree_step (vs_committed_seq vs)) (map wd_delta wds) (view_tree (session_view vs) m) \<and>
    numbered (cn_next_delta_index (vs_numbering vs)) (map wd_delta wds) (cn_next_delta_index (vs_numbering vs'))"
  using assms
proof (induction ops arbitrary: vs wds vs')
  case Nil
  then show ?case by simp
next
  case (Cons op1 ops)
  from Cons.prems(3) obtain wds1 vs1 wds2 where step: "validate_step u hvc rl vs op1 = Inr (wds1, vs1)"
    and rest: "validate_ops u hvc rl vs1 ops = Inr (wds2, vs')" and wds: "wds = wds1 @ wds2"
    by auto
  note first = validate_step_ok [OF Cons.prems(1) step plan_ok_head [OF Cons.prems(2)]]
  then have "plan_ok (view_tree (session_view vs1) m) ops"
    using plan_ok_tail [OF Cons.prems(2)] by simp
  from Cons.IH [OF _ this rest] first show ?case
    unfolding wds by (auto simp: tree_run_append intro: numbered_append)
qed

end
