(* ===== verification/Model_Agreement.thy ===== *)
theory Model_Agreement
  imports Reference_Model Commit_Safety
begin

text \<open>
  The core and the reference model agree.  Both histories of rows stand for an abstract
  namespace; a commit the core validates moves the model's namespace by the same steps, the
  model's own verification of the bindings accepts it, and paths resolve alike on both
  sides.
\<close>

section \<open>The namespace of the model's rows\<close>

definition model_edge :: "model_binding \<Rightarrow> (delta_position \<times> display_name) option" where
  "model_edge row =
     (case mdb_state row of ModelBound d \<Rightarrow> Some (mdb_position row, d) | ModelUnbound \<Rightarrow> None)"

definition model_tree :: "model_state \<Rightarrow> change_seq \<Rightarrow> tree" where
  "model_tree md s =
     \<lparr> t_slot = (\<lambda>(p, n). Option.bind (slot_value md p n s)
                   (\<lambda>row. map_option (Pair (mdb_child_inode_id row)) (model_edge row))),
       t_parent = (\<lambda>c. Option.bind (parent_binding md c s)
                     (\<lambda>row. map_option (Pair (mdb_parent_inode_id row, mdb_name_key row)) (model_edge row))),
       t_hidden = {r. is_hidden_root md r s},
       t_kind = (\<lambda>i. map_option min_inode_kind
                  (find (\<lambda>inode. min_inode_id inode = i \<and> min_committed_seq inode \<le> s) (md_inodes md))) \<rparr>"

text \<open>The model's rows lie in commit order below a position.\<close>

definition mtb_position :: "model_tombstone \<Rightarrow> change_seq \<times> u32" where
  "mtb_position row = (mtb_committed_seq row, mtb_delta_index row)"

definition model_below :: "model_state \<Rightarrow> change_seq \<Rightarrow> u32 \<Rightarrow> bool" where
  "model_below md s di \<longleftrightarrow>
     increasing mdb_position (md_direntry_binds md) \<and>
     (\<forall>row\<in>set (md_direntry_binds md). mdb_position row < DeltaPosition s di) \<and>
     increasing mtb_position (md_subtree_tombstones md) \<and>
     (\<forall>row\<in>set (md_subtree_tombstones md). mtb_position row < (s, di))"

lemma model_below_scans:
  assumes "model_below md s di"
  shows "slot_value md p n s =
      latest (\<lambda>row. mdb_parent_inode_id row = p \<and> mdb_name_key row = n) (md_direntry_binds md)"
    and "parent_binding md c s =
      option_filter model_is_bound (latest (\<lambda>row. mdb_child_inode_id row = c) (md_direntry_binds md))"
    and "is_hidden_root md r s \<longleftrightarrow>
      (\<exists>row k b. latest (\<lambda>row. mtb_root_inode_id row = r) (md_subtree_tombstones md) = Some row \<and>
         mtb_action row = ModelSet k b)"
proof -
  have seq: "row \<in> set (md_direntry_binds md) \<Longrightarrow> mdb_committed_seq row \<le> s"
    "tb \<in> set (md_subtree_tombstones md) \<Longrightarrow> mtb_committed_seq tb \<le> s" for row tb
    using assms by (auto simp: model_below_def mdb_position_def mtb_position_def less_imp_le)
  have inc: "increasing mdb_position (md_direntry_binds md)"
    "increasing mtb_position (md_subtree_tombstones md)"
    using assms by (simp_all add: model_below_def)
  show "slot_value md p n s =
      latest (\<lambda>row. mdb_parent_inode_id row = p \<and> mdb_name_key row = n) (md_direntry_binds md)"
    unfolding slot_value_def by (rule max_by_key_latest [OF inc(1)]) (simp add: seq)
  have "max_by_key mdb_position
      (filter (\<lambda>row. mdb_child_inode_id row = c \<and> mdb_committed_seq row \<le> s) (md_direntry_binds md)) =
      latest (\<lambda>row. mdb_child_inode_id row = c) (md_direntry_binds md)"
    by (rule max_by_key_latest [OF inc(1)]) (simp add: seq)
  then show "parent_binding md c s =
      option_filter model_is_bound (latest (\<lambda>row. mdb_child_inode_id row = c) (md_direntry_binds md))"
    by (simp add: parent_binding_def)
  have "max_by_key (\<lambda>event. (mtb_committed_seq event, mtb_delta_index event))
      (filter (\<lambda>event. mtb_root_inode_id event = r \<and> mtb_committed_seq event \<le> s) (md_subtree_tombstones md)) =
      latest (\<lambda>row. mtb_root_inode_id row = r) (md_subtree_tombstones md)"
    by (rule max_by_key_latest [OF inc(2) [unfolded mtb_position_def]]) (simp add: seq)
  then show "is_hidden_root md r s \<longleftrightarrow>
      (\<exists>row k b. latest (\<lambda>row. mtb_root_inode_id row = r) (md_subtree_tombstones md) = Some row \<and>
         mtb_action row = ModelSet k b)"
    by (auto simp: is_hidden_root_def split: option.splits model_tombstone_action.splits)
qed

lemma model_tree_latest:
  assumes "model_below md s di"
  shows "model_tree md s =
     \<lparr> t_slot = (\<lambda>(p, n). Option.bind
         (latest (\<lambda>row. mdb_parent_inode_id row = p \<and> mdb_name_key row = n) (md_direntry_binds md))
         (\<lambda>row. map_option (Pair (mdb_child_inode_id row)) (model_edge row))),
       t_parent = (\<lambda>c. Option.bind
         (option_filter model_is_bound (latest (\<lambda>row. mdb_child_inode_id row = c) (md_direntry_binds md)))
         (\<lambda>row. map_option (Pair (mdb_parent_inode_id row, mdb_name_key row)) (model_edge row))),
       t_hidden = {r. \<exists>row k b. latest (\<lambda>row. mtb_root_inode_id row = r) (md_subtree_tombstones md) = Some row \<and>
         mtb_action row = ModelSet k b},
       t_kind = (\<lambda>i. map_option min_inode_kind
          (find (\<lambda>inode. min_inode_id inode = i \<and> min_committed_seq inode \<le> s) (md_inodes md))) \<rparr>"
  by (simp add: model_tree_def model_below_scans [OF assms])

section \<open>A delta moves both\<close>

lemma model_below_delta:
  assumes "model_below md s di" "di \<le> wal_delta_index d" "wal_delta_index d < di'"
  shows "model_below (model_push_delta s cid actor ms d md) s di'"
proof -
  have step: "pos < DeltaPosition s di \<Longrightarrow> pos < DeltaPosition s (wal_delta_index d)"
    "pos < DeltaPosition s di \<Longrightarrow> pos < DeltaPosition s di'" for pos
    using assms(2,3) by (cases pos; auto)+
  have pair: "x < (s, di) \<Longrightarrow> x < (s, wal_delta_index d)" "x < (s, di) \<Longrightarrow> x < (s, di')" for x :: "change_seq \<times> u32"
    using assms(2,3) by (cases x; auto)+
  have "\<forall>row\<in>set (md_direntry_binds md). mdb_position row < DeltaPosition s (wal_delta_index d) \<and>
      mdb_position row < DeltaPosition s di'"
    "\<forall>row\<in>set (md_subtree_tombstones md). mtb_position row < (s, wal_delta_index d) \<and>
      mtb_position row < (s, di')"
    using assms(1) step pair unfolding model_below_def by blast+
  with assms(1,3) show ?thesis
    unfolding model_below_def
    by (cases d) (auto simp: sorted_wrt_append mdb_position_def mtb_position_def Let_def split: option.splits)
qed

lemma model_tree_delta:
  assumes below: "model_below md s di" and di: "di \<le> wal_delta_index d" "wal_delta_index d < di'"
    and allows: "tree_allows s (model_tree md s) d"
  shows "model_tree (model_push_delta s cid actor ms d md) s = tree_step s d (model_tree md s)"
  unfolding model_tree_latest [OF below] model_tree_latest [OF model_below_delta [OF below di]]
  using allows [unfolded model_tree_latest [OF below]]
  by (cases d)
     (auto simp: fun_eq_iff model_edge_def model_is_bound_def mdb_position_def find_snoc Let_def
        split: option.splits)

lemma model_tree_run:
  assumes "model_below md s di" "numbered di ds di'" "tree_run s (model_tree md s) ds"
  shows "model_below (fold (model_push_delta s cid actor ms) ds md) s di' \<and>
    model_tree (fold (model_push_delta s cid actor ms) ds md) s = fold (tree_step s) ds (model_tree md s)"
  using assms
proof (induction ds arbitrary: md di)
  case Nil
  then show ?case by simp
next
  case (Cons d ds)
  then have di: "di \<le> wal_delta_index d" "wal_delta_index d < di + 1" by simp_all
  have "tree_allows s (model_tree md s) d" using Cons.prems(3) by simp
  note step = model_tree_delta [OF Cons.prems(1) di this, of cid actor ms]
  from Cons.IH [OF model_below_delta [OF Cons.prems(1) di, of cid actor ms]] Cons.prems(2,3) step
  show ?case by simp
qed

section \<open>The model's verification\<close>

definition bound_slot :: "model_state \<Rightarrow> change_seq \<Rightarrow> inode_id \<times> name_key \<Rightarrow> model_binding option" where
  "bound_slot md s e = option_filter model_is_bound (slot_value md (fst e) (snd e) s)"

lemma bound_slot_key: "bound_slot md s e = Some v \<Longrightarrow> (mdb_parent_inode_id v, mdb_name_key v) = e"
  by (cases e) (auto simp: bound_slot_def slot_value_def dest!: max_by_key_mem)

lemma parent_binding_key: "parent_binding md c s = Some v \<Longrightarrow> mdb_child_inode_id v = c"
  by (auto simp: parent_binding_def dest!: max_by_key_mem)

lemma model_is_bound_edge: "model_is_bound v \<longleftrightarrow> (\<exists>d. model_edge v = Some (mdb_position v, d))"
  by (auto simp: model_is_bound_def model_edge_def split: model_binding_state.splits)

lemma model_edge_position: "model_edge v = Some (pos, d) \<Longrightarrow> pos = mdb_position v \<and> model_is_bound v"
  by (auto simp: model_is_bound_def model_edge_def split: model_binding_state.splits)

lemma t_slot_model:
  "t_slot (model_tree md s) e = Some (c, pos, d) \<longleftrightarrow>
     (\<exists>v. bound_slot md s e = Some v \<and> mdb_child_inode_id v = c \<and> model_edge v = Some (pos, d))"
  by (cases e) (auto simp: model_tree_def bound_slot_def bind_eq_Some_conv dest: model_edge_position)

lemma t_parent_model:
  "t_parent (model_tree md s) c = Some (e, pos, d) \<longleftrightarrow>
     (\<exists>v. parent_binding md c s = Some v \<and> (mdb_parent_inode_id v, mdb_name_key v) = e \<and>
        model_edge v = Some (pos, d))"
  by (auto simp: model_tree_def bind_eq_Some_conv)

lemma bound_by_slot_entries:
  "sorted_wrt (<) (map fst (bound_by_slot md s))"
  "(e, v) \<in> set (bound_by_slot md s) \<longleftrightarrow> bound_slot md s e = Some v"
proof -
  let ?ks = "map (\<lambda>row. (mdb_parent_inode_id row, mdb_name_key row)) (md_direntry_binds md)"
  have fold: "bound_by_slot md s =
      fold (\<lambda>e es. case bound_slot md s e of
              Some v \<Rightarrow> btree_insert (mdb_parent_inode_id v, mdb_name_key v) v es | None \<Rightarrow> es) ?ks []"
    by (simp add: bound_by_slot_def fold_map comp_def bound_slot_def)
  note fill = btree_fill [of "bound_slot md s" "\<lambda>v. (mdb_parent_inode_id v, mdb_name_key v)" "[]" ?ks,
      OF bound_slot_key [of md s], simplified, folded fold]
  show sorted: "sorted_wrt (<) (map fst (bound_by_slot md s))" using fill by blast
  have "bound_slot md s e = Some v \<Longrightarrow> e \<in> set ?ks" for v
    by (cases e) (force simp: bound_slot_def slot_value_def dest!: max_by_key_mem)
  then show "(e, v) \<in> set (bound_by_slot md s) \<longleftrightarrow> bound_slot md s e = Some v"
    unfolding map_of_iff_mem [OF sorted] using fill [of e] by (auto split: if_splits)
qed

lemma bound_by_child_entries:
  "sorted_wrt (<) (map fst (bound_by_child md s))"
  "(c, v) \<in> set (bound_by_child md s) \<longleftrightarrow> parent_binding md c s = Some v"
proof -
  let ?ks = "map mdb_child_inode_id (md_direntry_binds md)"
  have fold: "bound_by_child md s =
      fold (\<lambda>c es. case parent_binding md c s of
              Some v \<Rightarrow> btree_insert (mdb_child_inode_id v) v es | None \<Rightarrow> es) ?ks []"
    by (simp add: bound_by_child_def fold_map comp_def)
  note fill = btree_fill [of "\<lambda>c. parent_binding md c s" mdb_child_inode_id "[]" ?ks,
      OF parent_binding_key [of md _ s], simplified, folded fold]
  show sorted: "sorted_wrt (<) (map fst (bound_by_child md s))" using fill by blast
  have "parent_binding md c s = Some v \<Longrightarrow> c \<in> set ?ks" for v
    by (force simp: parent_binding_def dest!: max_by_key_mem)
  then show "(c, v) \<in> set (bound_by_child md s) \<longleftrightarrow> parent_binding md c s = Some v"
    unfolding map_of_iff_mem [OF sorted] using fill [of c] by (auto split: if_splits)
qed

lemma check_slot_of_child_Inr:
  "distinct (map mdb_child_inode_id vs) \<Longrightarrow> \<forall>v\<in>set vs. m (mdb_child_inode_id v) = None
    \<Longrightarrow> check_slot_of_child s m vs = Inr ()"
proof (induction vs arbitrary: m)
  case (Cons v vs)
  then have "\<forall>w\<in>set vs. (m(mdb_child_inode_id v \<mapsto> mdb_position v)) (mdb_child_inode_id w) = None"
    by (auto simp: image_iff)
  with Cons show ?case by simp
qed simp

lemma check_child_of_slot_Inr:
  "distinct (map (\<lambda>v. (mdb_parent_inode_id v, mdb_name_key v)) vs)
    \<Longrightarrow> \<forall>v\<in>set vs. m (mdb_parent_inode_id v, mdb_name_key v) = None
    \<Longrightarrow> check_child_of_slot s m vs = Inr ()"
proof (induction vs arbitrary: m)
  case (Cons v vs)
  let ?slot = "\<lambda>v. (mdb_parent_inode_id v, mdb_name_key v)"
  from Cons.prems have "\<forall>w\<in>set vs. (m(?slot v \<mapsto> mdb_position v)) (?slot w) = None"
    by (auto simp: image_iff)
  with Cons show ?case by (simp add: Let_def)
qed simp

text \<open>The ancestry of the model is the list of the tree's ancestors, when the tree is one.\<close>

lemma ancestry_loop_right:
  "acyclic (tree_edges (model_tree md s)) \<Longrightarrow> current \<in> set found \<Longrightarrow> \<forall>x\<in>set found. (x, current) \<in> (tree_edges (model_tree md s))\<^sup>*
    \<Longrightarrow> \<exists>xs. ancestry_loop md s found current = Inr xs \<and>
        set xs = set found \<union> tree_ancestors (model_tree md s) current"
proof (induction md s found current rule: ancestry_loop.induct)
  case (1 md s found current)
  let ?t = "model_tree md s"
  show ?case
  proof (cases "parent_binding md current s")
    case None
    then have "t_parent ?t current = None" by (simp add: model_tree_def)
    with None 1(3) show ?thesis
      by (subst ancestry_loop.simps) (auto simp: tree_ancestors_root)
  next
    case (Some v)
    then obtain d where edge: "model_edge v = Some (mdb_position v, d)"
      by (auto simp: parent_binding_def model_is_bound_edge)
    with Some have par: "t_parent ?t current =
        Some ((mdb_parent_inode_id v, mdb_name_key v), mdb_position v, d)"
      by (auto simp: t_parent_model)
    then have step: "(current, mdb_parent_inode_id v) \<in> tree_edges ?t" by (auto simp: tree_edges_def)
    have new: "mdb_parent_inode_id v \<notin> set found"
    proof
      assume "mdb_parent_inode_id v \<in> set found"
      with 1(4) have "(mdb_parent_inode_id v, current) \<in> (tree_edges ?t)\<^sup>*" by blast
      with step have "(current, current) \<in> (tree_edges ?t)\<^sup>+" by (rule rtrancl_into_trancl2)
      with 1(2) show False by (simp add: acyclic_def)
    qed
    have "\<forall>x\<in>set (found @ [mdb_parent_inode_id v]). (x, mdb_parent_inode_id v) \<in> (tree_edges ?t)\<^sup>*"
      using 1(4) step by (auto intro: rtrancl_into_rtrancl)
    from 1(1) [OF Some refl new 1(2) _ this] obtain xs
      where "ancestry_loop md s (found @ [mdb_parent_inode_id v]) (mdb_parent_inode_id v) = Inr xs"
        "set xs = set (found @ [mdb_parent_inode_id v]) \<union> tree_ancestors ?t (mdb_parent_inode_id v)"
      by auto
    with Some new 1(3) tree_ancestors_unfold [OF par] show ?thesis
      by (subst ancestry_loop.simps) auto
  qed
qed

lemma ancestry_right:
  assumes "acyclic (tree_edges (model_tree md s))"
  obtains xs where "ancestry md i s = Inr xs" "set xs = tree_ancestors (model_tree md s) i"
  using ancestry_loop_right [OF assms, of i "[i]"] by (auto simp: ancestry_def insert_absorb)

lemma check_ancestries_Inr:
  assumes "acyclic (tree_edges (model_tree md s))"
  shows "check_ancestries md s cs = Inr ()"
proof (induction cs)
  case (Cons c cs)
  obtain xs where "ancestry md c s = Inr xs" by (rule ancestry_right [OF assms])
  with Cons show ?case by simp
qed simp

text \<open>Seen from the slots and from the children, the bound rows are the tree's edges.\<close>

lemma bound_slot_edge:
  assumes "tree_inv (model_tree md s)" "bound_slot md s e = Some v"
  shows "\<exists>d. t_parent (model_tree md s) (mdb_child_inode_id v) = Some (e, mdb_position v, d)"
proof -
  from assms(2) obtain d where "model_edge v = Some (mdb_position v, d)"
    by (auto simp: bound_slot_def model_is_bound_edge)
  with assms(2) have "t_slot (model_tree md s) e = Some (mdb_child_inode_id v, mdb_position v, d)"
    by (auto simp: t_slot_model)
  with tree_invD(1) [OF assms(1)] show ?thesis by blast
qed

lemma bound_child_edge:
  assumes "tree_inv (model_tree md s)" "parent_binding md c s = Some v"
  shows "\<exists>d. t_slot (model_tree md s) (mdb_parent_inode_id v, mdb_name_key v) = Some (c, mdb_position v, d)"
proof -
  from assms(2) obtain d where "model_edge v = Some (mdb_position v, d)"
    by (auto simp: parent_binding_def model_is_bound_edge)
  with assms(2)
  have "t_parent (model_tree md s) c = Some ((mdb_parent_inode_id v, mdb_name_key v), mdb_position v, d)"
    by (auto simp: t_parent_model)
  with tree_invD(1) [OF assms(1)] show ?thesis by blast
qed

lemma distinct_entries:
  assumes "sorted_wrt (<) (map fst es)"
    and "\<And>k v k' v'. (k, v) \<in> set es \<Longrightarrow> (k', v') \<in> set es \<Longrightarrow> f v = f v' \<Longrightarrow> k = (k' :: 'k :: linorder)"
  shows "distinct (map f (map snd es))"
proof -
  have "inj_on fst (set es)" "distinct es" using assms(1) by (auto simp: strict_sorted_iff distinct_map)
  moreover from this(1) have "inj_on (f \<circ> snd) (set es)"
    using assms(2) by (intro inj_onI) (metis comp_apply inj_onD prod.collapse)
  ultimately show ?thesis by (simp add: distinct_map)
qed

lemma bound_orders:
  assumes "tree_inv (model_tree md s)"
  shows "mdb_position ` snd ` set (bound_by_slot md s) = mdb_position ` snd ` set (bound_by_child md s)"
proof (intro equalityI subsetI)
  fix pos assume "pos \<in> mdb_position ` snd ` set (bound_by_slot md s)"
  then obtain e v where "bound_slot md s e = Some v" "pos = mdb_position v"
    by (auto simp: bound_by_slot_entries(2))
  with bound_slot_edge [OF assms] obtain w where "parent_binding md (mdb_child_inode_id v) s = Some w"
    "pos = mdb_position w" by (metis model_edge_position t_parent_model)
  then show "pos \<in> mdb_position ` snd ` set (bound_by_child md s)"
    by (metis bound_by_child_entries(2) imageI snd_conv)
next
  fix pos assume "pos \<in> mdb_position ` snd ` set (bound_by_child md s)"
  then obtain c v where "parent_binding md c s = Some v" "pos = mdb_position v"
    by (auto simp: bound_by_child_entries(2))
  with bound_child_edge [OF assms] obtain w
    where "bound_slot md s (mdb_parent_inode_id v, mdb_name_key v) = Some w" "pos = mdb_position w"
    by (metis model_edge_position t_slot_model)
  then show "pos \<in> mdb_position ` snd ` set (bound_by_slot md s)"
    by (metis bound_by_slot_entries(2) imageI snd_conv)
qed

lemma verify_bindings_Inr:
  assumes "tree_inv (model_tree md s)"
  shows "verify_bindings md s = Inr ()"
proof -
  have "distinct (map mdb_child_inode_id (map snd (bound_by_slot md s)))"
    by (rule distinct_entries [OF bound_by_slot_entries(1)])
       (metis bound_slot_edge [OF assms] bound_by_slot_entries(2) fst_conv option.inject)
  then have first: "check_slot_of_child s Map.empty (map snd (bound_by_slot md s)) = Inr ()"
    by (rule check_slot_of_child_Inr) simp
  have "distinct (map (\<lambda>v. (mdb_parent_inode_id v, mdb_name_key v)) (map snd (bound_by_child md s)))"
    by (rule distinct_entries [OF bound_by_child_entries(1)])
       (metis bound_child_edge [OF assms] bound_by_child_entries(2) fst_conv option.inject)
  then have second: "check_child_of_slot s Map.empty (map snd (bound_by_child md s)) = Inr ()"
    by (rule check_child_of_slot_Inr) simp
  show ?thesis
    using first second bound_orders [OF assms] check_ancestries_Inr [OF tree_invD(2) [OF assms]]
    by (simp add: verify_bindings_def Let_def err_if_def image_comp)
qed

section \<open>Paths through the namespace\<close>

text \<open>
  Path resolution over the abstract namespace: where a walk over display names ends, the
  position of the binding it followed last, and the stored names on its way.
\<close>

datatype tree_path =
    TreeFound inode_id "delta_position option" "display_name list"
  | TreeMissing "display_name list"
  | TreeNotDirectory inode_id "display_name list"

fun tree_resolve ::
  "unicode_tables \<Rightarrow> tree \<Rightarrow> inode_id \<Rightarrow> delta_position option \<Rightarrow> display_name list \<Rightarrow> display_name list
    \<Rightarrow> tree_path" where
  "tree_resolve u t i pos names [] = TreeFound i pos names"
| "tree_resolve u t i pos names (d # ds) =
     (if t_kind t i \<noteq> Some Directory then TreeNotDirectory i names
      else case t_slot t (i, name_key_for_display_name u d) of
             None \<Rightarrow> TreeMissing (names @ [d])
           | Some (c, bound_at, stored) \<Rightarrow>
               if tree_covered t c then TreeMissing (names @ [d])
               else tree_resolve u t c (Some bound_at) (names @ [stored]) ds)"

subsection \<open>The core walks the namespace\<close>

text \<open>The inode and the binding a walk of the core stands at.\<close>

definition stands_at ::
  "direntry_binding_record list \<Rightarrow> direntry_binding_record option \<Rightarrow> inode_id \<Rightarrow> delta_position option \<Rightarrow> bool" where
  "stands_at B b i pos \<longleftrightarrow>
     (case b of None \<Rightarrow> i = ROOT_INODE_ID \<and> pos = None
              | Some row \<Rightarrow> row \<in> set B \<and> db_child_inode_id row = i \<and> pos = Some (db_bind_position row))"

lemma row_slot_mem: "row_slot B s p n = Some row \<Longrightarrow> row \<in> set B"
  by (auto simp: row_slot_def bound_child_at_seq_scan_def dest!: max_by_key_mem)

lemma resolve_rows_tree:
  assumes t: "t = core_tree I B T s" and inv: "tree_inv t"
    and kinds: "\<forall>row\<in>set B. t_kind t (db_child_inode_id row) = Some (db_child_kind row)"
  shows "stands_at B b i pos \<Longrightarrow> canonical_path path \<Longrightarrow>
    (case tree_resolve u t i pos (ap_components path) ds of
       TreeFound j q names \<Rightarrow>
         \<exists>b'. resolve_rows u (row_slot B s) (tree_covered t) b path ds = Inr (b', from_components names) \<and> stands_at B b' j q
     | TreeMissing names \<Rightarrow>
         resolve_rows u (row_slot B s) (tree_covered t) b path ds = Inl (PathNotFound (normalized_path names))
     | TreeNotDirectory j names \<Rightarrow>
         \<exists>k. t_kind t j = Some k \<and>
           resolve_rows u (row_slot B s) (tree_covered t) b path ds =
             Inl (PathComponentNotDirectory (normalized_path names) j k))"
proof (induction ds arbitrary: b i pos path)
  case Nil
  then show ?case by (simp add: canonical_path_iff [symmetric])
next
  case (Cons d ds)
  obtain k where k: "t_kind t i = Some k"
    and b: "(case b of None \<Rightarrow> (ROOT_INODE_ID, Directory)
        | Some row \<Rightarrow> (db_child_inode_id row, db_child_kind row)) = (i, k)"
    using Cons.prems(1) kinds tree_invD(5) [OF inv] by (auto simp: stands_at_def split: option.splits)
  have norm: "ap_normalized path = normalized_path (ap_components path)"
    "ap_normalized (join_path path d) = normalized_path (ap_components path @ [d])"
    using Cons.prems(2) by (simp_all add: canonical_path_def join_path_def from_components_def)
  show ?case
  proof (cases "row_slot B s i (name_key_for_display_name u d)")
    case None
    then have "t_slot t (i, name_key_for_display_name u d) = None" by (simp add: t core_tree_def)
    with None b k norm show ?thesis by simp
  next
    case (Some row)
    then have slot: "t_slot t (i, name_key_for_display_name u d) =
        Some (db_child_inode_id row, db_bind_position row, the_default [] (db_display_name row))"
      by (simp add: t core_tree_def binding_edge_def)
    have "stands_at B (Some row) (db_child_inode_id row) (Some (db_bind_position row))"
      using row_slot_mem [OF Some] by (simp add: stands_at_def)
    from Cons.IH [OF this canonical_join, of path "the_default [] (db_display_name row)"] Some slot b k norm
    show ?thesis by (simp split: tree_path.splits)
  qed
qed

lemma core_resolve_tree:
  assumes view: "view_ok view m" "manifest_total (mv_manifest view)"
    and t: "t = view_tree view m" and inv: "tree_inv t" and kinds: "kinds_ok view m"
  shows "case tree_resolve u t ROOT_INODE_ID None [] (ap_components path) of
       TreeFound j q names \<Rightarrow>
         \<exists>r. resolve_visible_path u (view_reads view) path = Inr r \<and> rp_inode_id r = j \<and>
           rp_absolute_path r = from_components names \<and> rp_binding_version r = q \<and>
           t_kind t j = Some (rp_inode_kind r)
     | TreeMissing names \<Rightarrow> resolve_visible_path u (view_reads view) path =
         Inl (core_from_visible_path (PathNotFound (normalized_path names)))
     | TreeNotDirectory j names \<Rightarrow>
         \<exists>k. t_kind t j = Some k \<and> resolve_visible_path u (view_reads view) path =
           Inl (core_from_visible_path (PathComponentNotDirectory (normalized_path names) j k))"
proof -
  let ?B = "flat ms_direntry_binds view m" and ?s = "mv_visible_seq view"
  have edges: "acyclic (parent_edges (row_parent ?B ?s))"
    using tree_invD(2) [OF inv] by (simp add: t view_tree_def tree_edges_core)
  have from_eq [simp]: "vr_from (view_reads view) = core_from_visible_path"
    by (simp add: view_reads_def view_lookups_def Let_def)
  have cov: "view_provider.covered (view, m) = tree_covered t" by (simp add: view_covered t fun_eq_iff)
  have resolve: "resolve_components u (view_reads view) None root_path ds =
      map_err core_from_visible_path
        (resolve_rows u (row_slot ?B ?s) (tree_covered t) None root_path ds)" for ds
    unfolding cov [symmetric] using total_view.resolve_components_total [of "(view, m)" u None root_path ds] view edges by simp
  note rows = resolve_rows_tree [OF t [unfolded view_tree_def] inv
      kinds [unfolded kinds_ok_def, folded t], of None ROOT_INODE_ID None root_path u "ap_components path"]
  show ?thesis
  proof (cases "is_root_path path")
    case True
    have "t_kind t ROOT_INODE_ID = Some Directory" "\<not> tree_covered t ROOT_INODE_ID"
      using tree_invD(5-7) [OF inv] by (simp_all add: tree_covered_def tree_ancestors_root)
    then obtain row where "vr_visible_inode (view_reads view) ROOT_INODE_ID = Inr (Some row)"
      "ir_inode_kind row = Directory"
      using total_view.visible_inode_total [of "(view, m)" ROOT_INODE_ID] view edges
      by (auto simp: view_covered total_view.visible_inode_provided [of "(view, m)", simplified]
            t view_tree_def t_kind_core)
    with True tree_invD(5) [OF inv] show ?thesis
      by (simp add: resolve_visible_path_def is_root_path_def from_components_def root_path_def
            normalized_path_def)
  next
    case False
    then have nonempty: "ap_components path \<noteq> []" by (simp add: is_root_path_def)
    have rows': "case tree_resolve u t ROOT_INODE_ID None [] (ap_components path) of
        TreeFound j q names \<Rightarrow> \<exists>b'. resolve_components u (view_reads view) None root_path (ap_components path) =
           Inr (b', from_components names) \<and> stands_at ?B b' j q
      | TreeMissing names \<Rightarrow> resolve_components u (view_reads view) None root_path (ap_components path) =
           Inl (core_from_visible_path (PathNotFound (normalized_path names)))
      | TreeNotDirectory j names \<Rightarrow>
         \<exists>k. t_kind t j = Some k \<and> resolve_components u (view_reads view) None root_path (ap_components path) =
           Inl (core_from_visible_path (PathComponentNotDirectory (normalized_path names) j k))"
      using rows unfolding resolve by (auto simp: stands_at_def split: tree_path.splits)
    show ?thesis
    proof (cases "tree_resolve u t ROOT_INODE_ID None [] (ap_components path)")
      case (TreeFound j q names)
      with rows' obtain b where b: "resolve_components u (view_reads view) None root_path (ap_components path) =
          Inr (b, from_components names)" "stands_at ?B b j q" by auto
      then obtain row where "b = Some row" using resolve_components_Some [OF b(1)] nonempty by auto
      with b TreeFound False kinds [unfolded kinds_ok_def, folded t] show ?thesis
        by (auto simp: resolve_visible_path_def stands_at_def)
    qed (use rows' False in \<open>auto simp: resolve_visible_path_def\<close>)
  qed
qed

subsection \<open>The model walks the namespace\<close>

abbreviation model_inode_at :: "model_state \<Rightarrow> change_seq \<Rightarrow> inode_id \<Rightarrow> model_inode option" where
  "model_inode_at md s i \<equiv> find (\<lambda>inode. min_inode_id inode = i \<and> min_committed_seq inode \<le> s) (md_inodes md)"

lemma t_kind_model: "t_kind (model_tree md s) i = map_option min_inode_kind (model_inode_at md s i)"
  by (simp add: model_tree_def)

lemma model_inode_at_id: "model_inode_at md s i = Some inode \<Longrightarrow> min_inode_id inode = i"
  by (auto simp: find_Some_iff)

lemma model_visible_inode_tree:
  assumes "tree_inv (model_tree md s)"
  shows "model_visible_inode md i s =
    Inr (if tree_covered (model_tree md s) i then None else model_inode_at md s i)"
proof (cases "model_inode_at md s i")
  case None
  then show ?thesis by (simp add: model_visible_inode_def)
next
  case (Some inode)
  obtain xs where "ancestry md i s = Inr xs" "set xs = tree_ancestors (model_tree md s) i"
    by (rule ancestry_right [OF tree_invD(2) [OF assms]])
  moreover have "t_hidden (model_tree md s) = {r. is_hidden_root md r s}" by (simp add: model_tree_def)
  ultimately show ?thesis
    using Some by (simp add: model_visible_inode_def list_ex_iff tree_covered_def)
qed

lemma visible_entry_tree:
  assumes "tree_inv (model_tree md s)"
  shows "case t_slot (model_tree md s) (p, n) of
      None \<Rightarrow> visible_entry md p n s = Inr None
    | Some (c, pos, d) \<Rightarrow>
        \<exists>row inode. model_inode_at md s c = Some inode \<and> mdb_position row = pos \<and>
          visible_entry md p n s =
            Inr (if tree_covered (model_tree md s) c then None
                 else Some \<lparr> le_binding = row, le_display_name = d, le_child = inode \<rparr>)"
proof (cases "bound_slot md s (p, n)")
  case None
  then have "t_slot (model_tree md s) (p, n) = None"
    using t_slot_model [of md s "(p, n)"] by (cases "t_slot (model_tree md s) (p, n)") auto
  with None show ?thesis
    by (auto simp: visible_entry_def bound_slot_def model_is_bound_def
          split: option.splits model_binding_state.splits)
next
  case (Some row)
  then obtain d where state: "mdb_state row = ModelBound d" and slot: "slot_value md p n s = Some row"
    by (auto simp: bound_slot_def model_is_bound_def split: model_binding_state.splits)
  let ?c = "mdb_child_inode_id row"
  have edge: "t_slot (model_tree md s) (p, n) = Some (?c, mdb_position row, d)"
    unfolding t_slot_model using Some state by (auto simp: model_edge_def)
  then have "(?c, p) \<in> tree_edges (model_tree md s)"
    using tree_invD(1) [OF assms] by (auto simp: tree_edges_def)
  then obtain inode where "model_inode_at md s ?c = Some inode"
    using tree_invD(4) [OF assms] by (fastforce simp: t_kind_model)
  with edge state slot model_visible_inode_tree [OF assms, of ?c] show ?thesis
    by (auto simp: visible_entry_def)
qed

lemma model_resolve_loop_tree:
  assumes inv: "tree_inv (model_tree md s)"
  shows "model_inode_at md s i = Some inode \<Longrightarrow> map_option mdb_position b = pos \<Longrightarrow>
    (case tree_resolve u (model_tree md s) i pos names ds of
       TreeFound j q names' \<Rightarrow>
         \<exists>inode' b'. model_resolve_loop u md s inode b names ds =
             Inr (Found (model_absolute_path names') inode' b') \<and>
           model_inode_at md s j = Some inode' \<and> map_option mdb_position b' = q
     | TreeMissing names' \<Rightarrow>
         model_resolve_loop u md s inode b names ds = Inr (NotFound (model_absolute_path names'))
     | TreeNotDirectory j names' \<Rightarrow>
         \<exists>inode'. model_resolve_loop u md s inode b names ds =
             Inr (NotADirectory (model_absolute_path names') inode') \<and>
           model_inode_at md s j = Some inode')"
proof (induction ds arbitrary: i inode b pos names)
  case Nil
  then show ?case by simp
next
  case (Cons d ds)
  let ?n = "name_key_for_display_name u d"
  have kind: "t_kind (model_tree md s) i = Some (min_inode_kind inode)" and id: "min_inode_id inode = i"
    using Cons.prems(1) model_inode_at_id [OF Cons.prems(1)] by (simp_all add: t_kind_model)
  note entry = visible_entry_tree [OF inv, of i ?n]
  show ?case
  proof (cases "t_slot (model_tree md s) (i, ?n)")
    case None
    with entry kind id Cons.prems(1) show ?thesis by simp
  next
    case (Some edge)
    obtain c q d' where edge: "edge = (c, q, d')" by (cases edge)
    from entry Some edge obtain row inode'
      where c: "model_inode_at md s c = Some inode'" and row: "mdb_position row = q"
        and found: "visible_entry md i ?n s = Inr (if tree_covered (model_tree md s) c then None
          else Some \<lparr> le_binding = row, le_display_name = d', le_child = inode' \<rparr>)"
      by auto
    have "map_option mdb_position (Some row) = Some q" by (simp add: row)
    from Cons.IH [OF c this, of "names @ [d']"] Some edge found kind id Cons.prems(1) show ?thesis
      by (simp split: tree_path.splits)
  qed
qed

lemma model_absolute_path_normalized [simp]: "model_absolute_path names = normalized_path names"
  by (simp add: model_absolute_path_def normalized_path_def)

section \<open>Agreement\<close>

lemma resolve_agrees:
  assumes "view_ok view m" "manifest_total (mv_manifest view)" "kinds_ok view m"
    and "tree_inv (view_tree view m)" and same: "model_tree md s = view_tree view m"
  shows "case resolve_path u md path s of
      Inr (Found spelled inode b) \<Rightarrow>
        \<exists>r. resolve_visible_path u (view_reads view) path = Inr r \<and>
          ap_normalized (rp_absolute_path r) = spelled \<and> rp_inode_id r = min_inode_id inode \<and>
          rp_inode_kind r = min_inode_kind inode \<and> rp_binding_version r = map_option mdb_position b
    | Inr (NotFound spelled) \<Rightarrow>
        resolve_visible_path u (view_reads view) path = Inl (core_from_visible_path (PathNotFound spelled))
    | Inr (NotADirectory spelled inode) \<Rightarrow>
        resolve_visible_path u (view_reads view) path =
          Inl (core_from_visible_path
                 (PathComponentNotDirectory spelled (min_inode_id inode) (min_inode_kind inode)))
    | Inl e \<Rightarrow> False"
proof -
  let ?t = "view_tree view m" and ?ds = "ap_components path"
  have inv: "tree_inv (model_tree md s)" using assms(4) by (simp add: same)
  have root: "t_kind ?t ROOT_INODE_ID = Some Directory" "\<not> tree_covered ?t ROOT_INODE_ID"
    using tree_invD(5-7) [OF assms(4)] by (simp_all add: tree_covered_def tree_ancestors_root)
  then obtain inode where inode: "model_inode_at md s ROOT_INODE_ID = Some inode"
    using t_kind_model [of md s ROOT_INODE_ID] unfolding same
    by (cases "model_inode_at md s ROOT_INODE_ID") simp_all
  then have model: "resolve_path u md path s = model_resolve_loop u md s inode None [] ?ds"
    using model_visible_inode_tree [OF inv, of ROOT_INODE_ID] root
    by (simp add: resolve_path_def same)
  have kind: "model_inode_at md s j = Some x \<Longrightarrow> t_kind ?t j = Some (min_inode_kind x) \<and> min_inode_id x = j"
    for j x using t_kind_model [of md s j] model_inode_at_id [of j s md x] by (simp add: same)
  note left = core_resolve_tree [OF assms(1,2) refl assms(4,3), of u path]
    and right = model_resolve_loop_tree [OF inv inode, of None None u "[]" ?ds, unfolded same, simplified]
  show ?thesis
  proof (cases "tree_resolve u ?t ROOT_INODE_ID None [] ?ds")
    case (TreeFound j q names)
    with left right obtain r inode' b' where "resolve_visible_path u (view_reads view) path = Inr r"
      "rp_inode_id r = j" "rp_absolute_path r = from_components names" "rp_binding_version r = q"
      "t_kind ?t j = Some (rp_inode_kind r)"
      "model_resolve_loop u md s inode None [] ?ds = Inr (Found (normalized_path names) inode' b')"
      "model_inode_at md s j = Some inode'" "map_option mdb_position b' = q" by auto
    with kind [of j inode'] show ?thesis unfolding model by (simp add: from_components_def)
  next
    case (TreeMissing names)
    with left right show ?thesis unfolding model by simp
  next
    case (TreeNotDirectory j names)
    with left right obtain k inode' where "t_kind ?t j = Some k"
      "resolve_visible_path u (view_reads view) path =
         Inl (core_from_visible_path (PathComponentNotDirectory (normalized_path names) j k))"
      "model_resolve_loop u md s inode None [] ?ds = Inr (NotADirectory (normalized_path names) inode')"
      "model_inode_at md s j = Some inode'" by auto
    with kind [of j inode'] show ?thesis unfolding model by simp
  qed
qed

lemma model_accepts_run:
  assumes "model_below md s di" "numbered di ds di'" "tree_run s (model_tree md s) ds"
    "tree_inv (model_tree md s)"
  shows "\<exists>md'. model_apply_committed_wal_deltas s cid actor ms ds md = Inr md' \<and>
    model_below md' s di' \<and> model_tree md' s = fold (tree_step s) ds (model_tree md s)"
proof -
  note run = model_tree_run [OF assms(1-3), of cid actor ms]
  then have "tree_inv (model_tree (fold (model_push_delta s cid actor ms) ds md) s)"
    using tree_inv_run [OF assms(4,3)] by simp
  from verify_bindings_Inr [OF this] run show ?thesis
    by (simp add: model_apply_committed_wal_deltas_def Let_def)
qed

end
