(* ===== verification/Example_Namespace.thy ===== *)
theory Example_Namespace
  imports Model_Agreement
begin

text \<open>
  A manifest that answers every lookup from the rows of one state, which instantiates the
  manifest parameter of the views, and a small namespace over it: the genesis rows and one
  commit that creates a directory with a file in it.  The
  witnesses of the properties about sessions and views evaluate it.
\<close>

section \<open>A manifest over rows\<close>

definition rows_manifest :: "metadata_state \<Rightarrow> metadata_manifest" where
  "rows_manifest m =
     \<lparr> mf_retention_floor_seq = 0, mf_head_seq = indexed_seq m,
       mf_inode_at_seq = (\<lambda>i s. Inr (inode_at_seq_scan (ms_inodes m) i s)),
       mf_direntry_binds_for_parent_name =
         (\<lambda>p n s. Inr (filter (\<lambda>row. db_parent_inode_id row = p \<and> db_name_key row = n)
                         (ms_direntry_binds m))),
       mf_direntry_binds_for_child =
         (\<lambda>c s. Inr (filter (\<lambda>row. db_child_inode_id row = c \<and> is_binding_event row)
                       (ms_direntry_binds m))),
       mf_newest_tombstone_for_root =
         (\<lambda>r s. Inr (newest_tombstone_from_records
                       (filter (\<lambda>row. tb_root_inode_id row = r) (ms_subtree_tombstones m)) s)),
       mf_latest_revision_by_inode =
         (\<lambda>i s. Inr (max_by_key revision_order_key
                       (filter (\<lambda>row. rv_inode_id row = i \<and> rv_committed_seq row \<le> s) (ms_revisions m)))),
       mf_revision_by_inode_no =
         (\<lambda>i n s. Inr (max_by_key revision_order_key
                         (filter (\<lambda>row. rv_inode_id row = i \<and> rv_revision_no row = n
                                          \<and> rv_committed_seq row \<le> s) (ms_revisions m)))),
       mf_attributes_by_inode =
         (\<lambda>i s. Inr (max_by_key attributes_order_key
                       (filter (\<lambda>row. ar_inode_id row = i \<and> ar_committed_seq row \<le> s)
                          (ms_attributes_revisions m)))),
       mf_access_by_inode =
         (\<lambda>i s. Inr (max_by_key access_order_key
                       (filter (\<lambda>row. xr_inode_id row = i \<and> xr_committed_seq row \<le> s)
                          (ms_access_revisions m)))),
       mf_commit_receipt = (\<lambda>_ _. Inr None),
       mf_newest_merge = (\<lambda>_ _. Inr None),
       mf_commit_at_seq = (\<lambda>_. Inr None),
       mf_content_layout = (\<lambda>_. Inr None) \<rparr>"

lemma rows_manifest_ok: "manifest_ok (rows_manifest m) m"
proof -
  have "manifest_slots_ok (rows_manifest m) m"
    unfolding manifest_slots_ok_def bound_child_at_seq_scan_def
    by (auto simp: rows_manifest_def dest: max_by_key_mem)
  moreover have "manifest_children_ok (rows_manifest m) m"
    unfolding manifest_children_ok_def latest_parent_binding_for_child_at_seq_def
    by (auto simp: rows_manifest_def dest: max_by_key_mem)
  ultimately show ?thesis
    by (simp add: manifest_ok_def manifest_inodes_ok_def manifest_tombstones_ok_def
          manifest_revisions_ok_def rows_manifest_def)
qed

section \<open>A small namespace\<close>

definition genesis_rows :: metadata_state where
  "genesis_rows =
     push_inode_record
       \<lparr> ir_inode_id = ROOT_INODE_ID, ir_inode_kind = Directory, ir_committed_seq = 0,
         ir_commit_id = GENESIS_COMMIT_ID, ir_committed_by = LOONFS_ACTOR, ir_committed_at_ms = 0 \<rparr>
       default_state"

definition plain_unicode :: unicode_tables where
  "plain_unicode = \<lparr> uc_nfc = (\<lambda>s. s), uc_fold = (\<lambda>s. s) \<rparr>"

definition no_children :: "metadata_view \<Rightarrow> inode_id \<Rightarrow> (core_error, bool) result" where
  "no_children view i = Inr False"

definition empty_ref :: content_ref where
  "empty_ref = \<lparr> ct_kind = BlobV1, ct_content_id = ''x'', ct_size_bytes = 0,
     ct_checksum = Checksum Crc32c ''00000000'' \<rparr>"

definition first_ops :: "commit_operation list" where
  "first_ops = [CreateDirectory 5 ROOT_INODE_ID ''docs'', CreateFile 6 5 ''a.txt'' empty_ref]"

text \<open>A session over the genesis rows is in order, whatever commit it validates.\<close>

definition genesis_session :: "change_seq \<Rightarrow> commit_id \<Rightarrow> actor_id \<Rightarrow> u64 \<Rightarrow> validation_session" where
  "genesis_session seq =
     session_new (over_loaded_basis (rows_manifest genesis_rows) default_tail 0) default_state seq"

lemma genesis_flat:
  "flat sel (session_view (genesis_session seq cid actor ms)) genesis_rows =
     sel genesis_rows @ sel default_state @ sel default_state"
  by (simp add: flat_def view_row_states_def overlay_states_def genesis_session_def session_new_def
        session_view_def with_overlay_def over_loaded_basis_def durable_row_states_def
        tail_row_states_def default_tail_def)

lemma genesis_sel [simp]:
  "map ir_inode_id (ms_inodes genesis_rows) = [ROOT_INODE_ID]"
  "map ir_inode_kind (ms_inodes genesis_rows) = [Directory]"
  "map ir_committed_seq (ms_inodes genesis_rows) = [0]"
  "ms_direntry_binds genesis_rows = []" "ms_subtree_tombstones genesis_rows = []"
  "ms_revisions genesis_rows = []"
  by (simp_all add: genesis_rows_def)

lemma genesis_tree:
  "view_tree (session_view (genesis_session seq cid actor ms)) genesis_rows =
      \<lparr> t_slot = (\<lambda>_. None), t_parent = (\<lambda>_. None), t_hidden = {},
        t_kind = (\<lambda>i. if i = ROOT_INODE_ID then Some Directory else None) \<rparr>"
proof -
  obtain root where "ms_inodes genesis_rows = [root]" "ir_inode_id root = ROOT_INODE_ID"
    "ir_inode_kind root = Directory" "ir_committed_seq root = 0"
    by (simp add: genesis_rows_def)
  then show ?thesis
    by (auto simp: view_tree_def genesis_flat core_tree_def row_slot_def row_parent_def
          bound_child_at_seq_scan_def latest_parent_binding_for_child_at_seq_def
          hiding_subtree_tombstone_scan_def hiding_tombstone_from_records_def
          newest_tombstone_from_records_def inode_at_seq_scan_def fun_eq_iff)
qed

lemma genesis_session_ok: "session_ok (genesis_session seq cid actor ms) genesis_rows"
proof -
  let ?vs = "genesis_session seq cid actor ms"
  obtain root where root: "ms_inodes genesis_rows = [root]" "ir_inode_id root = ROOT_INODE_ID"
    "ir_inode_kind root = Directory" "ir_committed_seq root = 0"
    by (simp add: genesis_rows_def)
  have states: "set (view_row_states (session_view ?vs)) = {default_state}"
    by (simp add: view_row_states_def overlay_states_def genesis_session_def session_new_def
          session_view_def with_overlay_def over_loaded_basis_def durable_row_states_def
          tail_row_states_def default_tail_def)
  have manifest: "mv_manifest (session_view ?vs) = rows_manifest genesis_rows"
    by (simp add: genesis_session_def session_new_def session_view_def with_overlay_def
          over_loaded_basis_def)
  have "tree_inv (view_tree (session_view ?vs) genesis_rows)"
    unfolding genesis_tree by (simp add: tree_inv_def tree_edges_def acyclic_def)
  moreover have "view_ok (session_view ?vs) genesis_rows"
    unfolding view_ok_def manifest states genesis_flat
    using rows_manifest_ok default_state_ok by simp
  ultimately show ?thesis
    using root by (simp add: session_ok_def session_rows_ok_def kinds_ok_def genesis_flat history_below_def)
qed

lemma first_plan_ok:
  "plan_ok (view_tree (session_view (genesis_session seq cid actor ms)) genesis_rows) first_ops"
  by (simp add: plan_ok_def genesis_tree first_ops_def ROOT_INODE_ID_def)

lemma first_commit_runs:
  "(case validate_ops plain_unicode no_children (\<lambda>_. None) (genesis_session 1 ''c_1'' ''alice'' 1000)
      first_ops of
      Inr (wds, _) \<Rightarrow> map (wal_delta_index \<circ> wd_delta) wds | Inl _ \<Rightarrow> []) = [0, 1, 2, 3, 4]"
  by code_simp

text \<open>The model's genesis state stands for the same namespace.\<close>

lemma bootstrap_tree:
  "model_tree (bootstrap_metadata_state ms) s = 
    \<lparr> t_slot = (\<lambda>_. None), t_parent = (\<lambda>_. None), t_hidden = {},
      t_kind = (\<lambda>i. if i = ROOT_INODE_ID then Some Directory else None) \<rparr>"
  by (auto simp: model_tree_def bootstrap_metadata_state_def model_default_def slot_value_def
        parent_binding_def is_hidden_root_def fun_eq_iff)

lemma bootstrap_below: "model_below (bootstrap_metadata_state ms) s 0"
  by (simp add: model_below_def bootstrap_metadata_state_def model_default_def)

text \<open>After the first commit, the model finds the file it created.\<close>

lemma first_model_path:
  "(case validate_ops plain_unicode no_children (\<lambda>_. None) (genesis_session 1 ''c_1'' ''alice'' 1000)
      first_ops of
      Inr (wds, _) \<Rightarrow>
        (case model_apply_committed_wal_deltas 1 ''c_1'' ''alice'' 1000 (map wd_delta wds)
                (bootstrap_metadata_state 0) of
           Inr md \<Rightarrow>
             (case resolve_path plain_unicode md (from_components [''docs'', ''a.txt'']) 1 of
                Inr (Found spelled inode _) \<Rightarrow> Some (spelled, min_inode_id inode)
              | _ \<Rightarrow> None)
         | Inl _ \<Rightarrow> None)
    | Inl _ \<Rightarrow> None) = Some (''/docs/a.txt'', 6)"
  by code_simp

text \<open>The session after the first commit, and the model beside it.\<close>

lemma genesis_manifest: "mv_manifest (session_view (genesis_session seq cid actor ms)) = rows_manifest genesis_rows"
  by (simp add: genesis_session_def session_new_def session_view_def with_overlay_def over_loaded_basis_def)

lemma validate_ops_manifest:
  "validate_ops u hvc rl vs ops = Inr (wds, vs') \<Longrightarrow> vs_base_view vs' = vs_base_view vs"
  by (induction ops arbitrary: vs wds) (fastforce simp: validate_step_def Let_def)+

lemma rows_manifest_total: "manifest_total (rows_manifest m)"
  by (simp add: manifest_total_def rows_manifest_def)

lemma first_session_ok:
  assumes "validate_ops plain_unicode no_children (\<lambda>_. None) (genesis_session 1 ''c_1'' ''alice'' 1000)
    first_ops = Inr (deltas, vs')"
  shows "session_ok vs' genesis_rows \<and> vs_committed_seq vs' = 1 \<and>
    manifest_total (mv_manifest (session_view vs'))"
proof -
  have "mv_manifest (session_view vs') = rows_manifest genesis_rows"
    using validate_ops_manifest [OF assms] genesis_manifest [of 1 "''c_1''" "''alice''" 1000]
    by (simp add: session_view_def with_overlay_def)
  with validate_ops_ok [OF genesis_session_ok first_plan_ok assms] rows_manifest_total
  show ?thesis by (simp add: genesis_session_def session_new_def)
qed

lemma first_commit_agrees:
  assumes "validate_ops plain_unicode no_children (\<lambda>_. None) (genesis_session 1 ''c_1'' ''alice'' 1000)
    first_ops = Inr (deltas, vs')"
  shows "\<exists>md. model_apply_committed_wal_deltas 1 ''c_1'' ''alice'' 1000 (map wd_delta deltas)
      (bootstrap_metadata_state 0) = Inr md \<and> model_tree md 1 = view_tree (session_view vs') genesis_rows"
proof -
  let ?vs = "genesis_session 1 ''c_1'' ''alice'' 1000"
  have same: "model_tree (bootstrap_metadata_state 0) 1 = view_tree (session_view ?vs) genesis_rows"
    by (simp add: bootstrap_tree genesis_tree)
  have new: "vs_committed_seq ?vs = 1" "cn_next_delta_index (vs_numbering ?vs) = 0"
    by (simp_all add: genesis_session_def session_new_def default_numbering_def)
  note ok = validate_ops_ok [OF genesis_session_ok first_plan_ok assms, unfolded new, folded same]
  have "tree_inv (model_tree (bootstrap_metadata_state 0) 1)"
    using session_okD(2) [OF genesis_session_ok] by (simp add: same)
  from model_accepts_run [OF bootstrap_below _ _ this, of "map wd_delta deltas"] ok show ?thesis by metis
qed

end
