(* ===== verification/Read_Guarantees.thy ===== *)
theory Read_Guarantees
  imports Example_Namespace
begin

text \<open>
  What the reads over the metadata rows promise, stated over the definitions of the
  in-memory state, the write-ahead-log tail, the visibility rules and the views, each
  with an instance on a small history.
\<close>

section \<open>A history with a deletion\<close>

text \<open>
  Two commits: the first makes \<open>/docs/deep/a.txt\<close>, the second deletes \<open>/docs\<close>.  They
  are kept as two log objects, and as the rows they replay to.
\<close>

definition edge :: "u32 \<Rightarrow> inode_id \<Rightarrow> string \<Rightarrow> inode_id \<Rightarrow> inode_kind \<Rightarrow> wal_delta" where
  "edge i parent name child kind = BindDirentry i parent name name child kind ''alice'' 1000 None"

definition docs_deltas :: "wal_delta list" where
  "docs_deltas =
     [CreateInode 0 5 Directory, edge 1 0 ''docs'' 5 Directory,
      CreateInode 2 7 Directory, edge 3 5 ''deep'' 7 Directory,
      CreateInode 4 6 File, edge 5 7 ''a.txt'' 6 File]"

definition drop_deltas :: "wal_delta list" where
  "drop_deltas =
     [UnbindDirentry 0 0 ''docs'' ''docs'' 5 Directory ''alice'' 1000 (DeltaPosition 1 1),
      TombstoneSubtree 1 5 Directory
        \<lparr> dl_parent_inode_id = 0, dl_name_key = ''docs'', dl_display_name = ''docs'' \<rparr>]"

definition commit_of :: "change_seq \<Rightarrow> commit_id \<Rightarrow> wal_delta list \<Rightarrow> wal_commit_payload" where
  "commit_of seq cid deltas =
     \<lparr> wc_committed_seq = seq, wc_commit_id = cid, wc_committed_by = ''alice'',
       wc_semantic_commit_fingerprint = cid, wc_committed_at_ms = 1000, wc_message = None,
       wc_merge = None,
       wc_deltas = map (\<lambda>d. \<lparr> wd_semantic_operation_index = wal_delta_index d, wd_delta = d \<rparr>) deltas,
       wc_inline_content = [] \<rparr>"

definition docs_objects :: "(wal_object_payload \<times> u64) list" where
  "docs_objects =
     [(\<lparr> wo_namespace_id = ''ns'', wo_wal_no = 1, wo_writer_epoch = 1, wo_head_seq = 1,
         wo_records = [commit_of 1 ''c_1'' docs_deltas] \<rparr>, 100),
      (\<lparr> wo_namespace_id = ''ns'', wo_wal_no = 2, wo_writer_epoch = 1, wo_head_seq = 2,
         wo_records = [commit_of 2 ''c_2'' drop_deltas] \<rparr>, 60)]"

definition docs_rows :: metadata_state where
  "docs_rows = fold apply_committed_wal_record
     [commit_of 1 ''c_1'' docs_deltas, commit_of 2 ''c_2'' drop_deltas] genesis_rows"

lemma docs_records:
  "map (wo_records \<circ> fst) docs_objects =
     [[commit_of 1 ''c_1'' docs_deltas], [commit_of 2 ''c_2'' drop_deltas]]"
  by (simp add: docs_objects_def)

lemma chunk_from_plain_record:
  assumes "wc_inline_content p = []" and "committed_activity p = Some a"
    and "activity_checked_add zero_activity a = Some a"
  shows "chunk_from_records [p] n =
    Some (Inr ((tail_chunk_new (wc_committed_seq p) default_state)
      \<lparr> tc_wal_bytes := n, tc_rows := apply_committed_wal_record p default_state, tc_activity := a \<rparr>))"
  using assms
  by (simp add: chunk_from_records_def chunk_apply_record_def inline_content_refs_def tail_chunk_new_def)

lemma docs_tail_runs:
  obtains tail where "project_wal_tail default_tail docs_objects = Some (Inr tail)"
    and "map tc_first_seq (wt_chunks tail) = [1, 2]"
proof -
  let ?a = "\<lambda>n. \<lparr> ma_content_bytes = 0, ma_file_revisions = 0, ma_mutations = n \<rparr>"
  have activity: "committed_activity (commit_of 1 ''c_1'' docs_deltas) = Some (?a 6)"
    "committed_activity (commit_of 2 ''c_2'' drop_deltas) = Some (?a 2)"
    "activity_checked_add zero_activity (?a 6) = Some (?a 6)"
    "activity_checked_add zero_activity (?a 2) = Some (?a 2)"
    "activity_checked_add (?a 6) (?a 2) = Some (?a 8)"
    by code_simp+
  have plain: "wc_inline_content (commit_of s c ds) = []" "wc_committed_seq (commit_of s c ds) = s"
    for s c ds by (simp_all add: commit_of_def)
  note chunks = chunk_from_plain_record [OF plain(1) activity(1) activity(3)]
    chunk_from_plain_record [OF plain(1) activity(2) activity(4)]
  show ?thesis
    by (rule that, simp add: docs_objects_def push_object_def chunks push_chunk_def default_tail_def
        activity tail_chunk_new_def plain, simp)
qed

lemma genesis_indexes_ok: "indexes_ok genesis_rows"
  unfolding genesis_rows_def by (intro push_indexes_ok default_state_ok)

lemma docs_rows_distinct:
  "inj_on db_position (set (ms_direntry_binds docs_rows)) \<and>
   inj_on tb_position (set (ms_subtree_tombstones docs_rows)) \<and>
   distinct (map ir_inode_id (ms_inodes docs_rows)) \<and>
   (\<forall>row\<in>set (ms_direntry_binds docs_rows). db_child_inode_id row \<noteq> ROOT_INODE_ID)"
  by code_simp

lemma docs_rows_ok: "state_ok docs_rows"
proof -
  have "indexes_ok docs_rows"
    unfolding docs_rows_def by (simp add: apply_record_indexes_ok genesis_indexes_ok)
  with docs_rows_distinct show ?thesis by (simp add: state_ok_def)
qed

section \<open>Indexes\<close>

text \<open>
  C15: Indexes stay right: applying any committed record to a state with right indexes
  leaves them right, and rebuilding the indexes of any rows makes them right.
\<close>

theorem commits_keep_indexes_right:
  assumes "indexes_ok st"
  shows "indexes_ok (apply_committed_wal_record payload st) \<and> indexes_ok (rebuild_indexes rows)"
  using assms by (simp add: apply_record_indexes_ok rebuild_indexes_ok)

theorem commits_keep_indexes_right_witness:
  "indexes_ok (apply_committed_wal_record (commit_of 1 ''c_1'' docs_deltas) genesis_rows) \<and>
   map ir_inode_id (ms_inodes (apply_committed_wal_record (commit_of 1 ''c_1'' docs_deltas) genesis_rows))
     = [0, 5, 7, 6]"
proof
  show "indexes_ok (apply_committed_wal_record (commit_of 1 ''c_1'' docs_deltas) genesis_rows)"
    using commits_keep_indexes_right [OF genesis_indexes_ok] by blast
  show "map ir_inode_id (ms_inodes
      (apply_committed_wal_record (commit_of 1 ''c_1'' docs_deltas) genesis_rows)) = [0, 5, 7, 6]"
    by code_simp
qed

text \<open>
  C14: The in-memory reads answer at every sequence as a scan of the rows would: above the
  indexed sequence from the indexes, below it from the rows, the inode, the bound entry of
  a slot, the bound entry of a child and the deletion that hides a root are the scans'.
\<close>

theorem indexed_reads_are_scans:
  assumes "state_ok st"
  shows "vr_find_inode (reads_at_seq st s) i = Inr (inode_at_seq_scan (ms_inodes st) i s) \<and>
    vr_active_child_binding (reads_at_seq st s) i n =
      Inr (option_filter is_bound (bound_child_at_seq_scan (ms_direntry_binds st) i n s)) \<and>
    vr_current_parent_binding_for_child (reads_at_seq st s) i =
      Inr (option_filter is_bound (latest_parent_binding_for_child_at_seq (ms_direntry_binds st) i s)) \<and>
    vr_find_hiding_subtree_tombstone (reads_at_seq st s) i =
      Inr (hiding_subtree_tombstone_scan (ms_subtree_tombstones st) i s)"
  using assms
  by (simp add: reads_find_inode reads_active_child reads_current_parent reads_find_hiding
        row_slot_def row_parent_def)

theorem indexed_reads_are_scans_witness:
  "(\<exists>t. vr_find_hiding_subtree_tombstone (reads_at_seq docs_rows 2) 5 = Inr (Some t)) \<and>
   vr_find_hiding_subtree_tombstone (reads_at_seq docs_rows 1) 5 = Inr None"
proof -
  have "\<exists>t. hiding_subtree_tombstone_scan (ms_subtree_tombstones docs_rows) 5 2 = Some t"
    "hiding_subtree_tombstone_scan (ms_subtree_tombstones docs_rows) 5 1 = None"
    unfolding not_None_eq [symmetric] by code_simp+
  then show ?thesis
    using indexed_reads_are_scans [OF docs_rows_ok, of 2 5] indexed_reads_are_scans [OF docs_rows_ok, of 1 5]
    by auto
qed

section \<open>Deletions above an inode\<close>

text \<open>
  C13: Looking for the deletion that covers an inode fails on a cycle of parent entries and
  on nothing else; where there is none it returns, with no deletion when no ancestor is
  deleted, and otherwise with one at an ancestor below which no ancestor is deleted.
\<close>

theorem covering_deletion_is_nearest:
  assumes "state_ok st"
  shows "case covering_subtree_tombstone (reads_at_seq st s) i of
      Inl e \<Rightarrow> \<exists>a\<in>ancestors (row_parent (ms_direntry_binds st) s) i. e = ParentBindingCycle a \<and>
        (a, a) \<in> (parent_edges (row_parent (ms_direntry_binds st) s))\<^sup>+
    | Inr None \<Rightarrow> \<forall>a\<in>ancestors (row_parent (ms_direntry_binds st) s) i.
        hiding_subtree_tombstone_scan (ms_subtree_tombstones st) a s = None
    | Inr (Some t) \<Rightarrow> \<exists>a\<in>ancestors (row_parent (ms_direntry_binds st) s) i.
        hiding_subtree_tombstone_scan (ms_subtree_tombstones st) a s = Some t \<and>
        (\<forall>b\<in>ancestors (row_parent (ms_direntry_binds st) s) i -
              ancestors (row_parent (ms_direntry_binds st) s) a.
           hiding_subtree_tombstone_scan (ms_subtree_tombstones st) b s = None)"
proof (cases "covering_subtree_tombstone (reads_at_seq st s) i")
  case (Inl e)
  with state_reads.covering_error [of "(st, s)" i e] assms show ?thesis by simp
next
  case (Inr x)
  with state_reads.covering_right [of "(st, s)" i x] assms show ?thesis
    by (cases x) simp_all
qed

theorem covering_deletion_is_nearest_witness:
  "\<exists>t. covering_subtree_tombstone (reads_at_seq docs_rows 2) 6 = Inr (Some t) \<and>
     tb_root_inode_id t = 5 \<and>
     (\<exists>a\<in>ancestors (row_parent (ms_direntry_binds docs_rows) 2) 6.
        hiding_subtree_tombstone_scan (ms_subtree_tombstones docs_rows) a 2 = Some t)"
proof -
  have "(case covering_subtree_tombstone (reads_at_seq docs_rows 2) 6 of
      Inr (Some t) \<Rightarrow> tb_root_inode_id t | _ \<Rightarrow> 0) = 5" by code_simp
  then obtain t where "covering_subtree_tombstone (reads_at_seq docs_rows 2) 6 = Inr (Some t)"
    "tb_root_inode_id t = 5" by (auto split: sum.splits option.splits)
  with covering_deletion_is_nearest [OF docs_rows_ok, of 2 6] show ?thesis by auto
qed



section \<open>The write-ahead-log tail\<close>



text \<open>
  C16: Projecting a log tail object by object loses nothing: the rows of its chunks,
  combined, are the rows that applying all the records in order to an empty state gives.
\<close>

theorem projected_tail_is_replay:
  assumes "project_wal_tail default_tail objects = Some (Inr tail)"
  shows "same_rows (tail_combined_rows tail)
    (fold apply_committed_wal_record (concat (map (wo_records \<circ> fst) objects)) default_state)"
  by (fact replay_combines [OF assms])

theorem projected_tail_is_replay_witness:
  "\<exists>tail. project_wal_tail default_tail docs_objects = Some (Inr tail) \<and>
     map tc_first_seq (wt_chunks tail) = [1, 2] \<and>
     same_rows (tail_combined_rows tail)
       (fold apply_committed_wal_record
          [commit_of 1 ''c_1'' docs_deltas, commit_of 2 ''c_2'' drop_deltas] default_state)"
proof -
  obtain tail where run: "project_wal_tail default_tail docs_objects = Some (Inr tail)"
    and seqs: "map tc_first_seq (wt_chunks tail) = [1, 2]" by (rule docs_tail_runs)
  have "concat (map (wo_records \<circ> fst) docs_objects) =
      [commit_of 1 ''c_1'' docs_deltas, commit_of 2 ''c_2'' drop_deltas]" by (simp add: docs_records)
  with projected_tail_is_replay [OF run] run seqs show ?thesis by metis
qed



section \<open>Views\<close>

text \<open>
  C12: A view over a manifest, a log tail and an overlay answers as one scan of all their
  rows at the view's sequence: every lookup that returns gives the scan's inode, bound
  entry of a slot, bound entry of a child and hiding deletion.
\<close>

theorem view_lookups_are_scans:
  assumes "view_ok view m"
  shows "(\<forall>x. vr_find_inode (view_reads view) i = Inr x \<longrightarrow>
      x = inode_at_seq_scan (flat ms_inodes view m) i (mv_visible_seq view)) \<and>
    (\<forall>x. vr_active_child_binding (view_reads view) i n = Inr x \<longrightarrow>
      x = option_filter is_bound
            (bound_child_at_seq_scan (flat ms_direntry_binds view m) i n (mv_visible_seq view))) \<and>
    (\<forall>x. vr_current_parent_binding_for_child (view_reads view) i = Inr x \<longrightarrow>
      x = option_filter is_bound
            (latest_parent_binding_for_child_at_seq (flat ms_direntry_binds view m) i (mv_visible_seq view))) \<and>
    (\<forall>x. vr_find_hiding_subtree_tombstone (view_reads view) i = Inr x \<longrightarrow>
      x = hiding_subtree_tombstone_scan (flat ms_subtree_tombstones view m) i (mv_visible_seq view))"
  using view_provider.find_inode [of "(view, m)" i] view_provider.find_hiding [of "(view, m)" i]
    view_active_child [OF assms, of i n] view_current_parent [OF assms, of i] assms
  by (simp add: row_slot_def row_parent_def)

definition docs_tail :: projected_wal_tail where
  "docs_tail = (case project_wal_tail default_tail docs_objects of
     Some (Inr tail) \<Rightarrow> tail | _ \<Rightarrow> default_tail)"

definition docs_view :: metadata_view where
  "docs_view = over_loaded_basis (rows_manifest genesis_rows) docs_tail 2"

lemma docs_tail_rows:
  "map tc_rows (wt_chunks docs_tail) =
     [apply_committed_wal_record (commit_of 1 ''c_1'' docs_deltas) default_state,
      apply_committed_wal_record (commit_of 2 ''c_2'' drop_deltas) default_state] \<and>
   map tc_first_seq (wt_chunks docs_tail) = [1, 2]"
proof -
  obtain tail where run: "project_wal_tail default_tail docs_objects = Some (Inr tail)"
    and seqs: "map tc_first_seq (wt_chunks tail) = [1, 2]" by (rule docs_tail_runs)
  have "docs_tail = tail" unfolding docs_tail_def run by simp
  with seqs project_wal_tail_rows [OF run, unfolded docs_records] show ?thesis
    by (simp add: default_tail_def)
qed

lemma docs_view_states:
  "view_row_states docs_view =
     [apply_committed_wal_record (commit_of 2 ''c_2'' drop_deltas) default_state,
      apply_committed_wal_record (commit_of 1 ''c_1'' docs_deltas) default_state]"
proof -
  have two: "\<exists>c d. xs = [c, d] \<and> f c = x \<and> f d = y \<and> g c = u \<and> g d = v"
    if "map f xs = [x, y] \<and> map g xs = [u, v]" for f :: "'a \<Rightarrow> 'b" and g :: "'a \<Rightarrow> 'c" and xs x y u v
    using that by (auto simp: map_eq_Cons_conv)
  from two [OF docs_tail_rows] obtain c d where "wt_chunks docs_tail = [c, d]"
    "tc_rows c = apply_committed_wal_record (commit_of 1 ''c_1'' docs_deltas) default_state"
    "tc_rows d = apply_committed_wal_record (commit_of 2 ''c_2'' drop_deltas) default_state"
    "tc_first_seq c = 1" "tc_first_seq d = 2" by blast
  then show ?thesis
    by (simp add: docs_view_def over_loaded_basis_def view_row_states_def overlay_states_def
          durable_row_states_def tail_row_states_def)
qed

lemma docs_view_rows:
  assumes "row_selector sel" shows "flat sel docs_view genesis_rows = sel docs_rows"
proof -
  have app: "sel (apply_committed_wal_record payload st) =
      sel st @ sel (apply_committed_wal_record payload default_state)" for payload st
    using assms unfolding row_selector_def by blast
  show ?thesis
    unfolding flat_def docs_view_states docs_rows_def fold.simps comp_def id_apply
      app [of _ "apply_committed_wal_record _ genesis_rows"] app [of _ genesis_rows]
    by simp
qed

lemma docs_view_ok: "view_ok docs_view genesis_rows"
proof -
  have manifest: "mv_manifest docs_view = rows_manifest genesis_rows"
    by (simp add: docs_view_def over_loaded_basis_def)
  have states: "\<forall>st\<in>set (view_row_states docs_view). indexes_ok st"
    unfolding docs_view_states by (simp add: apply_record_indexes_ok default_state_ok)
  have "inj_on revision_order_key (set (ms_revisions docs_rows))" by code_simp
  with rows_manifest_ok states docs_rows_distinct show ?thesis
    unfolding view_ok_def manifest row_selectors [THEN docs_view_rows] by blast
qed

theorem view_lookups_are_scans_witness:
  "\<exists>row. vr_current_parent_binding_for_child (view_reads docs_view) 6 = Inr (Some row) \<and>
     db_parent_inode_id row = 7"
proof -
  obtain x where x: "vr_current_parent_binding_for_child (view_reads docs_view) 6 = Inr x"
    using view_reads_total(3) [of docs_view 6] rows_manifest_total
    by (auto simp: docs_view_def over_loaded_basis_def)
  have seq: "mv_visible_seq docs_view = 2" by (simp add: docs_view_def over_loaded_basis_def)
  note at_6 = view_lookups_are_scans [OF docs_view_ok, of 6,
      unfolded row_selectors [THEN docs_view_rows] seq]
  have scan: "map_option db_parent_inode_id (option_filter is_bound
      (latest_parent_binding_for_child_at_seq (ms_direntry_binds docs_rows) 6 2)) = Some 7"
    by code_simp
  from at_6 x have "x = option_filter is_bound
      (latest_parent_binding_for_child_at_seq (ms_direntry_binds docs_rows) 6 2)" by blast
  with scan obtain row where "x = Some row" "db_parent_inode_id row = 7" by auto
  with x show ?thesis by blast
qed

end
