(* ===== verification/Path_Grammar.thy ===== *)
theory Path_Grammar
  imports Paths
begin

text \<open>
  The grammar of display names and absolute paths (\<open>loonfs-types/src/path.rs\<close>): the rules a
  name has to meet to be stored, the parser of absolute paths and the bounds of request
  paths.  Strings are UTF-8 bytes; the rules that look at characters decode them first.
\<close>

section \<open>Characters\<close>

text \<open>
  \<open>str::chars\<close>: the number of continuation bytes a leading byte announces, the bits it
  carries itself, and the code points of a string.  A Rust string is valid UTF-8, so no
  other byte sequence occurs.
\<close>

definition utf8_tail :: "char \<Rightarrow> nat" where
  "utf8_tail c =
     (let b = of_char c :: nat in if b < 128 then 0 else if b < 224 then 1 else if b < 240 then 2 else 3)"

definition utf8_lead :: "char \<Rightarrow> nat" where
  "utf8_lead c =
     (let b = of_char c in if b < 128 then b else if b < 224 then b mod 32 else if b < 240 then b mod 16 else b mod 8)"

fun utf8_chars :: "string \<Rightarrow> nat list" where
  "utf8_chars [] = []"
| "utf8_chars (c # cs) =
     foldl (\<lambda>v d. v * 64 + of_char d mod 64) (utf8_lead c) (take (utf8_tail c) cs)
       # utf8_chars (drop (utf8_tail c) cs)"

text \<open>\<open>char::is_control\<close> (the category Cc) and \<open>char::is_whitespace\<close> (White\_Space).\<close>

definition char_is_control :: "nat \<Rightarrow> bool" where
  "char_is_control p \<longleftrightarrow> p < 32 \<or> 127 \<le> p \<and> p < 160"

definition char_is_whitespace :: "nat \<Rightarrow> bool" where
  "char_is_whitespace p \<longleftrightarrow>
     9 \<le> p \<and> p \<le> 13 \<or> p = 32 \<or> p = 133 \<or> p = 160 \<or> p = 5760 \<or> 8192 \<le> p \<and> p \<le> 8202 \<or>
     p = 8232 \<or> p = 8233 \<or> p = 8239 \<or> p = 8287 \<or> p = 12288"

text \<open>\<open>str::split\<close> on a character of one byte: there is always a first piece.\<close>

fun split_char :: "char \<Rightarrow> string \<Rightarrow> string list" where
  "split_char s [] = [[]]"
| "split_char s (c # cs) =
     (if c = s then [] # split_char s cs
      else (c # hd (split_char s cs)) # tl (split_char s cs))"

definition trim_end_matches :: "char \<Rightarrow> string \<Rightarrow> string" where
  "trim_end_matches c s = rev (dropWhile (\<lambda>d. d = c) (rev s))"

definition to_ascii_uppercase :: "string \<Rightarrow> string" where
  "to_ascii_uppercase s =
     map (\<lambda>c. let b = of_char c :: nat in if 97 \<le> b \<and> b \<le> 122 then char_of (b - 32) else c) s"

definition is_ascii_digit :: "char \<Rightarrow> bool" where
  "is_ascii_digit c = (let b = of_char c :: nat in 48 \<le> b \<and> b \<le> 57)"

section \<open>Display names\<close>

definition MAX_DISPLAY_NAME_BYTES :: nat where
  "MAX_DISPLAY_NAME_BYTES = 255"

definition MAX_PATH_BYTES :: nat where
  "MAX_PATH_BYTES = 4096"

definition MAX_PATH_DEPTH :: nat where
  "MAX_PATH_DEPTH = 128"

datatype path_error =
    EmptyPath
  | RelativePath string
  | DotComponent string
  | ParentComponent string
  | EmptyDisplayName
  | DisplayNameContainsSeparator string
  | ReservedDisplayName string
  | DisplayNameContainsControlCharacter nat
  | DisplayNameTooLong nat
  | PathTooLong nat
  | PathTooDeep nat
  | UnportableDisplayName string string
  | UnportableDisplayNameCharacter string char

definition WINDOWS_RESERVED_CHARACTERS :: "char list" where
  "WINDOWS_RESERVED_CHARACTERS =
     [CHR '':'', CHR ''?'', CHR ''*'', CHR ''|'', CHR 0x22, CHR ''<'', CHR ''>'', CHR 0x5C]"

text \<open>The reserved characters have one byte, so looking at bytes finds the first of them.\<close>

definition first_windows_reserved_character :: "string \<Rightarrow> char option" where
  "first_windows_reserved_character v = find (\<lambda>c. c \<in> set WINDOWS_RESERVED_CHARACTERS) v"

definition is_windows_reserved_device_name :: "string \<Rightarrow> bool" where
  "is_windows_reserved_device_name v =
     (let stem = hd (split_char (CHR ''.'') v);
          stem = trim_end_matches (CHR '' '') stem;
          upper = to_ascii_uppercase stem
      in upper \<in> {''CON'', ''PRN'', ''AUX'', ''NUL''} \<or>
         length upper = 4 \<and> (take 3 upper = ''COM'' \<or> take 3 upper = ''LPT'') \<and>
         list_all is_ascii_digit (drop 3 upper) \<and> drop 3 upper \<noteq> ''0'')"

definition validate_display_name :: "string \<Rightarrow> (path_error, unit) result" where
  "validate_display_name v =
     rbind (err_if (v = []) EmptyDisplayName) (\<lambda>_.
     rbind (err_if (CHR ''/'' \<in> set v) (DisplayNameContainsSeparator v)) (\<lambda>_.
     rbind (err_if (v = ''.'' \<or> v = ''..'') (ReservedDisplayName v)) (\<lambda>_.
     case find char_is_control (utf8_chars v) of
       Some control \<Rightarrow> Inl (DisplayNameContainsControlCharacter control)
     | None \<Rightarrow>
     rbind (err_if (length v > MAX_DISPLAY_NAME_BYTES) (DisplayNameTooLong (length v))) (\<lambda>_.
     case first_windows_reserved_character v of
       Some c \<Rightarrow> Inl (UnportableDisplayNameCharacter v c)
     | None \<Rightarrow>
     rbind (err_if (list_all char_is_whitespace (utf8_chars v))
              (UnportableDisplayName v ''is entirely whitespace'')) (\<lambda>_.
     rbind (err_if (last_opt v = Some (CHR '' ''))
              (UnportableDisplayName v ''ends with a space, which Windows cannot store'')) (\<lambda>_.
     rbind (err_if (last_opt v = Some (CHR ''.''))
              (UnportableDisplayName v ''ends with a dot, which Windows cannot store'')) (\<lambda>_.
     err_if (is_windows_reserved_device_name v)
       (UnportableDisplayName v ''is a Windows reserved device name''))))))))"

section \<open>Absolute paths\<close>

fun parse_components :: "string \<Rightarrow> string list \<Rightarrow> (path_error, display_name list) result" where
  "parse_components v [] = Inr []"
| "parse_components v (component # components) =
     rbind (err_if (component = []) EmptyDisplayName) (\<lambda>_.
     rbind (err_if (component = ''.'') (DotComponent v)) (\<lambda>_.
     rbind (err_if (component = ''..'') (ParentComponent v)) (\<lambda>_.
     rbind (validate_display_name component) (\<lambda>_.
     rbind (parse_components v components) (\<lambda>rest.
     Inr (component # rest))))))"

definition parse_without_request_limits :: "string \<Rightarrow> (path_error, absolute_path) result" where
  "parse_without_request_limits v =
     rbind (err_if (v = []) EmptyPath) (\<lambda>_.
     rbind (err_if (hd v \<noteq> CHR ''/'') (RelativePath v)) (\<lambda>_.
     if v = ''/'' then Inr root_path
     else rbind (parse_components v (split_char (CHR ''/'') (tl v))) (\<lambda>components.
       Inr (from_components components))))"

definition validate_path_bounds :: "nat \<Rightarrow> nat \<Rightarrow> (path_error, unit) result" where
  "validate_path_bounds byte_length depth =
     rbind (err_if (byte_length > MAX_PATH_BYTES) (PathTooLong byte_length)) (\<lambda>_.
     err_if (depth > MAX_PATH_DEPTH) (PathTooDeep depth))"

definition parse_path :: "string \<Rightarrow> (path_error, absolute_path) result" where
  "parse_path v =
     rbind (parse_without_request_limits v) (\<lambda>path.
     rbind (validate_path_bounds (length v) (length (ap_components path))) (\<lambda>_.
     Inr path))"

definition validate_request_bounds :: "absolute_path \<Rightarrow> (path_error, unit) result" where
  "validate_request_bounds path =
     validate_path_bounds (length (ap_normalized path)) (length (ap_components path))"

fun invalid_path_input :: "path_error \<Rightarrow> string" where
  "invalid_path_input EmptyPath = []"
| "invalid_path_input (RelativePath path) = path"
| "invalid_path_input (DotComponent path) = path"
| "invalid_path_input (ParentComponent path) = path"
| "invalid_path_input EmptyDisplayName = []"
| "invalid_path_input (DisplayNameContainsSeparator display_name) = display_name"
| "invalid_path_input (ReservedDisplayName display_name) = display_name"
| "invalid_path_input (UnportableDisplayName display_name _) = display_name"
| "invalid_path_input (UnportableDisplayNameCharacter display_name _) = display_name"
| "invalid_path_input (DisplayNameContainsControlCharacter _) = []"
| "invalid_path_input (DisplayNameTooLong _) = []"
| "invalid_path_input (PathTooLong _) = []"
| "invalid_path_input (PathTooDeep _) = []"

section \<open>Parsing and printing\<close>

abbreviation valid_name :: "string \<Rightarrow> bool" where
  "valid_name v \<equiv> validate_display_name v = Inr ()"

lemma valid_nameD:
  assumes "valid_name v"
  shows "v \<noteq> []" "CHR ''/'' \<notin> set v" "v \<noteq> ''.''" "v \<noteq> ''..''" "length v \<le> MAX_DISPLAY_NAME_BYTES"
  using assms by (auto simp: validate_display_name_def split: option.splits)

lemma split_char_ne [simp]: "split_char s cs \<noteq> []"
  by (induction cs) simp_all

lemma join_split: "join_strings [s] (split_char s cs) = cs"
proof (induction cs)
  case (Cons c cs)
  obtain x xs where split: "split_char s cs = x # xs" by (cases "split_char s cs") auto
  with Cons show ?case by (cases xs) auto
qed simp

lemma split_piece: "s \<notin> set x \<Longrightarrow> split_char s x = [x]"
  by (induction x) auto

lemma split_append: "s \<notin> set x \<Longrightarrow> split_char s (x @ s # cs) = x # split_char s cs"
  by (induction x) auto

lemma split_join:
  "xs \<noteq> [] \<Longrightarrow> \<forall>x\<in>set xs. s \<notin> set x \<Longrightarrow> split_char s (join_strings [s] xs) = xs"
  by (induction "[s]" xs rule: join_strings.induct) (auto simp: split_piece split_append)

lemma parse_components_Inr:
  "parse_components v cs = Inr ds \<longleftrightarrow> ds = cs \<and> (\<forall>c\<in>set cs. valid_name c)"
  by (induction cs arbitrary: ds) (auto dest: valid_nameD)

lemma parse_without_request_limits_Inr:
  "parse_without_request_limits v = Inr path \<longleftrightarrow>
     canonical_path path \<and> ap_normalized path = v \<and> (\<forall>c\<in>set (ap_components path). valid_name c)"
proof
  assume parsed: "parse_without_request_limits v = Inr path"
  then have slash: "v \<noteq> []" "hd v = CHR ''/''" by (auto simp: parse_without_request_limits_def)
  show "canonical_path path \<and> ap_normalized path = v \<and> (\<forall>c\<in>set (ap_components path). valid_name c)"
  proof (cases "v = ''/''")
    case True
    with parsed show ?thesis by (auto simp: parse_without_request_limits_def root_path_def canonical_path_def
          normalized_path_def)
  next
    case False
    with parsed slash have path: "path = from_components (split_char (CHR ''/'') (tl v))"
      "\<forall>c\<in>set (split_char (CHR ''/'') (tl v)). valid_name c"
      by (auto simp: parse_without_request_limits_def parse_components_Inr)
    then show ?thesis
      using slash by (cases v) (simp_all add: from_components_def canonical_path_def normalized_path_def join_split)
  qed
next
  assume right: "canonical_path path \<and> ap_normalized path = v \<and> (\<forall>c\<in>set (ap_components path). valid_name c)"
  show "parse_without_request_limits v = Inr path"
  proof (cases "ap_components path = []")
    case True
    with right have "v = ''/''" "path = root_path"
      by (auto simp: canonical_path_def normalized_path_def root_path_def intro: absolute_path.equality)
    then show ?thesis by (simp add: parse_without_request_limits_def err_if_def)
  next
    case False
    with right have v: "v = CHR ''/'' # join_strings ''/'' (ap_components path)"
      by (auto simp: canonical_path_def normalized_path_def)
    have "split_char (CHR ''/'') (join_strings ''/'' (ap_components path)) = ap_components path"
      using False right by (intro split_join) (auto dest: valid_nameD(2))
    moreover have "join_strings ''/'' (ap_components path) \<noteq> []"
      using False right by (cases "ap_components path"; cases "tl (ap_components path)") (auto dest: valid_nameD(1))
    ultimately show ?thesis
      using right v by (auto simp: parse_without_request_limits_def err_if_def parse_components_Inr canonical_path_iff)
  qed
qed

lemma parse_path_Inr:
  "parse_path v = Inr path \<longleftrightarrow>
     canonical_path path \<and> ap_normalized path = v \<and> (\<forall>c\<in>set (ap_components path). valid_name c) \<and>
     length v \<le> MAX_PATH_BYTES \<and> length (ap_components path) \<le> MAX_PATH_DEPTH"
  by (auto simp: parse_path_def validate_path_bounds_def parse_without_request_limits_Inr)

end
