(* ===== verification/Access_Rules.thy ===== *)
theory Access_Rules
  imports Core_Error
begin

unbundle bit_operations_syntax

text \<open>
  Effective access (\<open>loonfs-core/src/metadata/access.rs\<close>) and the checks against it
  (\<open>loonfs-core/src/authorize.rs\<close>): the rights of a set of principals on an inode, from its
  own access row and its ancestors' rows up to the nearest boundary.  The memo that lets
  the children of one directory share a walk is shown to answer as a walk of its own would.
\<close>

section \<open>Rights as sets\<close>

lemma rights_contains_bit: "rights_contains s r \<longleftrightarrow> bit s (right_index r)"
  unfolding rights_contains_def right_bit_def push_bit_of_1 by (simp add: and_exp_eq_0_iff_not_bit)

lemma right_index_inj [simp]: "right_index r = right_index r' \<longleftrightarrow> r = r'"
  by (cases r; cases r') simp_all

lemma right_index_less [simp]: "right_index r < 8"
  by (cases r) simp_all

lemma right_index_surj:
  assumes "n < 8" obtains r where "n = right_index r"
proof -
  have "n \<in> right_index ` {Read, History, Write, Create, Remove, Share, Manage, Admin}"
    using assms by (auto simp: less_Suc_eq numeral_eq_Suc)
  with that show ?thesis by blast
qed

lemma rights_contains_simps [simp]:
  "rights_contains (rights_union s t) r \<longleftrightarrow> rights_contains s r \<or> rights_contains t r"
  "rights_contains (rights_difference s t) r \<longleftrightarrow> rights_contains s r \<and> \<not> rights_contains t r"
  "rights_contains (rights_insert s r') r \<longleftrightarrow> r = r' \<or> rights_contains s r"
  "\<not> rights_contains EMPTY_RIGHTS r" "rights_contains ALL_ACCESS_RIGHTS r"
  by (auto simp: rights_contains_bit rights_union_def rights_difference_def rights_insert_def
        right_bit_def EMPTY_RIGHTS_def ALL_ACCESS_RIGHTS_def ALL_RIGHTS_def bit_simps)

lemma rights_contains_admin [simp]: "rights_contains ADMIN_RIGHTS r \<longleftrightarrow> r = Admin"
  using rights_contains_simps(3) [of EMPTY_RIGHTS Admin r]
  by (simp add: rights_insert_def ADMIN_RIGHTS_def EMPTY_RIGHTS_def) (simp add: rights_contains_bit)

lemma rights_eq_iff: "s = t \<longleftrightarrow> (\<forall>r. rights_contains s r = rights_contains t r)"
proof
  assume same: "\<forall>r. rights_contains s r = rights_contains t r"
  show "s = t"
  proof (rule bit_word_eqI)
    fix n assume "n < LENGTH(8)"
    then obtain r where "n = right_index r" by (auto elim: right_index_surj)
    with same show "bit s n = bit t n" by (simp add: rights_contains_bit)
  qed
qed simp

lemma rights_subset_iff: "rights_subset s t \<longleftrightarrow> (\<forall>r. rights_contains s r \<longrightarrow> rights_contains t r)"
  using rights_eq_iff [of "rights_difference s t" EMPTY_RIGHTS]
  by (simp add: rights_subset_def rights_difference_def [symmetric] EMPTY_RIGHTS_def [symmetric])

lemma rights_is_empty_iff: "rights_is_empty s \<longleftrightarrow> (\<forall>r. \<not> rights_contains s r)"
  using rights_eq_iff [of s EMPTY_RIGHTS] by (simp add: rights_is_empty_def EMPTY_RIGHTS_def [symmetric])

lemma rights_contains_fold [simp]:
  "rights_contains (fold (\<lambda>t s. rights_union s t) ts s) r \<longleftrightarrow>
     rights_contains s r \<or> (\<exists>t\<in>set ts. rights_contains t r)"
  by (induction ts arbitrary: s) auto

lemma mem_rights_iter [simp]: "r \<in> set (rights_iter s) \<longleftrightarrow> rights_contains s r"
  by (cases r) (simp_all add: rights_iter_def ALL_RIGHTS_def)

lemma distinct_rights_iter: "distinct (rights_iter s)"
  by (simp add: rights_iter_def ALL_RIGHTS_def)

section \<open>The inheritance walk\<close>

record access_walk =
  xw_walked :: "(inode_id \<times> access_revision_record option) list"
  xw_known_ancestor :: "inode_id option"

text \<open>
  The loop of \<open>walk_access_rows\<close>, with the inode it reached last and the inodes walked so far.
  A step that finds no further ancestor either ends the loop or repairs one edge, after
  which the next step names an inode again.
\<close>

definition starts_at_inode :: "ancestor_walk \<Rightarrow> bool" where
  "starts_at_inode walk = (case aw_next walk of Some (Inode _) \<Rightarrow> True | _ \<Rightarrow> False)"

lemma ancestor_walk_next_None:
  "ancestor_walk_next reads walk = Inr (None, walk') \<Longrightarrow>
    \<not> starts_at_inode walk \<and> aw_seen walk' = aw_seen walk"
  by (auto simp: ancestor_walk_next_def visit_ancestor_def starts_at_inode_def
        split: option.splits next_ancestor.splits if_splits)

lemma ancestor_walk_next_at:
  assumes "ancestor_walk_next reads walk = Inr (anc, walk')"
  shows "aw_next walk = Some (Inode i) \<Longrightarrow> anc = Some i"
    and "aw_next walk = Some (ParentOf c) \<Longrightarrow>
      \<exists>b. vr_current_parent_binding_for_child reads c = Inr b \<and> anc = map_option db_parent_inode_id b"
proof -
  show "anc = Some i" if "aw_next walk = Some (Inode i)"
    using assms that by (auto simp: ancestor_walk_next_def visit_ancestor_def split: if_splits)
  show "\<exists>b. vr_current_parent_binding_for_child reads c = Inr b \<and> anc = map_option db_parent_inode_id b"
    if at: "aw_next walk = Some (ParentOf c)"
  proof -
    from assms at obtain b where "vr_current_parent_binding_for_child reads c = Inr b"
      by (auto simp: ancestor_walk_next_def)
    with assms at show ?thesis
      by (cases b) (auto simp: ancestor_walk_next_def visit_ancestor_def split: if_splits)
  qed
qed

definition repaired_parent ::
  "('e, 'm) visibility_reads_scheme \<Rightarrow> inode_id \<Rightarrow> ('e, inode_id option) result" where
  "repaired_parent reads reached =
     rbind (vr_find_hiding_subtree_tombstone reads reached) (\<lambda>tombstone. Inr (case tombstone of
         Some t \<Rightarrow>
           if tb_committed_seq t > vr_retention_floor_seq reads then
             (case tb_action t of Set _ deleted_binding \<Rightarrow> Some (dl_parent_inode_id deleted_binding)
              | Revoke _ \<Rightarrow> None)
           else None
       | None \<Rightarrow> None))"

function walk_access_loop ::
  "('e, 'm) visibility_reads_scheme \<Rightarrow> (inode_id \<Rightarrow> bool) \<Rightarrow> ancestor_walk \<Rightarrow> inode_id
    \<Rightarrow> (inode_id \<times> access_revision_record option) list \<Rightarrow> ('e, access_walk) result" where
  "walk_access_loop reads known walk reached walked =
     rbind (ancestor_walk_next reads walk) (\<lambda>(ancestor, walk').
       case ancestor of
         None \<Rightarrow>
           rbind (repaired_parent reads reached) (\<lambda>parent.
             case parent of
               Some p \<Rightarrow> walk_access_loop reads known (continue_at p walk') reached walked
             | None \<Rightarrow> Inr \<lparr> xw_walked = walked, xw_known_ancestor = None \<rparr>)
       | Some current \<Rightarrow>
           if known current then Inr \<lparr> xw_walked = walked, xw_known_ancestor = Some current \<rparr>
           else rbind (vr_find_access_row reads current) (\<lambda>row.
             let boundary = (case row of Some row \<Rightarrow> xr_boundary row | None \<Rightarrow> False);
                 walked = walked @ [(current, row)]
             in if boundary \<or> current = ROOT_INODE_ID
                then Inr \<lparr> xw_walked = walked, xw_known_ancestor = None \<rparr>
                else walk_access_loop reads known walk' current walked))"
  by auto

termination
proof (relation "measures [\<lambda>(reads, known, walk, reached, walked). unseen walk,
    \<lambda>(reads, known, walk, reached, walked). if starts_at_inode walk then 0 else 1]", goal_cases)
  case (2 reads known walk reached walked x anc walk' parent p)
  then show ?case
    by (auto dest!: ancestor_walk_next_None simp: unseen_def continue_at_def starts_at_inode_def)
next
  case (3 reads known walk reached walked x anc walk' current row)
  then show ?case by (auto dest: ancestor_walk_next_unseen)
qed simp

declare walk_access_loop.simps [simp del]

definition walk_access_rows ::
  "('e, 'm) visibility_reads_scheme \<Rightarrow> inode_id \<Rightarrow> (inode_id \<Rightarrow> bool) \<Rightarrow> ('e, access_walk) result" where
  "walk_access_rows reads inode_id known =
     walk_access_loop reads known (ancestor_walk_new inode_id) inode_id []"

definition access_chain ::
  "('e, 'm) visibility_reads_scheme \<Rightarrow> inode_id \<Rightarrow> ('e, access_revision_record list) result" where
  "access_chain reads inode_id =
     rbind (walk_access_rows reads inode_id (\<lambda>_. False)) (\<lambda>walk.
       Inr (List.map_filter snd (xw_walked walk)))"

section \<open>Effective rights\<close>

type_synonym principal_set = "principal_id list"

record effective_rights_memo =
  em_administrator :: "bool option"
  em_inherited :: "inode_id \<rightharpoonup> access_rights"

definition default_memo :: effective_rights_memo where
  "default_memo = \<lparr> em_administrator = None, em_inherited = Map.empty \<rparr>"

text \<open>What one row grants to the principals, over the rights from above it.\<close>

definition row_rights ::
  "principal_set \<Rightarrow> access_revision_record option \<Rightarrow> access_rights \<Rightarrow> access_rights" where
  "row_rights principals row rights =
     (case row of
        Some row \<Rightarrow>
          rights_difference
            (fold (\<lambda>t s. rights_union s t) (map (grants_get (xr_grants row)) principals) rights)
            ADMIN_RIGHTS
      | None \<Rightarrow> rights)"

definition is_administrator ::
  "('e, 'm) visibility_reads_scheme \<Rightarrow> principal_set \<Rightarrow> ('e, bool) result" where
  "is_administrator reads principals =
     rbind (vr_find_access_row reads ROOT_INODE_ID) (\<lambda>row.
       Inr (case row of
              Some row \<Rightarrow>
                list_ex (\<lambda>p. rights_contains (grants_get (xr_grants row) p) Admin) principals
            | None \<Rightarrow> False))"

definition inherited_rights ::
  "('e, 'm) visibility_reads_scheme \<Rightarrow> principal_set \<Rightarrow> inode_id \<Rightarrow> effective_rights_memo
    \<Rightarrow> ('e, access_rights \<times> effective_rights_memo) result" where
  "inherited_rights reads principals inode_id memo =
     rbind (walk_access_rows reads inode_id (\<lambda>i. em_inherited memo i \<noteq> None)) (\<lambda>walk.
       let rights = (case xw_known_ancestor walk of
                       Some a \<Rightarrow> the_default EMPTY_RIGHTS (em_inherited memo a)
                     | None \<Rightarrow> EMPTY_RIGHTS)
       in Inr (fold (\<lambda>(walked, row) (rights, memo).
                  let rights = row_rights principals row rights
                  in (rights, memo \<lparr> em_inherited := (em_inherited memo)(walked \<mapsto> rights) \<rparr>))
                 (rev (xw_walked walk)) (rights, memo)))"

definition memo_effective_rights ::
  "('e, 'm) visibility_reads_scheme \<Rightarrow> principal_set \<Rightarrow> inode_id \<Rightarrow> effective_rights_memo
    \<Rightarrow> ('e, access_rights \<times> effective_rights_memo) result" where
  "memo_effective_rights reads principals inode_id memo =
     rbind (case em_administrator memo of
              Some administrator \<Rightarrow> Inr (administrator, memo)
            | None \<Rightarrow>
                rbind (is_administrator reads principals) (\<lambda>administrator.
                  Inr (administrator, memo \<lparr> em_administrator := Some administrator \<rparr>))) (\<lambda>(administrator, memo).
     if administrator then Inr (ALL_ACCESS_RIGHTS, memo)
     else inherited_rights reads principals inode_id memo)"

definition effective_rights ::
  "('e, 'm) visibility_reads_scheme \<Rightarrow> principal_set \<Rightarrow> inode_id \<Rightarrow> ('e, access_rights) result" where
  "effective_rights reads principals inode_id =
     rbind (memo_effective_rights reads principals inode_id default_memo) (\<lambda>(rights, _). Inr rights)"

section \<open>Authorizing\<close>

type_synonym principal_scope = string

record subject =
  su_principal_scope :: principal_scope
  su_subject_id :: string
  su_principals :: principal_set

datatype namespace_access = UnrestrictedAccess | Acl principal_scope access_grants

fun is_unrestricted :: "namespace_access \<Rightarrow> bool" where
  "is_unrestricted UnrestrictedAccess = True"
| "is_unrestricted (Acl _ _) = False"

datatype authorizer = Unrestricted | Subject principal_set

datatype commit_authority = AsSubject "subject option" | Maintenance

fun authorizer_for_request ::
  "namespace_id \<Rightarrow> namespace_access \<Rightarrow> commit_authority \<Rightarrow> (core_error, authorizer) result" where
  "authorizer_for_request namespace_id UnrestrictedAccess _ = Inr Unrestricted"
| "authorizer_for_request namespace_id (Acl _ _) Maintenance = Inr Unrestricted"
| "authorizer_for_request namespace_id (Acl scope _) (AsSubject (Some subject)) =
     (if su_principal_scope subject = scope then Inr (Subject (su_principals subject))
      else Inl (PrincipalScopeMismatch scope (su_principal_scope subject)))"
| "authorizer_for_request namespace_id (Acl _ _) (AsSubject None) = Inl (SubjectRequired namespace_id)"

text \<open>How an inode the subject cannot see is reported.\<close>

datatype absence = AbsentPath string | AbsentInode

fun absence_not_found :: "absence \<Rightarrow> inode_id \<Rightarrow> core_error" where
  "absence_not_found (AbsentPath path) _ = CorePathNotFound path"
| "absence_not_found AbsentInode inode_id = InodeNotFound inode_id"

datatype replacement = RemovesEntry | WritesFile

fun require_rights ::
  "authorizer \<Rightarrow> (core_error, 'm) visibility_reads_scheme \<Rightarrow> inode_id \<Rightarrow> access_rights \<Rightarrow> absence
    \<Rightarrow> (core_error, unit) result" where
  "require_rights Unrestricted reads inode_id rights absence = Inr ()"
| "require_rights (Subject principals) reads inode_id rights absence =
     rbind (effective_rights reads principals inode_id) (\<lambda>effective.
       if rights_subset rights effective then Inr ()
       else if rights_is_empty effective then Inl (absence_not_found absence inode_id)
       else Inl (Forbidden inode_id))"

section \<open>What inheritance means\<close>

text \<open>
  The chain of an inode: the inodes whose rows decide its rights, each with its row.  It
  follows current parent bindings, takes the saved parent of a recoverable deletion where
  there is none, and ends at a boundary, at the root, or where no parent is left.
\<close>

definition ends_chain :: "inode_id \<Rightarrow> access_revision_record option \<Rightarrow> bool" where
  "ends_chain i row \<longleftrightarrow> (case row of Some row \<Rightarrow> xr_boundary row | None \<Rightarrow> False) \<or> i = ROOT_INODE_ID"

inductive inherits ::
  "('e, 'm) visibility_reads_scheme \<Rightarrow> inode_id \<Rightarrow> (inode_id \<times> access_revision_record option) list \<Rightarrow> bool"
  for reads where
  stops: "vr_find_access_row reads i = Inr row \<Longrightarrow> ends_chain i row \<Longrightarrow> inherits reads i [(i, row)]"
| orphan: "vr_find_access_row reads i = Inr row \<Longrightarrow> \<not> ends_chain i row
    \<Longrightarrow> vr_current_parent_binding_for_child reads i = Inr None \<Longrightarrow> repaired_parent reads i = Inr None
    \<Longrightarrow> inherits reads i [(i, row)]"
| parent: "vr_find_access_row reads i = Inr row \<Longrightarrow> \<not> ends_chain i row
    \<Longrightarrow> vr_current_parent_binding_for_child reads i = Inr (Some b)
    \<Longrightarrow> inherits reads (db_parent_inode_id b) xs \<Longrightarrow> inherits reads i ((i, row) # xs)"
| repaired: "vr_find_access_row reads i = Inr row \<Longrightarrow> \<not> ends_chain i row
    \<Longrightarrow> vr_current_parent_binding_for_child reads i = Inr None \<Longrightarrow> repaired_parent reads i = Inr (Some p)
    \<Longrightarrow> inherits reads p xs \<Longrightarrow> inherits reads i ((i, row) # xs)"

inductive_cases inheritsE: "inherits reads i xs"

lemma inherits_fun: "inherits reads i xs \<Longrightarrow> inherits reads i ys \<Longrightarrow> xs = ys"
proof (induction arbitrary: ys rule: inherits.induct)
  case (parent i row b xs)
  from parent.prems parent.hyps(1-3) parent.IH show ?case by (auto elim: inheritsE)
next
  case (repaired i row p xs)
  from repaired.prems repaired.hyps(1-4) repaired.IH show ?case by (auto elim: inheritsE)
qed (auto elim: inheritsE)

lemma inherits_suffix:
  "inherits reads i xs \<Longrightarrow> xs = pre @ (j, row) # rest \<Longrightarrow> inherits reads j ((j, row) # rest)"
proof (induction arbitrary: pre rule: inherits.induct)
  case (parent i row' b xs)
  then show ?case by (cases pre) (auto intro: inherits.parent)
next
  case (repaired i row' p xs)
  then show ?case by (cases pre) (auto intro: inherits.repaired)
qed (auto simp: Cons_eq_append_conv intro: inherits.intros)

definition chain_rights ::
  "principal_set \<Rightarrow> (inode_id \<times> access_revision_record option) list \<Rightarrow> access_rights \<Rightarrow> access_rights" where
  "chain_rights principals xs start = foldr (\<lambda>(_, row). row_rights principals row) xs start"

lemma chain_rights_append:
  "chain_rights principals (xs @ ys) start = chain_rights principals xs (chain_rights principals ys start)"
  by (simp add: chain_rights_def)

text \<open>A right comes from a grant of some row on the chain to one of the principals; \<open>admin\<close> never does.\<close>

lemma chain_rights_contains:
  "rights_contains (chain_rights principals xs EMPTY_RIGHTS) r \<longleftrightarrow>
     r \<noteq> Admin \<and> (\<exists>j row p. (j, Some row) \<in> set xs \<and> p \<in> set principals \<and>
       rights_contains (grants_get (xr_grants row) p) r)"
proof (induction xs)
  case (Cons x xs)
  obtain j row where "x = (j, row)" by (cases x)
  with Cons show ?case
    by (cases row) (auto simp: chain_rights_def row_rights_def)
qed (simp add: chain_rights_def)

section \<open>The walk finds the chain\<close>

text \<open>What a walk adds, where it stopped before a known inode or ran to the end.\<close>

definition walk_found ::
  "('e, 'm) visibility_reads_scheme \<Rightarrow> (inode_id \<Rightarrow> bool) \<Rightarrow> access_walk \<Rightarrow> inode_id
    \<Rightarrow> (inode_id \<times> access_revision_record option) list \<Rightarrow> bool" where
  "walk_found reads known w i xs \<longleftrightarrow>
     (case xw_known_ancestor w of
        None \<Rightarrow> inherits reads i xs
      | Some a \<Rightarrow> known a \<and> (\<forall>ys. inherits reads a ys \<longrightarrow> inherits reads i (xs @ ys)))"

lemma walk_found_parent:
  assumes "vr_find_access_row reads i = Inr row" "\<not> ends_chain i row"
    "vr_current_parent_binding_for_child reads i = Inr (Some b)"
    "walk_found reads known w (db_parent_inode_id b) xs"
  shows "walk_found reads known w i ((i, row) # xs)"
  using assms by (auto simp: walk_found_def intro: inherits.parent split: option.splits)

lemma walk_found_repaired:
  assumes "vr_find_access_row reads i = Inr row" "\<not> ends_chain i row"
    "vr_current_parent_binding_for_child reads i = Inr None" "repaired_parent reads i = Inr (Some p)"
    "walk_found reads known w p xs"
  shows "walk_found reads known w i ((i, row) # xs)"
  using assms by (auto simp: walk_found_def intro: inherits.repaired split: option.splits)

lemma walk_access_loop_found:
  "walk_access_loop reads known walk reached walked = Inr w \<Longrightarrow>
    (\<forall>i. aw_next walk = Some (Inode i) \<longrightarrow>
       (\<exists>xs. xw_walked w = walked @ xs \<and> walk_found reads known w i xs)) \<and>
    (\<forall>row. aw_next walk = Some (ParentOf reached) \<longrightarrow> vr_find_access_row reads reached = Inr row \<longrightarrow>
       \<not> ends_chain reached row \<longrightarrow>
       (\<exists>xs. xw_walked w = walked @ xs \<and> walk_found reads known w reached ((reached, row) # xs)))"
proof (induction reads known walk reached walked rule: walk_access_loop.induct)
  case (1 reads known walk reached walked)
  from 1(3) obtain anc walk' where step: "ancestor_walk_next reads walk = Inr (anc, walk')"
    by (subst (asm) walk_access_loop.simps) auto
  show ?case
  proof (cases anc)
    case None
    note ended = ancestor_walk_next_None [OF step [unfolded None]]
    from 1(3) step None obtain parent where parent: "repaired_parent reads reached = Inr parent"
      by (subst (asm) walk_access_loop.simps) auto
    have no_binding: "vr_current_parent_binding_for_child reads reached = Inr None"
      if "aw_next walk = Some (ParentOf reached)"
      using ancestor_walk_next_at(2) [OF step that] None by auto
    show ?thesis
    proof (cases parent)
      case None
      with 1(3) step \<open>anc = None\<close> parent have w: "w = \<lparr> xw_walked = walked, xw_known_ancestor = None \<rparr>"
        by (subst (asm) walk_access_loop.simps) auto
      show ?thesis
        using ended no_binding parent None
        by (auto simp: w walk_found_def starts_at_inode_def intro: inherits.orphan)
    next
      case (Some p)
      with 1(3) step \<open>anc = None\<close> parent
      have rest: "walk_access_loop reads known (continue_at p walk') reached walked = Inr w"
        by (subst (asm) walk_access_loop.simps) auto
      from 1(1) [OF step refl None parent Some rest] obtain xs
        where "xw_walked w = walked @ xs" "walk_found reads known w p xs"
        by (auto simp: continue_at_def)
      moreover from this(2) have "walk_found reads known w reached ((reached, row) # xs)"
        if "aw_next walk = Some (ParentOf reached)" "vr_find_access_row reads reached = Inr row"
          "\<not> ends_chain reached row" for row
        using walk_found_repaired [OF that(2,3) no_binding [OF that(1)] parent [unfolded Some]] by blast
      ultimately show ?thesis using ended by (auto simp: starts_at_inode_def)
    qed
  next
    case (Some current)
    have found: "\<exists>xs. xw_walked w = walked @ xs \<and> walk_found reads known w current xs"
    proof (cases "known current")
      case True
      with 1(3) step Some have "w = \<lparr> xw_walked = walked, xw_known_ancestor = Some current \<rparr>"
        by (subst (asm) walk_access_loop.simps) auto
      with True show ?thesis by (simp add: walk_found_def)
    next
      case False
      with 1(3) step Some obtain row where row: "vr_find_access_row reads current = Inr row"
        by (subst (asm) walk_access_loop.simps) auto
      show ?thesis
      proof (cases "ends_chain current row")
        case True
        with 1(3) step Some False row
        have "w = \<lparr> xw_walked = walked @ [(current, row)], xw_known_ancestor = None \<rparr>"
          by (subst (asm) walk_access_loop.simps) (auto simp: ends_chain_def)
        with row True show ?thesis by (simp add: walk_found_def inherits.stops)
      next
        case False
        with 1(3) step Some \<open>\<not> known current\<close> row
        have rest: "walk_access_loop reads known walk' current (walked @ [(current, row)]) = Inr w"
          by (subst (asm) walk_access_loop.simps) (auto simp: ends_chain_def)
        have "aw_next walk' = Some (ParentOf current)"
          using ancestor_walk_next_seen(3) [OF step [unfolded Some]] .
        with 1(2) [OF step refl Some \<open>\<not> known current\<close> row refl refl _ rest] row False show ?thesis
          by (auto simp: ends_chain_def)
      qed
    qed
    then obtain xs where xs: "xw_walked w = walked @ xs" "walk_found reads known w current xs" by blast
    have "walk_found reads known w reached ((reached, row) # xs)"
      if at: "aw_next walk = Some (ParentOf reached)" and row: "vr_find_access_row reads reached = Inr row"
        and more: "\<not> ends_chain reached row" for row
    proof -
      obtain b where b: "vr_current_parent_binding_for_child reads reached = Inr (Some b)"
        "current = db_parent_inode_id b"
        using ancestor_walk_next_at(2) [OF step at] Some by (auto simp: eq_commute [of "Some _"])
      show ?thesis using walk_found_parent [OF row more b(1)] xs(2) b(2) by blast
    qed
    with xs ancestor_walk_next_at(1) [OF step] Some show ?thesis by auto
  qed
qed

lemma walk_access_rows_found:
  assumes "walk_access_rows reads i known = Inr w"
  shows "walk_found reads known w i (xw_walked w)"
  using walk_access_loop_found [OF assms [unfolded walk_access_rows_def]]
  by (simp add: ancestor_walk_new_def)

lemma access_chain_right:
  assumes "access_chain reads i = Inr rows"
  shows "\<exists>xs. inherits reads i xs \<and> rows = List.map_filter snd xs"
proof -
  from assms obtain w where w: "walk_access_rows reads i (\<lambda>_. False) = Inr w"
    and rows: "rows = List.map_filter snd (xw_walked w)"
    by (auto simp: access_chain_def)
  from walk_access_rows_found [OF w] rows show ?thesis
    by (auto simp: walk_found_def split: option.splits)
qed

section \<open>The memo answers as a walk of its own\<close>

definition memo_ok ::
  "('e, 'm) visibility_reads_scheme \<Rightarrow> principal_set \<Rightarrow> effective_rights_memo \<Rightarrow> bool" where
  "memo_ok reads principals memo \<longleftrightarrow>
     (\<forall>a. em_administrator memo = Some a \<longrightarrow> is_administrator reads principals = Inr a) \<and>
     (\<forall>i r. em_inherited memo i = Some r \<longrightarrow>
        (\<exists>xs. inherits reads i xs \<and> r = chain_rights principals xs EMPTY_RIGHTS))"

lemma default_memo_ok: "memo_ok reads principals default_memo"
  by (simp add: memo_ok_def default_memo_def)

lemma memo_fill:
  fixes principals :: principal_set and start :: access_rights and memo :: effective_rights_memo
  defines "fill \<equiv> \<lambda>xs. fold (\<lambda>(walked, row) (rights, memo).
      let rights = row_rights principals row rights
      in (rights, memo \<lparr> em_inherited := (em_inherited memo)(walked \<mapsto> rights) \<rparr>)) (rev xs) (start, memo)"
  shows "fst (fill xs) = chain_rights principals xs start \<and>
    em_administrator (snd (fill xs)) = em_administrator memo \<and>
    (\<forall>i r. em_inherited (snd (fill xs)) i = Some r \<longrightarrow>
       em_inherited memo i = Some r \<or>
       (\<exists>pre row rest. xs = pre @ (i, row) # rest \<and> r = chain_rights principals ((i, row) # rest) start))"
proof (induction xs)
  case Nil
  then show ?case by (simp add: fill_def chain_rights_def)
next
  case (Cons x xs)
  obtain j row where x: "x = (j, row)" by (cases x)
  have step: "fill (x # xs) = (let rights = row_rights principals row (fst (fill xs))
      in (rights, snd (fill xs) \<lparr> em_inherited := (em_inherited (snd (fill xs)))(j \<mapsto> rights) \<rparr>))"
    by (simp add: fill_def x split_beta)
  from Cons have ih: "fst (fill xs) = chain_rights principals xs start"
      "em_administrator (snd (fill xs)) = em_administrator memo"
    and entries: "\<And>i r. em_inherited (snd (fill xs)) i = Some r \<Longrightarrow> em_inherited memo i = Some r \<or>
      (\<exists>pre row rest. xs = pre @ (i, row) # rest \<and> r = chain_rights principals ((i, row) # rest) start)"
    by blast+
  have rights: "row_rights principals row (fst (fill xs)) = chain_rights principals ((j, row) # xs) start"
    unfolding ih(1) by (simp add: chain_rights_def)
  show ?case
  proof (intro conjI allI impI)
    show "fst (fill (x # xs)) = chain_rights principals (x # xs) start"
      unfolding step Let_def rights by (simp add: x)
    show "em_administrator (snd (fill (x # xs))) = em_administrator memo"
      unfolding step Let_def by (simp add: ih(2))
    fix i r assume at: "em_inherited (snd (fill (x # xs))) i = Some r"
    have memo': "em_inherited (snd (fill (x # xs))) =
        (em_inherited (snd (fill xs)))(j \<mapsto> chain_rights principals ((j, row) # xs) start)"
      unfolding step Let_def rights by simp
    show "em_inherited memo i = Some r \<or> (\<exists>pre row' rest. x # xs = pre @ (i, row') # rest \<and>
        r = chain_rights principals ((i, row') # rest) start)"
    proof (cases "i = j")
      case True
      with at have "x # xs = [] @ (i, row) # xs" "r = chain_rights principals ((i, row) # xs) start"
        unfolding memo' by (simp_all add: x)
      then show ?thesis by blast
    next
      case False
      with at have "em_inherited (snd (fill xs)) i = Some r" unfolding memo' by simp
      from entries [OF this] show ?thesis
      proof
        assume "\<exists>pre row rest. xs = pre @ (i, row) # rest \<and>
          r = chain_rights principals ((i, row) # rest) start"
        then obtain pre row' rest where "xs = pre @ (i, row') # rest"
          and r: "r = chain_rights principals ((i, row') # rest) start" by blast
        then have "x # xs = (x # pre) @ (i, row') # rest" by simp
        with r show ?thesis by blast
      qed blast
    qed
  qed
qed

lemma inherited_rights_right:
  assumes "memo_ok reads principals memo" "inherited_rights reads principals i memo = Inr (r, memo')"
  shows "(\<exists>xs. inherits reads i xs \<and> r = chain_rights principals xs EMPTY_RIGHTS) \<and>
    memo_ok reads principals memo'"
proof -
  let ?known = "\<lambda>i. em_inherited memo i \<noteq> None"
  from assms(2) obtain w where w: "walk_access_rows reads i ?known = Inr w"
    by (auto simp: inherited_rights_def)
  define start where "start = (case xw_known_ancestor w of
      Some a \<Rightarrow> the_default EMPTY_RIGHTS (em_inherited memo a) | None \<Rightarrow> EMPTY_RIGHTS)"
  obtain ys where ys: "inherits reads i (xw_walked w @ ys)" "start = chain_rights principals ys EMPTY_RIGHTS"
  proof (cases "xw_known_ancestor w")
    case None
    with walk_access_rows_found [OF w] that [of "[]"] show ?thesis
      by (simp add: walk_found_def start_def chain_rights_def)
  next
    case (Some a)
    with walk_access_rows_found [OF w] obtain rights where "em_inherited memo a = Some rights"
      and all: "\<And>ys. inherits reads a ys \<Longrightarrow> inherits reads i (xw_walked w @ ys)"
      by (auto simp: walk_found_def)
    moreover from this(1) assms(1) obtain ys where "inherits reads a ys"
      "rights = chain_rights principals ys EMPTY_RIGHTS" unfolding memo_ok_def by blast
    ultimately show ?thesis using that [of ys] Some by (simp add: start_def)
  qed
  note fill = memo_fill [of principals "xw_walked w" start memo]
  have res: "(r, memo') = fold (\<lambda>(walked, row) (rights, memo).
      let rights = row_rights principals row rights
      in (rights, memo \<lparr> em_inherited := (em_inherited memo)(walked \<mapsto> rights) \<rparr>)) (rev (xw_walked w)) (start, memo)"
    using assms(2) w by (simp add: inherited_rights_def start_def Let_def)
  have r: "r = chain_rights principals (xw_walked w) start"
    and admin: "em_administrator memo' = em_administrator memo"
    and entries: "\<And>j q. em_inherited memo' j = Some q \<Longrightarrow> em_inherited memo j = Some q \<or>
      (\<exists>pre row rest. xw_walked w = pre @ (j, row) # rest \<and> q = chain_rights principals ((j, row) # rest) start)"
    using fill unfolding res [symmetric] fst_conv snd_conv by blast+
  have inherited: "\<exists>xs. inherits reads j xs \<and> q = chain_rights principals xs EMPTY_RIGHTS"
    if "em_inherited memo' j = Some q" for j q
    using entries [OF that]
  proof
    assume "em_inherited memo j = Some q"
    with assms(1) show ?thesis unfolding memo_ok_def by blast
  next
    assume "\<exists>pre row rest. xw_walked w = pre @ (j, row) # rest \<and> q = chain_rights principals ((j, row) # rest) start"
    then obtain pre row rest where at: "xw_walked w = pre @ (j, row) # rest"
      and q: "q = chain_rights principals ((j, row) # rest) start" by blast
    from inherits_suffix [OF ys(1)] at have "inherits reads j (((j, row) # rest) @ ys)" by simp
    with q ys(2) show ?thesis using chain_rights_append by metis
  qed
  have "memo_ok reads principals memo'"
    using assms(1) inherited unfolding memo_ok_def admin by blast
  moreover have "r = chain_rights principals (xw_walked w @ ys) EMPTY_RIGHTS"
    by (simp add: r ys(2) chain_rights_append)
  ultimately show ?thesis using ys(1) by blast
qed

text \<open>
  The rights of a subject: all of them for an administrator, else the grants on the chain.
\<close>

definition rights_spec ::
  "('e, 'm) visibility_reads_scheme \<Rightarrow> principal_set \<Rightarrow> inode_id \<Rightarrow> access_rights \<Rightarrow> bool" where
  "rights_spec reads principals i r \<longleftrightarrow>
     is_administrator reads principals = Inr True \<and> r = ALL_ACCESS_RIGHTS \<or>
     is_administrator reads principals = Inr False \<and>
       (\<exists>xs. inherits reads i xs \<and> r = chain_rights principals xs EMPTY_RIGHTS)"

lemma rights_spec_fun:
  "rights_spec reads principals i r \<Longrightarrow> rights_spec reads principals i r' \<Longrightarrow> r = r'"
  by (auto simp: rights_spec_def dest: inherits_fun)

lemma memo_effective_rights_right:
  assumes "memo_ok reads principals memo" "memo_effective_rights reads principals i memo = Inr (r, memo')"
  shows "rights_spec reads principals i r \<and> memo_ok reads principals memo'"
proof -
  from assms(2) obtain administrator mid
    where mid: "(case em_administrator memo of Some administrator \<Rightarrow> Inr (administrator, memo)
        | None \<Rightarrow> rbind (is_administrator reads principals) (\<lambda>administrator.
            Inr (administrator, memo \<lparr> em_administrator := Some administrator \<rparr>))) = Inr (administrator, mid)"
      and rest: "(if administrator then Inr (ALL_ACCESS_RIGHTS, mid) else inherited_rights reads principals i mid) = Inr (r, memo')"
    unfolding memo_effective_rights_def by auto
  have ok: "is_administrator reads principals = Inr administrator \<and> memo_ok reads principals mid"
    using mid assms(1) by (auto simp: memo_ok_def split: option.splits)
  show ?thesis
  proof (cases administrator)
    case True
    with ok rest show ?thesis by (simp add: rights_spec_def)
  next
    case False
    with inherited_rights_right [of reads principals mid i r memo'] rest ok show ?thesis
      by (simp add: rights_spec_def)
  qed
qed

lemma effective_rights_right:
  assumes "effective_rights reads principals i = Inr r"
  shows "rights_spec reads principals i r"
proof -
  from assms obtain memo where "memo_effective_rights reads principals i default_memo = Inr (r, memo)"
    by (auto simp: effective_rights_def)
  from memo_effective_rights_right [OF default_memo_ok this] show ?thesis by blast
qed

end
