(* ===== verification/Rule_Guarantees.thy ===== *)
theory Rule_Guarantees
  imports Read_Guarantees Path_Grammar Access_Rules
begin

text \<open>
  What the rules of the vocabulary promise: the path grammar, the rights and their
  inheritance, content layouts, generated inode ids, public ordinals and the numbering
  of a commit's deltas.
\<close>

section \<open>Paths\<close>

text \<open>
  C18: Parsing and printing of paths are inverse: a text is accepted as a path exactly when
  it is the normal spelling of that path, every component is an admissible name, and the
  text and its depth stay within the request's limits.
\<close>

theorem parse_path_inverts_printing:
  "parse_path v = Inr path \<longleftrightarrow>
     canonical_path path \<and> ap_normalized path = v \<and>
     list_all (\<lambda>c. validate_display_name c = Inr ()) (ap_components path) \<and>
     length v \<le> 4096 \<and> length (ap_components path) \<le> 128"
  by (simp add: parse_path_Inr MAX_PATH_BYTES_def MAX_PATH_DEPTH_def list_all_iff)

section \<open>Rights\<close>

lemma from_distinct_loop_Inr:
  "from_distinct_loop s rs = Inr t \<longleftrightarrow>
     distinct rs \<and> list_all (\<lambda>r. \<not> rights_contains s r) rs \<and>
     (\<forall>r. rights_contains t r \<longleftrightarrow> rights_contains s r \<or> r \<in> set rs)"
proof (induction rs arbitrary: s)
  case Nil
  then show ?case by (auto simp: rights_eq_iff)
next
  case (Cons r rs)
  then show ?case by (auto simp: list_all_iff)
qed

text \<open>
  C22: The bit sets of rights are sets of rights: membership, union, difference, inclusion
  and emptiness of the words are those of the sets, and a list of rights is accepted as a
  set exactly when it has no repetition; listing a set and reading the list gives the set.
\<close>

theorem rights_words_are_sets:
  "(rights_contains (rights_union s t) r \<longleftrightarrow> rights_contains s r \<or> rights_contains t r) \<and>
   (rights_contains (rights_difference s t) r \<longleftrightarrow> rights_contains s r \<and> \<not> rights_contains t r) \<and>
   (rights_subset s t \<longleftrightarrow> {r. rights_contains s r} \<subseteq> {r. rights_contains t r}) \<and>
   (rights_is_empty s \<longleftrightarrow> {r. rights_contains s r} = {}) \<and>
   (from_distinct rs = Inr s \<longleftrightarrow> distinct rs \<and> set rs = {r. rights_contains s r}) \<and>
   from_distinct (rights_iter s) = Inr s"
proof -
  have read: "from_distinct rs = Inr s \<longleftrightarrow> distinct rs \<and> set rs = {r. rights_contains s r}" for rs
    by (auto simp: from_distinct_def from_distinct_loop_Inr list_all_iff)
  show ?thesis
    by (auto simp: read rights_subset_iff rights_is_empty_iff distinct_rights_iter)
qed

text \<open>
  C7: The memoised rights are the rights of a fresh walk: with a memo whose entries are
  right, the answer is all rights for an administrator, and otherwise a right is held
  exactly when some row on the inheritance chain of the inode (up to the nearest boundary,
  through the saved parent of a recoverable deletion) grants it to one of the principals
  and it is not \<open>admin\<close>; the memo's entries are right again afterwards, and asking without
  a memo gives the same rights.
\<close>

theorem memoised_rights_are_right:
  assumes "memo_ok reads principals memo"
    and "memo_effective_rights reads principals i memo = Inr (rights, memo')"
  shows "memo_ok reads principals memo' \<and>
    (\<forall>fresh. effective_rights reads principals i = Inr fresh \<longrightarrow> fresh = rights) \<and>
    (if is_administrator reads principals = Inr True then rights = ALL_ACCESS_RIGHTS
     else \<exists>chain. inherits reads i chain \<and>
       (\<forall>r. rights_contains rights r \<longleftrightarrow>
          r \<noteq> Admin \<and> (\<exists>j row p. (j, Some row) \<in> set chain \<and> p \<in> set principals \<and>
            rights_contains (grants_get (xr_grants row) p) r)))"
proof -
  note right = memo_effective_rights_right [OF assms]
  then have "fresh = rights" if "effective_rights reads principals i = Inr fresh" for fresh
    using effective_rights_right [OF that] rights_spec_fun by blast
  with right show ?thesis by (auto simp: rights_spec_def chain_rights_contains)
qed

definition granted_rows :: metadata_state where
  "granted_rows = fold apply_committed_wal_record
     [commit_of 1 ''c_1'' docs_deltas,
      commit_of 2 ''c_2''
        [AppendAccessRevision 0 0 1 False [(''ann'', right_bit Read), (''bob'', right_bit Admin)],
         AppendAccessRevision 1 7 1 False [(''ann'', right_bit Write)]]] genesis_rows"

theorem memoised_rights_are_right_witness:
  "\<exists>rights memo. memo_effective_rights (reads_at_seq granted_rows 2) [''ann''] 6 default_memo
       = Inr (rights, memo) \<and>
     rights_iter rights = [Read, Write] \<and> memo_ok (reads_at_seq granted_rows 2) [''ann''] memo"
proof -
  have "(case memo_effective_rights (reads_at_seq granted_rows 2) [''ann''] 6 default_memo of
      Inr (rights, _) \<Rightarrow> rights_iter rights | _ \<Rightarrow> []) = [Read, Write]" by code_simp
  then obtain rights memo where
    "memo_effective_rights (reads_at_seq granted_rows 2) [''ann''] 6 default_memo = Inr (rights, memo)"
    "rights_iter rights = [Read, Write]" by (auto split: sum.splits)
  with memoised_rights_are_right [OF default_memo_ok this(1)] show ?thesis by blast
qed

section \<open>Content layouts\<close>

lemma span_fits_iff:
  "span_fits object object_end \<longleftrightarrow>
     (case object of Whole \<Rightarrow> True | Span start end \<Rightarrow> start < end \<and> unat start + unat object_end \<le> unat end)"
proof (cases object)
  case (Span start stop)
  have "\<not> start \<ge> stop \<Longrightarrow> unat (stop - start) = unat stop - unat start"
    by (simp add: unat_sub not_le less_imp_le)
  with Span show ?thesis by (auto simp: span_fits_def word_less_nat_alt word_le_nat_alt)
qed (simp add: span_fits_def)

lemma validate_extents_Inr:
  "validate_extents size_bytes len es = Inr n \<longleftrightarrow>
     list_all (\<lambda>e. (size_bytes = 0 \<or> ex_length e \<noteq> 0) \<and>
       unat (ex_offset e) + unat (ex_length e) < 2 ^ 64 \<and>
       span_fits (ex_object e) (ex_offset e + ex_length e)) es \<and>
     unat len + sum_list (map (unat \<circ> ex_length) es) < 2 ^ 64 \<and>
     unat n = unat len + sum_list (map (unat \<circ> ex_length) es)"
proof (induction es arbitrary: len)
  case Nil
  have "unat len < 2 ^ 64" by (rule order.strict_trans2 [OF unsigned_less]) simp
  then show ?case by (auto simp: word_unat_eq_iff)
next
  case (Cons e es)
  have add: "checked_add a b = Some c \<longleftrightarrow> unat a + unat b < 2 ^ 64 \<and> c = a + b" for a b c :: u64
    by (auto simp: checked_add_def)
  have sum: "unat (len + ex_length e) = unat len + unat (ex_length e)"
    if "unat len + unat (ex_length e) < 2 ^ 64"
    using that unat_add_lem [of len "ex_length e"] by simp
  show ?case
    by (auto simp: add Cons.IH sum word_gt_0)
qed

text \<open>
  C21: A layout is accepted for a size exactly when its extents make up that many bytes:
  their lengths add up to the size without overflow, none is empty unless the content is
  (which is one empty whole extent), every end is in range, and every extent of a span
  lies within the span.
\<close>

theorem layouts_fit_their_size:
  "validate_layout layout size_bytes = Inr () \<longleftrightarrow>
     (if size_bytes = 0 then is_empty_whole (ly_extents layout)
      else list_all (\<lambda>e. 0 < ex_length e) (ly_extents layout)) \<and>
     list_all (\<lambda>e. unat (ex_offset e) + unat (ex_length e) < 2 ^ 64 \<and>
       (case ex_object e of
          Whole \<Rightarrow> True
        | Span start end \<Rightarrow> start < end \<and>
            unat start + unat (ex_offset e) + unat (ex_length e) \<le> unat end)) (ly_extents layout) \<and>
     sum_list (map (unat \<circ> ex_length) (ly_extents layout)) = unat size_bytes"
proof -
  have end_of: "unat (ex_offset e + ex_length e) = unat (ex_offset e) + unat (ex_length e)"
    if "unat (ex_offset e) + unat (ex_length e) < 2 ^ 64" for e :: content_extent
    using that unat_add_lem [of "ex_offset e" "ex_length e"] by simp
  have fits: "(unat (ex_offset e) + unat (ex_length e) < 2 ^ 64 \<and>
       span_fits (ex_object e) (ex_offset e + ex_length e)) =
     (unat (ex_offset e) + unat (ex_length e) < 2 ^ 64 \<and>
       (case ex_object e of
          Whole \<Rightarrow> True
        | Span start end \<Rightarrow> start < end \<and>
            unat start + unat (ex_offset e) + unat (ex_length e) \<le> unat end))" for e :: content_extent
    using end_of [of e] by (auto simp: span_fits_iff add.assoc split: extent_object.splits)
  have small: "unat size_bytes < 2 ^ 64" by (rule order.strict_trans2 [OF unsigned_less]) simp
  have "validate_layout layout size_bytes = Inr () \<longleftrightarrow>
      (size_bytes = 0 \<longrightarrow> is_empty_whole (ly_extents layout)) \<and>
      (\<exists>n. validate_extents size_bytes 0 (ly_extents layout) = Inr n \<and> n = size_bytes)"
    by (auto simp: validate_layout_def)
  also have "\<dots> \<longleftrightarrow> (size_bytes = 0 \<longrightarrow> is_empty_whole (ly_extents layout)) \<and>
      validate_extents size_bytes 0 (ly_extents layout) = Inr size_bytes" by blast
  finally have *: "validate_layout layout size_bytes = Inr () \<longleftrightarrow>
      (size_bytes = 0 \<longrightarrow> is_empty_whole (ly_extents layout)) \<and>
      validate_extents size_bytes 0 (ly_extents layout) = Inr size_bytes" .
  define n where "n = sum_list (map (unat \<circ> ex_length) (ly_extents layout))"
  show ?thesis
    unfolding * validate_extents_Inr fits n_def [symmetric] using small
    by (auto simp: list_all_iff word_gt_0)
qed

section \<open>Generated inode ids\<close>

text \<open>
  C24: A generated inode id holds its parts: the create number, the low half of the commit
  sequence and the random bits can be read back from it, so ids of different creates of a
  commit, or of commits that differ in the low half of their sequence, differ.
\<close>

theorem generated_inode_ids_hold_their_parts:
  "(ucast (drop_bit 64 (generate_inode_id seq create_no random)) :: u32) = create_no \<and>
   (ucast (drop_bit 96 (generate_inode_id seq create_no random)) :: u32) = ucast seq \<and>
   (ucast (generate_inode_id seq create_no random) :: u64) = random"
proof -
  have low: "(0xFFFFFFFF :: 128 word) = mask 32" by (simp add: mask_eq_exp_minus_1)
  have id_bits: "bit (generate_inode_id seq create_no random) n \<longleftrightarrow>
      n < 64 \<and> bit random n \<or> 64 \<le> n \<and> n < 96 \<and> bit create_no (n - 64) \<or>
      96 \<le> n \<and> n < 128 \<and> bit seq (n - 96)" for n
    unfolding generate_inode_id_def Let_def low take_bit_eq_mask [symmetric]
    by (auto simp: bit_simps dest: bit_imp_le_length)
  show ?thesis
    by (intro conjI bit_word_eqI) (auto simp: bit_simps id_bits)
qed

section \<open>Ordinals and delta numbers\<close>

text \<open>
  C25: The successor of a public ordinal is the next integer, and it is refused exactly
  when it would leave the integers the API can represent.
\<close>

theorem ordinals_stay_public:
  "successor n = (if unat n < 9007199254740991 then Inr (n + 1) else Inl PublicOrdinalRangeError) \<and>
   (unat n < 9007199254740991 \<longrightarrow> unat (n + 1) = unat n + 1)"
proof -
  have next_nat: "unat (n + 1) = unat n + 1" if "unat n < 9007199254740991"
    using that unat_add_lem [of n 1] by simp
  have "checked_add n 1 = (if unat n + 1 < 2 ^ 64 then Some (n + 1) else None)"
    by (simp add: checked_add_def)
  moreover have "n + 1 \<le> MAX_PUBLIC_INTEGER \<longleftrightarrow> unat n < 9007199254740991" if "unat n + 1 < 2 ^ 64"
    using that unat_add_lem [of n 1] by (auto simp: MAX_PUBLIC_INTEGER_def word_le_nat_alt)
  ultimately show ?thesis
    using next_nat by (auto simp: successor_def next_public_ordinal_def)
qed

theorem ordinals_stay_public_witness:
  "successor 41 = Inr 42 \<and> unat (41 + 1 :: u64) = 42"
  using ordinals_stay_public [of 41] by simp

lemma numbered_nth:
  "numbered i ds j \<Longrightarrow> unat i + length ds < 2 ^ 32 \<and> unat j = unat i + length ds \<and>
    (\<forall>k<length ds. unat (wal_delta_index (ds ! k)) = unat i + k)"
proof (induction ds arbitrary: i)
  case Nil
  then show ?case by (auto intro: order.strict_trans2 [OF unsigned_less])
next
  case (Cons d ds)
  from Cons.prems have first: "wal_delta_index d = i" and "i < i + 1" and rest: "numbered (i + 1) ds j"
    by simp_all
  from \<open>i < i + 1\<close> have "checked_add i 1 = Some (i + 1)" by (simp add: checked_add_one)
  from checked_add_Some [OF this] have one: "unat (i + 1) = unat i + 1" by (simp only: unat_1)
  from Cons.IH [OF rest] show ?case
    by (auto simp: one first nth_Cons split: nat.splits)
qed

text \<open>
  C19: The deltas of a validated commit are numbered from zero without gaps, and there are
  fewer than two to the thirty-second of them.
\<close>

theorem validated_deltas_are_numbered:
  assumes "session_ok (session_new base accepted seq cid actor ms) m"
    and "plan_ok (view_tree (session_view (session_new base accepted seq cid actor ms)) m) ops"
    and "validate_ops u hvc rl (session_new base accepted seq cid actor ms) ops = Inr (deltas, vs')"
  shows "length deltas < 2 ^ 32 \<and>
    (\<forall>k<length deltas. unat (wal_delta_index (wd_delta (deltas ! k))) = k)"
proof -
  have zero: "cn_next_delta_index (vs_numbering (session_new base accepted seq cid actor ms)) = 0"
    by (simp add: session_new_def default_numbering_def)
  from validate_ops_ok [OF assms] have "numbered 0 (map wd_delta deltas) (cn_next_delta_index (vs_numbering vs'))"
    unfolding zero by blast
  from numbered_nth [OF this] show ?thesis by simp
qed

theorem validated_deltas_are_numbered_witness:
  "\<exists>deltas vs'. validate_ops plain_unicode no_children (\<lambda>_. None)
       (genesis_session 1 ''c_1'' ''alice'' 1000) first_ops = Inr (deltas, vs') \<and>
     length deltas < 2 ^ 32"
proof -
  obtain deltas vs' where run: "validate_ops plain_unicode no_children (\<lambda>_. None)
      (genesis_session 1 ''c_1'' ''alice'' 1000) first_ops = Inr (deltas, vs')"
    using first_commit_runs by (auto split: sum.splits prod.splits)
  with validated_deltas_are_numbered
    [OF genesis_session_ok [unfolded genesis_session_def]
      first_plan_ok [unfolded genesis_session_def] run [unfolded genesis_session_def]]
  show ?thesis by blast
qed

end
