(* ===== verification/Attributes.thy ===== *)
theory Attributes
  imports Path_Grammar Core_Error "HOL-Library.Char_ord" "HOL-Library.List_Lexorder"
begin

text \<open>
  Attribute maps (\<open>loonfs-types/src/attributes.rs\<close>): the rules for keys and values, the
  limits of a whole map, and the update of a map that a commit plans
  (\<open>loonfs-core/src/path/write/plan_attributes.rs\<close>).  Keys are compared byte for byte, so
  the entries of a map lie in the order of the bytes of their keys.
\<close>

section \<open>Keys, values and maps\<close>

definition MAX_ATTRIBUTE_KEY_BYTES :: nat where
  "MAX_ATTRIBUTE_KEY_BYTES = 128"

definition MAX_ATTRIBUTE_VALUE_BYTES :: nat where
  "MAX_ATTRIBUTE_VALUE_BYTES = 4096"

definition MAX_ATTRIBUTE_ENTRIES :: nat where
  "MAX_ATTRIBUTE_ENTRIES = 100"

definition MAX_ATTRIBUTES_TOTAL_BYTES :: nat where
  "MAX_ATTRIBUTES_TOTAL_BYTES = 65536"

definition RESERVED_ATTRIBUTE_KEY_PREFIX :: string where
  "RESERVED_ATTRIBUTE_KEY_PREFIX = ''loonfs.''"

definition is_reserved_key :: "string \<Rightarrow> bool" where
  "is_reserved_key key \<longleftrightarrow>
     take (length RESERVED_ATTRIBUTE_KEY_PREFIX) key = RESERVED_ATTRIBUTE_KEY_PREFIX"

text \<open>The error of a key names the key, except where the key is too long to repeat.\<close>

datatype attribute_key_error =
    EmptyKey string
  | KeyTooLong string
  | KeyHasControlCharacter string

definition validate_attribute_key :: "string \<Rightarrow> (attribute_key_error, unit) result" where
  "validate_attribute_key v =
     rbind (err_if (v = []) (EmptyKey v)) (\<lambda>_.
     rbind (err_if (length v > MAX_ATTRIBUTE_KEY_BYTES) (KeyTooLong [])) (\<lambda>_.
     err_if (list_ex char_is_control (utf8_chars v)) (KeyHasControlCharacter v)))"

datatype attribute_value_error = ValueTooLong string

definition validate_attribute_value :: "string \<Rightarrow> (attribute_value_error, unit) result" where
  "validate_attribute_value v = err_if (length v > MAX_ATTRIBUTE_VALUE_BYTES) (ValueTooLong [])"

definition logical_bytes_of :: "attributes \<Rightarrow> nat" where
  "logical_bytes_of entries = sum_list (map (\<lambda>(key, v). length key + length v) entries)"

definition attributes_new :: "attributes \<Rightarrow> (attributes_error, attributes) result" where
  "attributes_new entries =
     rbind (err_if (length entries > MAX_ATTRIBUTE_ENTRIES) (TooManyAttributes (length entries))) (\<lambda>_.
     let total_bytes = logical_bytes_of entries
     in rbind (err_if (total_bytes > MAX_ATTRIBUTES_TOTAL_BYTES) (AttributesTooLarge total_bytes)) (\<lambda>_.
        Inr entries))"

section \<open>Updates\<close>

text \<open>
  The shape of an update: the loop over the removed keys with the keys seen so far, then
  the reserved keys among the set and the removed ones.
\<close>

fun check_removals :: "attributes \<Rightarrow> string list \<Rightarrow> string list \<Rightarrow> (core_error, unit) result" where
  "check_removals set_entries seen [] = Inr ()"
| "check_removals set_entries seen (key # keys) =
     rbind (err_if (key \<in> set seen) (InvalidCommitRequest (AttributeRemovedTwice key))) (\<lambda>_.
     rbind (err_if (map_of set_entries key \<noteq> None)
              (InvalidCommitRequest (AttributeSetAndRemoved key))) (\<lambda>_.
     check_removals set_entries (key # seen) keys))"

definition validate_request_shape :: "attributes \<Rightarrow> string list \<Rightarrow> (core_error, unit) result" where
  "validate_request_shape set_entries removed =
     rbind (err_if (set_entries = [] \<and> removed = []) (InvalidCommitRequest NoAttributeChange)) (\<lambda>_.
     rbind (check_removals set_entries [] removed) (\<lambda>_.
     case find is_reserved_key (map fst set_entries @ removed) of
       Some key \<Rightarrow> Inl (InvalidCommitRequest (AttributeReserved key))
     | None \<Rightarrow> Inr ()))"

definition updated_attributes ::
  "attributes \<Rightarrow> attributes \<Rightarrow> string list \<Rightarrow> (core_error, attributes) result" where
  "updated_attributes current set_entries removed =
     (let updated = fold (\<lambda>(key, v) entries. btree_insert key v entries) set_entries current;
          updated = fold (\<lambda>key entries. filter (\<lambda>(k, _). k \<noteq> key) entries) removed updated
      in map_err (\<lambda>e. InvalidCommitRequest (AttributesInvalid e)) (attributes_new updated))"

section \<open>What an update does\<close>

text \<open>A map is well formed when its keys lie in order and it keeps the limits.\<close>

definition attributes_ok :: "attributes \<Rightarrow> bool" where
  "attributes_ok entries \<longleftrightarrow>
     sorted_wrt (<) (map fst entries) \<and>
     length entries \<le> MAX_ATTRIBUTE_ENTRIES \<and> logical_bytes_of entries \<le> MAX_ATTRIBUTES_TOTAL_BYTES"

lemma inserts_ordered:
  "sorted_wrt (<) (map fst es) \<Longrightarrow>
    sorted_wrt (<) (map fst (fold (\<lambda>(k, v). btree_insert k v) kvs es))"
  by (induction kvs arbitrary: es) (auto simp: strict_sorted_btree_insert)

lemma map_of_inserts:
  "distinct (map fst kvs) \<Longrightarrow> sorted_wrt (<) (map fst es) \<Longrightarrow>
    map_of (fold (\<lambda>(k, v). btree_insert k v) kvs es) = map_of es ++ map_of kvs"
proof (induction kvs arbitrary: es)
  case (Cons kv kvs)
  obtain k v where kv: "kv = (k, v)" by fastforce
  have "map_of (fold (\<lambda>(k, v). btree_insert k v) (kv # kvs) es) =
      (map_of es)(k \<mapsto> v) ++ map_of kvs"
    using Cons kv by (simp add: strict_sorted_btree_insert map_of_btree_insert)
  also have "\<dots> = map_of es ++ map_of (kv # kvs)"
    using Cons.prems(1) unfolding kv
    by (simp add: map_add_upd_left dom_map_of_conv_image_fst)
  finally show ?case .
qed simp

lemma fold_filter_removed:
  "fold (\<lambda>key. filter (\<lambda>(k, _). k \<noteq> key)) removed es = filter (\<lambda>(k, _). k \<notin> set removed) es"
  by (induction removed arbitrary: es) (auto intro!: filter_cong)

lemma map_of_filter_keys: "map_of (filter (\<lambda>(k, _). P k) es) k = (if P k then map_of es k else None)"
  by (induction es) auto

lemma sorted_filter_fst: "sorted_wrt (<) (map fst es) \<Longrightarrow> sorted_wrt (<) (map fst (filter P es))"
  by (induction es) auto

lemma updated_attributes_right:
  assumes "attributes_ok current" "distinct (map fst set_entries)"
    "updated_attributes current set_entries removed = Inr entries"
  shows "attributes_ok entries"
    "map_of entries k = (if k \<in> set removed then None
       else case map_of set_entries k of Some v \<Rightarrow> Some v | None \<Rightarrow> map_of current k)"
proof -
  let ?es = "fold (\<lambda>(key, v) entries. btree_insert key v entries) set_entries current"
  have entries: "entries = filter (\<lambda>(k, _). k \<notin> set removed) ?es"
    and limits: "length entries \<le> MAX_ATTRIBUTE_ENTRIES" "logical_bytes_of entries \<le> MAX_ATTRIBUTES_TOTAL_BYTES"
    using assms(3)
    by (auto simp: updated_attributes_def attributes_new_def Let_def fold_filter_removed not_less)
  have current: "sorted_wrt (<) (map fst current)" using assms(1) by (simp add: attributes_ok_def)
  from inserts_ordered [OF this] have "sorted_wrt (<) (map fst entries)"
    unfolding entries by (rule sorted_filter_fst)
  with limits show "attributes_ok entries" by (simp add: attributes_ok_def)
  show "map_of entries k = (if k \<in> set removed then None
       else case map_of set_entries k of Some v \<Rightarrow> Some v | None \<Rightarrow> map_of current k)"
    unfolding entries map_of_filter_keys map_of_inserts [OF assms(2) current]
    by (simp add: map_add_def)
qed

lemma check_removals_Inr:
  "check_removals set_entries seen removed = Inr () \<longleftrightarrow>
     distinct removed \<and> set removed \<inter> set seen = {} \<and> (\<forall>k\<in>set removed. map_of set_entries k = None)"
  by (induction removed arbitrary: seen) auto

lemma validate_request_shape_Inr:
  "validate_request_shape set_entries removed = Inr () \<longleftrightarrow>
     (set_entries \<noteq> [] \<or> removed \<noteq> []) \<and> distinct removed \<and>
     (\<forall>k\<in>set removed. map_of set_entries k = None) \<and>
     (\<forall>k\<in>set (map fst set_entries @ removed). \<not> is_reserved_key k)"
proof (cases "find is_reserved_key (map fst set_entries @ removed)")
  case None
  then have "\<forall>k\<in>set (map fst set_entries @ removed). \<not> is_reserved_key k"
    by (auto simp: find_None_iff)
  with None show ?thesis by (auto simp: validate_request_shape_def check_removals_Inr)
next
  case (Some key)
  then have "key \<in> set (map fst set_entries @ removed)" "is_reserved_key key"
    by (metis find_Some_iff nth_mem)+
  then have "\<not> (\<forall>k\<in>set (map fst set_entries @ removed). \<not> is_reserved_key k)" by blast
  with Some show ?thesis by (auto simp: validate_request_shape_def)
qed

end
