(* ===== verification/Inode_Paths.thy ===== *)
theory Inode_Paths
  imports Model_Agreement
begin

text \<open>
  Paths of inodes (\<open>loonfs-core/src/path/read/current_files.rs\<close>): the walk up the parent
  bindings that spells an inode's path, with the memo of the paths it has spelled, and the
  resolution of a visible inode to its path.  An inode's path leads back to the inode.  The
  memo of lookups a read session keeps over its immutable view is left out.
\<close>

section \<open>Spelling a path\<close>

text \<open>\<open>AncestorWalk::take_followed_binding\<close>.\<close>

definition take_followed_binding ::
  "ancestor_walk \<Rightarrow> direntry_binding_record option \<times> ancestor_walk" where
  "take_followed_binding walk = (aw_followed walk, walk \<lparr> aw_followed := None \<rparr>)"

text \<open>The loop of \<open>current_path\<close>: the path the climb starts from, and the bindings climbed.\<close>

function current_path_loop ::
  "('e, 'm) visibility_reads_scheme \<Rightarrow> (inode_id \<rightharpoonup> absolute_path) \<Rightarrow> ancestor_walk
    \<Rightarrow> direntry_binding_record list
    \<Rightarrow> ('e, (absolute_path \<times> direntry_binding_record list) option) result" where
  "current_path_loop reads known walk climbed =
     rbind (ancestor_walk_next reads walk) (\<lambda>(ancestor, walk').
       case ancestor of
         None \<Rightarrow> Inr None
       | Some current \<Rightarrow>
           let (followed, walk') = take_followed_binding walk';
               climbed = climbed @ option_list followed
           in if current = ROOT_INODE_ID then Inr (Some (root_path, climbed))
              else case known current of
                     Some path \<Rightarrow> Inr (Some (path, climbed))
                   | None \<Rightarrow> current_path_loop reads known walk' climbed)"
  by auto

termination
proof (relation "measure (\<lambda>(reads, known, walk, climbed). unseen walk)", goal_cases)
  case (2 reads known walk climbed x anc walk' current followed walk'')
  then show ?case
    by (auto dest!: ancestor_walk_next_unseen simp: take_followed_binding_def unseen_def)
qed simp

declare current_path_loop.simps [simp del]

text \<open>One turn of the loop that joins the climbed names, from the known path to the leaf.
  The walk follows current parent bindings only, which are bound, so the \<open>expect\<close> of the
  source is never reached; the model reads the empty name there.\<close>

definition join_climbed ::
  "direntry_binding_record \<Rightarrow> absolute_path \<times> (inode_id \<rightharpoonup> absolute_path)
    \<Rightarrow> absolute_path \<times> (inode_id \<rightharpoonup> absolute_path)" where
  "join_climbed binding = (\<lambda>(path, ancestor_paths).
     let path = join_path path (the_default [] (db_display_name binding))
     in (path, ancestor_paths(db_child_inode_id binding \<mapsto> path)))"

lemma join_climbed_apply [simp]:
  "join_climbed binding (path, known) =
     (join_path path (the_default [] (db_display_name binding)),
      known(db_child_inode_id binding \<mapsto> join_path path (the_default [] (db_display_name binding))))"
  by (simp add: join_climbed_def Let_def)

definition current_path ::
  "('e, 'm) visibility_reads_scheme \<Rightarrow> (inode_id \<rightharpoonup> absolute_path) \<Rightarrow> inode_id
    \<Rightarrow> ('e, absolute_path option \<times> (inode_id \<rightharpoonup> absolute_path)) result" where
  "current_path reads ancestor_paths inode_id =
     rbind (current_path_loop reads ancestor_paths (ancestor_walk_new inode_id) []) (\<lambda>found.
       Inr (case found of
              None \<Rightarrow> (None, ancestor_paths)
            | Some (base, climbed) \<Rightarrow>
                map_prod Some id (fold join_climbed (rev climbed) (base, ancestor_paths))))"

definition resolve_visible_inode ::
  "('e, 'm) visibility_reads_scheme \<Rightarrow> (inode_id \<rightharpoonup> absolute_path) \<Rightarrow> inode_id
    \<Rightarrow> ('e, resolved_visible_path option \<times> (inode_id \<rightharpoonup> absolute_path)) result" where
  "resolve_visible_inode reads ancestor_paths inode_id =
     rbind (vr_visible_inode reads inode_id) (\<lambda>inode.
       case inode of
         None \<Rightarrow> Inr (None, ancestor_paths)
       | Some inode \<Rightarrow>
           rbind (current_path reads ancestor_paths inode_id) (\<lambda>(path, ancestor_paths).
             case path of
               None \<Rightarrow> Inr (None, ancestor_paths)
             | Some path \<Rightarrow>
                 rbind (if inode_id = ROOT_INODE_ID then Inr (Some None)
                        else rbind (vr_current_parent_binding_for_child reads inode_id)
                               (\<lambda>binding. Inr (map_option Some binding))) (\<lambda>current_binding.
                   case current_binding of
                     None \<Rightarrow> Inr (None, ancestor_paths)
                   | Some binding \<Rightarrow>
                       Inr (Some \<lparr> rp_absolute_path = path, rp_inode_id = inode_id,
                                   rp_inode_kind = ir_inode_kind inode,
                                   rp_created_by = ir_committed_by inode,
                                   rp_created_at_ms = ir_committed_at_ms inode,
                                   rp_parent_inode_id = map_option db_parent_inode_id binding,
                                   rp_display_name =
                                     (case binding of
                                        Some b \<Rightarrow> the_default [] (db_display_name b) | None \<Rightarrow> []),
                                   rp_binding_version = map_option db_bind_position binding \<rparr>,
                            ancestor_paths))))"

section \<open>What the walk spells\<close>

inductive spelled ::
  "(inode_id \<Rightarrow> direntry_binding_record option) \<Rightarrow> inode_id \<Rightarrow> absolute_path \<Rightarrow> bool" for par where
  at_root: "spelled par ROOT_INODE_ID root_path"
| below: "i \<noteq> ROOT_INODE_ID \<Longrightarrow> par i = Some row \<Longrightarrow> spelled par (db_parent_inode_id row) path
    \<Longrightarrow> spelled par i (join_path path (the_default [] (db_display_name row)))"

inductive_simps spelled_iff: "spelled par i path"

lemma spelled_fun: "spelled par i path \<Longrightarrow> spelled par i path' \<Longrightarrow> path = path'"
proof (induction arbitrary: path' rule: spelled.induct)
  case at_root
  then show ?case by (simp add: spelled_iff [of par ROOT_INODE_ID])
next
  case (below i row path)
  from below.prems below.hyps(1,2) obtain q where "spelled par (db_parent_inode_id row) q"
    "path' = join_path q (the_default [] (db_display_name row))"
    by (auto simp: spelled_iff [of par i])
  with below.IH show ?case by blast
qed

text \<open>The bindings between an inode and one of its ancestors, from the inode up.\<close>

fun climbs ::
  "(inode_id \<Rightarrow> direntry_binding_record option) \<Rightarrow> inode_id \<Rightarrow> direntry_binding_record list \<Rightarrow> inode_id \<Rightarrow> bool" where
  "climbs par i [] j \<longleftrightarrow> i = j"
| "climbs par i (row # rows) j \<longleftrightarrow>
     i \<noteq> ROOT_INODE_ID \<and> par i = Some row \<and> climbs par (db_parent_inode_id row) rows j"

lemma climbs_append: "climbs par i xs k \<Longrightarrow> climbs par k ys j \<Longrightarrow> climbs par i (xs @ ys) j"
  by (induction xs arbitrary: i) auto

lemma climbs_spelled: "climbs par i rows j \<Longrightarrow> spelled par i path \<Longrightarrow> \<exists>q. spelled par j q"
proof (induction rows arbitrary: i path)
  case (Cons row rows)
  from Cons.prems have "i \<noteq> ROOT_INODE_ID" "par i = Some row" by simp_all
  with Cons.prems(2) obtain q where "spelled par (db_parent_inode_id row) q"
    by (auto simp: spelled_iff [of par i])
  with Cons show ?case by auto
qed auto

definition paths_ok ::
  "(inode_id \<Rightarrow> direntry_binding_record option) \<Rightarrow> (inode_id \<rightharpoonup> absolute_path) \<Rightarrow> bool" where
  "paths_ok par known \<longleftrightarrow> (\<forall>i path. known i = Some path \<longrightarrow> spelled par i path)"

lemma paths_ok_empty: "paths_ok par Map.empty"
  by (simp add: paths_ok_def)

lemma paths_ok_upd: "paths_ok par known \<Longrightarrow> spelled par i path \<Longrightarrow> paths_ok par (known(i \<mapsto> path))"
  by (simp add: paths_ok_def)

lemma climb_spells:
  assumes child: "\<And>c row. par c = Some row \<Longrightarrow> db_child_inode_id row = c"
  shows "climbs par i rows j \<Longrightarrow> spelled par j base \<Longrightarrow> paths_ok par known \<Longrightarrow>
    fold join_climbed (rev rows) (base, known) = (path, known') \<Longrightarrow>
    spelled par i path \<and> paths_ok par known'"
proof (induction rows arbitrary: i path known')
  case Nil
  then show ?case by simp
next
  case (Cons row rows)
  from Cons.prems(1) have i: "i \<noteq> ROOT_INODE_ID" "par i = Some row"
    and up: "climbs par (db_parent_inode_id row) rows j" by simp_all
  obtain q mid where mid: "fold join_climbed (rev rows) (base, known) = (q, mid)" by fastforce
  note right = Cons.IH [OF up Cons.prems(2,3) mid]
  from Cons.prems(4) mid have "path = join_path q (the_default [] (db_display_name row))"
    "known' = mid(db_child_inode_id row \<mapsto> path)" by auto
  moreover from right i have "spelled par i (join_path q (the_default [] (db_display_name row)))"
    by (blast intro: spelled.below)
  ultimately show ?case using right paths_ok_upd child [OF i(2)] by blast
qed

context visibility_provider
begin

lemma current_path_loop_right:
  assumes "invar s"
  shows "aw_next walk = Some (Inode i) \<or> aw_next walk = Some (ParentOf i) \<and> i \<noteq> ROOT_INODE_ID
    \<Longrightarrow> current_path_loop (reads s) known walk climbed = Inr found \<Longrightarrow>
    (case found of
       None \<Rightarrow> \<forall>path. \<not> spelled (parent_of s) i path
     | Some (base, climbed') \<Rightarrow>
         \<exists>rows j. climbed' = climbed @ rows \<and> climbs (parent_of s) i rows j \<and>
           (j = ROOT_INODE_ID \<and> base = root_path \<or> known j = Some base))"
proof (induction "reads s" known walk climbed arbitrary: i rule: current_path_loop.induct)
  case (1 known walk climbed)
  from 1(3) obtain anc walk' where step: "ancestor_walk_next (reads s) walk = Inr (anc, walk')"
    by (subst (asm) current_path_loop.simps) auto
  show ?case
  proof (cases anc)
    case None
    with 1(3) step have found: "found = None" by (subst (asm) current_path_loop.simps) auto
    have at: "aw_next walk = Some (ParentOf i)" "i \<noteq> ROOT_INODE_ID"
      using 1(2) step None
      by (auto simp: ancestor_walk_next_def visit_ancestor_def split: if_splits)
    with step obtain x where x: "vr_current_parent_binding_for_child (reads s) i = Inr x"
      by (auto simp: ancestor_walk_next_def)
    with step None at have "x = None"
      by (cases x) (auto simp: ancestor_walk_next_def visit_ancestor_def split: if_splits)
    with current_parent [OF assms x] at(2) found show ?thesis
      by (simp add: spelled_iff [of "parent_of s" i])
  next
    case (Some current)
    have nxt: "aw_next (walk' \<lparr> aw_followed := None \<rparr>) = Some (ParentOf current)"
      using ancestor_walk_next_seen(3) [OF step [unfolded Some]] by simp
    obtain rows where rows: "option_list (aw_followed walk') = rows" "climbs (parent_of s) i rows current"
    proof -
      consider "aw_next walk = Some (Inode i)" | "aw_next walk = Some (ParentOf i)" "i \<noteq> ROOT_INODE_ID"
        using 1(2) by blast
      then show ?thesis
      proof cases
        case 1
        with step Some show ?thesis using that [of "[]"]
          by (auto simp: ancestor_walk_next_def visit_ancestor_def split: if_splits)
      next
        case 2
        with step Some obtain row where row: "vr_current_parent_binding_for_child (reads s) i = Inr (Some row)"
          "current = db_parent_inode_id row" "aw_followed walk' = Some row"
          by (auto simp: ancestor_walk_next_def visit_ancestor_def split: option.splits if_splits)
        from current_parent [OF assms row(1)] 2(2) row show ?thesis using that [of "[row]"] by simp
      qed
    qed
    have take_eq: "take_followed_binding walk' = (aw_followed walk', walk' \<lparr> aw_followed := None \<rparr>)"
      by (simp add: take_followed_binding_def)
    show ?thesis
    proof (cases "current = ROOT_INODE_ID \<or> known current \<noteq> None")
      case True
      with 1(3) step Some obtain base where "found = Some (base, climbed @ rows)"
        "current = ROOT_INODE_ID \<and> base = root_path \<or> known current = Some base"
        by (subst (asm) current_path_loop.simps)
           (auto simp: take_eq rows(1) Let_def split: option.splits if_splits)
      with rows(2) show ?thesis by auto
    next
      case False
      with 1(3) step Some have rest: "current_path_loop (reads s) known (walk' \<lparr> aw_followed := None \<rparr>)
          (climbed @ rows) = Inr found"
        by (subst (asm) current_path_loop.simps) (auto simp: take_eq rows(1) Let_def split: option.splits)
      from False have "current \<noteq> ROOT_INODE_ID" "known current = None" by simp_all
      note ih = 1(1) [OF step refl Some refl take_eq [symmetric] refl this, unfolded rows(1), OF _ rest]
      show ?thesis
      proof (cases found)
        case None
        with ih [of current] nxt \<open>current \<noteq> ROOT_INODE_ID\<close> have "\<not> spelled (parent_of s) current path" for path
          by simp
        with climbs_spelled [OF rows(2)] None show ?thesis by auto
      next
        case (Some f)
        obtain base climbed' where f: "f = (base, climbed')" by (cases f)
        from ih [of current] nxt \<open>current \<noteq> ROOT_INODE_ID\<close> Some f obtain more j
          where more: "climbed' = climbed @ rows @ more" "climbs (parent_of s) current more j"
            "j = ROOT_INODE_ID \<and> base = root_path \<or> known j = Some base" by auto
        with climbs_append [OF rows(2) more(2)] Some f show ?thesis by auto
      qed
    qed
  qed
qed

lemma current_path_right:
  assumes "invar s" and child: "\<And>c row. parent_of s c = Some row \<Longrightarrow> db_child_inode_id row = c"
    and known: "paths_ok (parent_of s) known"
    and "current_path (reads s) known i = Inr (found, known')"
  shows "paths_ok (parent_of s) known' \<and>
    (case found of None \<Rightarrow> \<forall>path. \<not> spelled (parent_of s) i path | Some path \<Rightarrow> spelled (parent_of s) i path)"
proof -
  from assms(4) obtain f where loop: "current_path_loop (reads s) known (ancestor_walk_new i) [] = Inr f"
    and res: "(found, known') = (case f of None \<Rightarrow> (None, known)
      | Some (base, climbed) \<Rightarrow> map_prod Some id (fold join_climbed (rev climbed) (base, known)))"
    by (auto simp: current_path_def)
  note right = current_path_loop_right [OF assms(1) _ loop, of i]
  show ?thesis
  proof (cases f)
    case None
    with right res known show ?thesis by (simp add: ancestor_walk_new_def)
  next
    case (Some g)
    obtain base rows where g: "g = (base, rows)" by (cases g)
    with right Some obtain j where climb: "climbs (parent_of s) i rows j"
      and base: "j = ROOT_INODE_ID \<and> base = root_path \<or> known j = Some base"
      by (auto simp: ancestor_walk_new_def)
    have "spelled (parent_of s) j base"
      using base known by (auto simp: paths_ok_def intro: spelled.at_root)
    obtain path known'' where "fold join_climbed (rev rows) (base, known) = (path, known'')" by fastforce
    with climb_spells [OF child climb \<open>spelled (parent_of s) j base\<close> known] res Some g
    show ?thesis by auto
  qed
qed

end

context total_provider
begin

lemma current_path_loop_error:
  assumes "invar s"
  shows "walk_ok s walk \<Longrightarrow> current_path_loop (reads s) known walk climbed = Inl e \<Longrightarrow>
    \<exists>a. (a, a) \<in> (parent_edges (parent_of s))\<^sup>+"
proof (induction "reads s" known walk climbed rule: current_path_loop.induct)
  case (1 known walk climbed)
  show ?case
  proof (cases "ancestor_walk_next (reads s) walk")
    case (Inl e')
    with next_error [OF assms 1(2) Inl] show ?thesis by blast
  next
    case (Inr r)
    obtain anc walk' where r: "r = (anc, walk')" by (cases r)
    have take_eq: "take_followed_binding walk' = (aw_followed walk', walk' \<lparr> aw_followed := None \<rparr>)"
      by (simp add: take_followed_binding_def)
    from 1(3) Inr r obtain current where current: "anc = Some current"
      and more: "current \<noteq> ROOT_INODE_ID" "known current = None"
      and rest: "current_path_loop (reads s) known (walk' \<lparr> aw_followed := None \<rparr>)
        (climbed @ option_list (aw_followed walk')) = Inl e"
      by (subst (asm) current_path_loop.simps) (auto simp: take_eq Let_def split: option.splits if_splits)
    have "walk_ok s (walk' \<lparr> aw_followed := None \<rparr>)"
      using walk_ok_next [OF assms 1(2) Inr [unfolded r current]] by (simp add: walk_ok_def pending_def)
    from 1(1) [OF Inr [unfolded r] refl current refl take_eq [symmetric] refl more this rest] show ?thesis .
  qed
qed

lemma current_path_total:
  assumes "invar s" "acyclic (parent_edges (parent_of s))"
  obtains found where "current_path (reads s) known i = Inr found"
proof (cases "current_path_loop (reads s) known (ancestor_walk_new i) []")
  case (Inl e)
  from current_path_loop_error [OF assms(1) walk_ok_new Inl] assms(2) show ?thesis
    by (auto simp: acyclic_def)
next
  case (Inr f)
  then show ?thesis using that by (auto simp: current_path_def)
qed

end

section \<open>Names and name keys\<close>

text \<open>Every slot is keyed by the folded spelling of the name stored in it.\<close>

definition tree_named :: "unicode_tables \<Rightarrow> tree \<Rightarrow> bool" where
  "tree_named u t \<longleftrightarrow>
     (\<forall>p n c pos d. t_slot t (p, n) = Some (c, pos, d) \<longrightarrow> n = name_key_for_display_name u d)"

fun delta_named :: "unicode_tables \<Rightarrow> wal_delta \<Rightarrow> bool" where
  "delta_named u (BindDirentry _ _ n d _ _ _ _ _) \<longleftrightarrow> n = name_key_for_display_name u d"
| "delta_named u _ \<longleftrightarrow> True"

lemma carry_layout_named [simp]: "delta_named u (carry_layout f d) = delta_named u d"
  by (cases d) simp_all

lemma tree_named_run:
  "tree_named u t \<Longrightarrow> tree_run s t ds \<Longrightarrow> \<forall>d\<in>set ds. delta_named u d
    \<Longrightarrow> tree_named u (fold (tree_step s) ds t)"
proof (induction ds arbitrary: t)
  case (Cons d ds)
  have "tree_named u (tree_step s d t)"
    using Cons.prems by (cases d) (auto simp: tree_named_def split: if_splits)
  with Cons show ?case by simp
qed simp

lemma resolve_name_absent_named:
  "resolve_name_absent u vs p d rebinding operand = Inr nk \<Longrightarrow> nk = name_key_for_display_name u d"
  by (auto simp: resolve_name_absent_def Let_def split: option.splits if_splits)

lemma validate_operation_named:
  assumes "validate_operation u hvc vs op1 = Inr (ds, n)"
  shows "\<forall>d\<in>set ds. delta_named u d"
proof (cases op1)
  case (CreateDirectory c p d)
  with assms have "validate_create u vs c p d NewDirectory = Inr (ds, n)" by simp
  then show ?thesis by (rule validate_create_InrE) (auto dest: resolve_name_absent_named)
next
  case (CreateFile c p d cr)
  with assms have "validate_create u vs c p d (NewFile cr) = Inr (ds, n)" by simp
  then show ?thesis by (rule validate_create_InrE) (auto dest: resolve_name_absent_named)
next
  case (Rename i b p d)
  with assms show ?thesis
    by (auto simp: validate_rename_def builders_Inr Let_def) (erule resolve_name_absent_named)
next
  case (Undelete i q p d)
  with assms show ?thesis
    by (auto simp: validate_undelete_def builders_Inr Let_def) (erule resolve_name_absent_named)
qed (use assms in \<open>auto simp: validate_replace_file_def validate_restore_revision_def
       validate_delete_file_def validate_delete_subtree_def
       validate_update_attributes_def validate_update_access_def builders_Inr Let_def\<close>)

lemma validate_ops_named:
  "validate_ops u hvc rl vs ops = Inr (wds, vs') \<Longrightarrow> \<forall>d\<in>set (map wd_delta wds). delta_named u d"
proof (induction ops arbitrary: vs wds)
  case (Cons op1 ops)
  from Cons.prems obtain wds1 vs1 wds2 where step: "validate_step u hvc rl vs op1 = Inr (wds1, vs1)"
    and rest: "validate_ops u hvc rl vs1 ops = Inr (wds2, vs')" and wds: "wds = wds1 @ wds2" by auto
  from step have "\<forall>d\<in>set (map wd_delta wds1). delta_named u d"
    by (auto simp: validate_step_def Let_def dest!: validate_operation_named)
  with Cons.IH [OF rest] wds show ?case by auto
qed simp

section \<open>An inode's path leads back to it\<close>

fun tree_path_bind :: "tree_path \<Rightarrow> (inode_id \<Rightarrow> delta_position option \<Rightarrow> display_name list \<Rightarrow> tree_path) \<Rightarrow> tree_path" where
  "tree_path_bind (TreeFound i pos names) f = f i pos names"
| "tree_path_bind p f = p"

lemma tree_resolve_append:
  "tree_resolve u t i pos names (ds @ es) =
     tree_path_bind (tree_resolve u t i pos names ds) (\<lambda>j q ns. tree_resolve u t j q ns es)"
  by (induction ds arbitrary: i pos names) (auto split: option.splits)

lemma spelled_resolves:
  assumes t: "t = core_tree I B T s" and inv: "tree_inv t" and named: "tree_named u t"
  shows "spelled (row_parent B s) i path \<Longrightarrow> \<not> tree_covered t i \<Longrightarrow>
    canonical_path path \<and>
    tree_resolve u t ROOT_INODE_ID None [] (ap_components path) =
      TreeFound i (map_option db_bind_position (if i = ROOT_INODE_ID then None else row_parent B s i))
        (ap_components path)"
proof (induction rule: spelled.induct)
  case at_root
  then show ?case by simp
next
  case (below i row path)
  let ?p = "db_parent_inode_id row" and ?d = "the_default [] (db_display_name row)"
  have up: "t_parent t i = Some ((?p, db_name_key row), binding_edge row)"
    using below.hyps(2) by (simp add: t core_tree_def)
  then have slot: "t_slot t (?p, db_name_key row) = Some (i, binding_edge row)"
    by (simp add: tree_invD(1) [OF inv])
  then have key: "db_name_key row = name_key_for_display_name u ?d"
    using named by (auto simp: tree_named_def binding_edge_def)
  have edge: "(i, ?p) \<in> tree_edges t" using up by (auto simp: tree_edges_def)
  then have "\<not> tree_covered t ?p"
    using below.prems
    by (auto simp: tree_covered_def tree_ancestors_def dest: converse_rtrancl_into_rtrancl)
  with below.IH have at: "tree_resolve u t ROOT_INODE_ID None [] (ap_components path) =
      TreeFound ?p (map_option db_bind_position
        (if ?p = ROOT_INODE_ID then None else row_parent B s ?p)) (ap_components path)" by blast
  from tree_invD(4) [OF inv edge] slot key below.prems below.hyps(1,2) show ?case
    by (simp add: tree_resolve_append at binding_edge_def)
qed

lemma view_child:
  "row_parent (flat ms_direntry_binds view m) s c = Some row \<Longrightarrow> db_child_inode_id row = c"
  using row_parent_event by blast

lemma resolve_visible_inode_right:
  assumes ok: "view_ok view m" and known: "paths_ok (row_parent (flat ms_direntry_binds view m) (mv_visible_seq view)) known"
    and found: "resolve_visible_inode (view_reads view) known i = Inr (Some r, known')"
  defines "par \<equiv> row_parent (flat ms_direntry_binds view m) (mv_visible_seq view)"
    and "t \<equiv> view_tree view m"
  shows "rp_inode_id r = i \<and> spelled par i (rp_absolute_path r) \<and> t_kind t i = Some (rp_inode_kind r) \<and>
    \<not> tree_covered t i \<and> paths_ok par known' \<and>
    rp_binding_version r = map_option db_bind_position (if i = ROOT_INODE_ID then None else par i) \<and>
    rp_parent_inode_id r = map_option db_parent_inode_id (if i = ROOT_INODE_ID then None else par i)"
proof -
  from found obtain inode where inode: "vr_visible_inode (view_reads view) i = Inr (Some inode)"
    by (auto simp: resolve_visible_inode_def split: option.splits)
  with found obtain path where path: "current_path (view_reads view) known i = Inr (Some path, known')"
    by (auto simp: resolve_visible_inode_def split: option.splits)
  let ?bound = "if i = ROOT_INODE_ID then Inr (Some None)
       else rbind (vr_current_parent_binding_for_child (view_reads view) i)
              (\<lambda>binding. Inr (map_option Some binding))"
  from found inode path obtain cb where cb: "?bound = Inr cb"
    by (auto simp: resolve_visible_inode_def simp del: if_split)
  with found inode path obtain b where b: "cb = Some b"
    by (cases cb) (simp_all add: resolve_visible_inode_def)
  with found inode path cb
  have r: "rp_absolute_path r = path" "rp_inode_id r = i" "rp_inode_kind r = ir_inode_kind inode"
      "rp_binding_version r = map_option db_bind_position b"
      "rp_parent_inode_id r = map_option db_parent_inode_id b"
    by (auto simp: resolve_visible_inode_def)
  have "visible_inode (view_reads view) i = Inr (Some inode)"
    using inode view_provider.visible_inode_provided [of "(view, m)"] by simp
  from view_provider.visible_inode_right [of "(view, m)", simplified, OF ok this, symmetric]
  have vis: "\<not> tree_covered t i" "t_kind t i = Some (ir_inode_kind inode)"
    unfolding t_def view_covered view_tree_def t_kind_core
    by (auto split: if_splits)
  have "spelled par i path \<and> paths_ok par known'"
    using view_provider.current_path_right [of "(view, m)" known i "Some path" known'] ok known path view_child
    unfolding par_def by auto
  moreover have "b = (if i = ROOT_INODE_ID then None else par i)"
    using cb b view_current_parent [OF ok, of i] unfolding par_def by (auto split: if_splits)
  ultimately show ?thesis using vis r by simp
qed

text \<open>Where a view's rows form a named tree, the path of a visible inode resolves to the inode.\<close>

lemma inode_path_resolves:
  assumes ok: "view_ok view m" "manifest_total (mv_manifest view)" and inv: "tree_inv (view_tree view m)"
    and kinds: "kinds_ok view m" and named: "tree_named u (view_tree view m)"
    and known: "paths_ok (row_parent (flat ms_direntry_binds view m) (mv_visible_seq view)) known"
    and found: "resolve_visible_inode (view_reads view) known i = Inr (Some r, known')"
  shows "\<exists>q. resolve_visible_path u (view_reads view) (rp_absolute_path r) = Inr q \<and>
    rp_inode_id q = i \<and> rp_absolute_path q = rp_absolute_path r \<and> rp_inode_kind q = rp_inode_kind r \<and>
    rp_binding_version q = rp_binding_version r"
proof -
  note right = resolve_visible_inode_right [OF ok(1) known found]
  then have spelled: "spelled (row_parent (flat ms_direntry_binds view m) (mv_visible_seq view)) i (rp_absolute_path r)"
    and unc: "\<not> tree_covered (view_tree view m) i" by blast+
  note path = spelled_resolves [OF view_tree_def inv named spelled unc]
  from core_resolve_tree [OF ok refl inv kinds, of u "rp_absolute_path r"] path right show ?thesis
    by (auto simp: canonical_path_iff)
qed

end
