(* ===== verification/Planning.thy ===== *)
theory Planning
  imports Attributes Access_Rules Inode_Paths
begin

text \<open>
  What the planners of \<open>loonfs-core/src/path/write\<close> share: the request types of
  \<open>loonfs-types/src/api/v0\<close>, the planning view with its targets and destinations
  (\<open>publish_path_planning.rs\<close>), the authorization checks (\<open>planning_authorization.rs\<close>)
  and the checks of expectations (\<open>preconditions.rs\<close>).  The spelling of binding versions
  as opaque tokens is a parameter: a CBOR and base64 library writes and reads them.
\<close>

section \<open>Requests\<close>

type_synonym binding_version = string

datatype destination_behavior = NoReplace | Replace

datatype delete_directory_behavior = NonRecursive | Recursive

datatype file_content = ContentRef content_ref | InlineBytes "u8 list"

record destination_precondition =
  dp_behavior :: destination_behavior
  dp_expected_inode_id :: "inode_id option"
  dp_expected_revision_no :: "revision_no option"

datatype undelete_destination =
    UndeletePath absolute_path
  | UndeleteName inode_id display_name
  | Recorded

text \<open>The fields of each operation stand in the order of the source.\<close>

datatype filesystem_operation =
    FsCreateDirectory absolute_path bool
  | FsPutFile absolute_path file_content destination_behavior "inode_id option" "revision_no option"
  | FsAppendFile absolute_path "u8 list" "inode_id option" "revision_no option"
  | FsDeletePath absolute_path delete_directory_behavior "inode_id option"
  | FsMovePath absolute_path absolute_path destination_precondition
  | FsCopyPath absolute_path absolute_path destination_precondition
  | FsRestoreRevision absolute_path revision_no
  | FsUndelete inode_id change_seq undelete_destination
  | FsCreateDirectoryByInode inode_id display_name
  | FsCreateFileByInode inode_id display_name file_content
  | FsPutFileRevisionByInode inode_id file_content revision_no
  | FsAppendFileByInode inode_id "u8 list" "revision_no option"
  | FsDeleteByInode inode_id binding_version delete_directory_behavior
  | FsMoveByInode inode_id binding_version inode_id display_name destination_precondition
  | FsCopyByInode inode_id inode_id display_name destination_precondition
  | FsRestoreRevisionByInode inode_id revision_no
  | FsUpdateAttributes absolute_path attributes "string list" "inode_id option"
      "attributes_revision_no option"
  | FsUpdateAttributesByInode inode_id attributes "string list" "attributes_revision_no option"
  | FsUpdateAccess absolute_path bool access_grants "inode_id option" "access_revision_no option"
  | FsUpdateAccessByInode inode_id bool access_grants "access_revision_no option"

text \<open>The encoder and the decoder of binding versions, for a namespace.\<close>

record token_codec =
  tk_encode :: "delta_position \<Rightarrow> namespace_id \<Rightarrow> binding_version"
  tk_decode :: "binding_version \<Rightarrow> namespace_id \<Rightarrow> delta_position option"

section \<open>Paths of mutations\<close>

definition ensure_mutation_path :: "absolute_path \<Rightarrow> (core_error, unit) result" where
  "ensure_mutation_path path = err_if (is_root_path path) RootMutationForbidden"

definition mutation_final_component :: "absolute_path \<Rightarrow> (core_error, display_name) result" where
  "mutation_final_component path = ok_or (InvalidPath (ap_normalized path)) (final_component path)"

definition ensure_mutation_inode :: "inode_id \<Rightarrow> (core_error, unit) result" where
  "ensure_mutation_inode inode_id = err_if (inode_id = ROOT_INODE_ID) RootMutationForbidden"

fun is_missing_visible_path :: "core_error \<Rightarrow> bool" where
  "is_missing_visible_path (CorePathNotFound _) = True"
| "is_missing_visible_path _ = False"

section \<open>Expectations\<close>

definition ensure_expected_inode ::
  "unicode_tables \<Rightarrow> resolved_visible_path \<Rightarrow> inode_id option \<Rightarrow> display_name
    \<Rightarrow> (core_error, unit) result" where
  "ensure_expected_inode u resolved expected name =
     (case expected of
        None \<Rightarrow> Inr ()
      | Some expected \<Rightarrow>
          err_if (rp_inode_id resolved \<noteq> expected)
            (CommitValidation (BindingPreconditionMismatch
               (NameUnderParent (name_key_for_display_name u name)
                  (the_default ROOT_INODE_ID (rp_parent_inode_id resolved)))
               (Some expected) (Some (rp_inode_id resolved)))))"

datatype precondition_fields = PutFields | DestinationFields

fun precondition_field_names :: "precondition_fields \<Rightarrow> string \<times> string" where
  "precondition_field_names PutFields = (''expected_revision_no'', ''expected_inode_id'')"
| "precondition_field_names DestinationFields =
     (''expected_destination_revision_no'', ''expected_destination_inode_id'')"

record expected_file_state =
  ef_inode_id :: inode_id
  ef_revision_no :: "revision_no option"

definition validate_expected_file_state ::
  "destination_behavior \<Rightarrow> inode_id option \<Rightarrow> revision_no option \<Rightarrow> precondition_fields
    \<Rightarrow> (destination_precondition_error, expected_file_state option) result" where
  "validate_expected_file_state behavior expected_inode_id expected_revision_no family =
     (let (revision_field, inode_field) = precondition_field_names family
      in rbind (err_if (behavior = NoReplace \<and> (expected_inode_id \<noteq> None \<or> expected_revision_no \<noteq> None))
                  (PreconditionsRequireReplace
                     (if expected_inode_id \<noteq> None then inode_field else revision_field))) (\<lambda>_.
         case expected_inode_id of
           None \<Rightarrow>
             rbind (err_if (expected_revision_no \<noteq> None)
                      (RevisionRequiresInode revision_field inode_field)) (\<lambda>_. Inr None)
         | Some inode_id \<Rightarrow>
             Inr (Some \<lparr> ef_inode_id = inode_id, ef_revision_no = expected_revision_no \<rparr>)))"

definition validate_revision_precondition ::
  "inode_id option \<Rightarrow> bool \<Rightarrow> string \<Rightarrow> (destination_precondition_error, unit) result" where
  "validate_revision_precondition expected_inode_id has_revision revision_field =
     err_if (has_revision \<and> expected_inode_id = None)
       (RevisionRequiresInode revision_field ''expected_inode_id'')"

definition validate_attributes_precondition ::
  "inode_id option \<Rightarrow> attributes_revision_no option \<Rightarrow> (destination_precondition_error, unit) result" where
  "validate_attributes_precondition expected_inode_id expected =
     validate_revision_precondition expected_inode_id (expected \<noteq> None) ''expected_attributes_revision_no''"

definition validate_access_precondition ::
  "inode_id option \<Rightarrow> access_revision_no option \<Rightarrow> (destination_precondition_error, unit) result" where
  "validate_access_precondition expected_inode_id expected =
     validate_revision_precondition expected_inode_id (expected \<noteq> None) ''expected_access_revision_no''"

text \<open>\<open>From<DestinationPreconditionError> for CoreError\<close>.\<close>

fun core_from_precondition :: "destination_precondition_error \<Rightarrow> core_error" where
  "core_from_precondition (PreconditionsRequireReplace field) =
     InvalidCommitField field (BadDestinationPrecondition (PreconditionsRequireReplace field))"
| "core_from_precondition (RevisionRequiresInode revision_field inode_field) =
     InvalidCommitField revision_field
       (BadDestinationPrecondition (RevisionRequiresInode revision_field inode_field))"

section \<open>The planning view\<close>

record planning_view =
  pv_namespace_id :: namespace_id
  pv_access :: namespace_access
  pv_authorizer :: authorizer
  pv_metadata :: metadata_view

datatype target = TargetPath absolute_path "inode_id option" | TargetInode inode_id

fun target_absence :: "target \<Rightarrow> absence" where
  "target_absence (TargetPath path _) = AbsentPath (ap_normalized path)"
| "target_absence (TargetInode _) = AbsentInode"

record resolved_target =
  rt_resolved :: resolved_visible_path
  rt_target :: target

definition rt_label :: "resolved_target \<Rightarrow> string" where
  "rt_label t =
     (case rt_target t of
        TargetPath path _ \<Rightarrow> ap_normalized path
      | TargetInode _ \<Rightarrow> ap_normalized (rp_absolute_path (rt_resolved t)))"

definition rt_not_found :: "resolved_target \<Rightarrow> core_error" where
  "rt_not_found t = absence_not_found (target_absence (rt_target t)) (rp_inode_id (rt_resolved t))"

definition rt_parent_inode_id :: "resolved_target \<Rightarrow> (core_error, inode_id) result" where
  "rt_parent_inode_id t = ok_or RootMutationForbidden (rp_parent_inode_id (rt_resolved t))"

definition rt_ensure_file :: "resolved_target \<Rightarrow> (core_error, unit) result" where
  "rt_ensure_file t =
     err_if (rp_inode_kind (rt_resolved t) \<noteq> File)
       (ExpectedFile (rt_label t) (rp_inode_kind (rt_resolved t)))"

definition rt_ensure_expected_inode ::
  "unicode_tables \<Rightarrow> resolved_target \<Rightarrow> (core_error, unit) result" where
  "rt_ensure_expected_inode u t =
     (case rt_target t of
        TargetInode _ \<Rightarrow> Inr ()
      | TargetPath path expected_inode_id \<Rightarrow>
          if \<not> is_root_path path then
            rbind (mutation_final_component path) (\<lambda>name.
            ensure_expected_inode u (rt_resolved t) expected_inode_id name)
          else
            (case expected_inode_id of
               Some expected \<Rightarrow>
                 err_if (expected \<noteq> rp_inode_id (rt_resolved t))
                   (CommitValidation (BindingPreconditionMismatch (AtPath (ap_normalized path))
                      (Some expected) (Some (rp_inode_id (rt_resolved t)))))
             | None \<Rightarrow> Inr ()))"

datatype destination = DestinationPath absolute_path | DestinationName inode_id display_name

fun destination_ensure_mutation :: "destination \<Rightarrow> (core_error, unit) result" where
  "destination_ensure_mutation (DestinationPath path) = ensure_mutation_path path"
| "destination_ensure_mutation (DestinationName _ _) = Inr ()"

record resolved_destination =
  rd_parent_inode_id :: inode_id
  rd_name :: display_name
  rd_path :: string
  rd_occupant :: "resolved_visible_path option"
  rd_absence :: absence

abbreviation pv_reads :: "planning_view \<Rightarrow> core_error visibility_reads" where
  "pv_reads v \<equiv> view_reads (pv_metadata v)"

definition pv_authorize ::
  "planning_view \<Rightarrow> inode_id \<Rightarrow> access_rights \<Rightarrow> absence \<Rightarrow> (core_error, unit) result" where
  "pv_authorize v inode_id rights absence =
     require_rights (pv_authorizer v) (pv_reads v) inode_id rights absence"

text \<open>\<open>MetadataView::latest_revision_head\<close> and \<open>MetadataView::content_published\<close>.\<close>

definition view_latest_revision_head ::
  "metadata_view \<Rightarrow> inode_id \<Rightarrow> (core_error, revision_record option) result" where
  "view_latest_revision_head view inode_id =
     rbind (visible_inode (view_reads view) inode_id) (\<lambda>inode.
       if inode = None then Inr None else view_latest_revision_record view inode_id)"

definition view_content_published ::
  "metadata_view \<Rightarrow> content_id \<Rightarrow> (core_error, bool) result" where
  "view_content_published view content_id =
     (if list_ex (\<lambda>st. list_ex (\<lambda>row. ct_content_id (rv_content_ref row) = content_id
                                          \<and> rv_committed_seq row \<le> mv_visible_seq view)
                        (ms_revisions st)) (view_row_states view)
      then Inr True
      else rbind (view_content_layout view content_id) (\<lambda>layout. Inr (layout \<noteq> None)))"

definition pv_resolve_visible_inode ::
  "planning_view \<Rightarrow> inode_id \<Rightarrow> (core_error, resolved_visible_path) result" where
  "pv_resolve_visible_inode v inode_id =
     rbind (resolve_visible_inode (pv_reads v) Map.empty inode_id) (\<lambda>(resolved, _).
     ok_or (InodeNotFound inode_id) resolved)"

definition pv_resolve_visible_path_for_authorization ::
  "unicode_tables \<Rightarrow> planning_view \<Rightarrow> absolute_path \<Rightarrow> access_rights \<Rightarrow> absence
    \<Rightarrow> (core_error, resolved_visible_path) result" where
  "pv_resolve_visible_path_for_authorization u v path rights absence =
     (case resolve_visible_path u (pv_reads v) path of
        Inl (VisiblePath (PathComponentNotDirectory spelling inode_id kind)) \<Rightarrow>
          rbind (pv_authorize v inode_id rights absence) (\<lambda>_.
          Inl (VisiblePath (PathComponentNotDirectory spelling inode_id kind)))
      | result \<Rightarrow> result)"

definition pv_resolve_visible_child ::
  "unicode_tables \<Rightarrow> planning_view \<Rightarrow> inode_id \<Rightarrow> display_name
    \<Rightarrow> (core_error, resolved_visible_path option) result" where
  "pv_resolve_visible_child u v parent_inode_id display_name =
     rbind (visible_child (pv_reads v) parent_inode_id (name_key_for_display_name u display_name))
       (\<lambda>binding.
         case binding of
           None \<Rightarrow> Inr None
         | Some binding \<Rightarrow>
             rbind (pv_resolve_visible_inode v (db_child_inode_id binding)) (\<lambda>resolved.
             Inr (Some resolved)))"

definition resolve_target ::
  "unicode_tables \<Rightarrow> planning_view \<Rightarrow> target \<Rightarrow> access_rights \<Rightarrow> (core_error, resolved_target) result" where
  "resolve_target u v target rights =
     rbind (case target of
              TargetPath path _ \<Rightarrow>
                rbind (ensure_mutation_path path) (\<lambda>_.
                pv_resolve_visible_path_for_authorization u v path rights
                  (AbsentPath (ap_normalized path)))
            | TargetInode inode_id \<Rightarrow>
                rbind (ensure_mutation_inode inode_id) (\<lambda>_.
                pv_resolve_visible_inode v inode_id)) (\<lambda>resolved.
     Inr \<lparr> rt_resolved = resolved, rt_target = target \<rparr>)"

definition resolve_authorized_target ::
  "unicode_tables \<Rightarrow> planning_view \<Rightarrow> target \<Rightarrow> access_rights \<Rightarrow> (core_error, resolved_target) result" where
  "resolve_authorized_target u v target rights =
     rbind (resolve_target u v target rights) (\<lambda>t.
     rbind (pv_authorize v (rp_inode_id (rt_resolved t)) rights (target_absence (rt_target t))) (\<lambda>_.
     rbind (rt_ensure_expected_inode u t) (\<lambda>_.
     Inr t)))"

definition latest_file_revision ::
  "planning_view \<Rightarrow> resolved_target \<Rightarrow> (core_error, revision_record) result" where
  "latest_file_revision v t =
     rbind (view_latest_revision_head (pv_metadata v) (rp_inode_id (rt_resolved t))) (\<lambda>row.
     ok_or (rt_not_found t) row)"

definition resolve_parent_directory ::
  "unicode_tables \<Rightarrow> planning_view \<Rightarrow> absolute_path \<Rightarrow> absence \<Rightarrow> (core_error, inode_id) result" where
  "resolve_parent_directory u v path absence =
     (case parent_path path of
        None \<Rightarrow> Inr ROOT_INODE_ID
      | Some parent \<Rightarrow>
          if is_root_path parent then Inr ROOT_INODE_ID
          else rbind (pv_resolve_visible_path_for_authorization u v parent (right_bit Create) absence)
                 (\<lambda>resolved.
               if rp_inode_kind resolved \<noteq> Directory then
                 rbind (pv_authorize v (rp_inode_id resolved) (right_bit Create) absence) (\<lambda>_.
                 Inl (ExpectedDirectory (ap_normalized parent) (rp_inode_kind resolved)))
               else Inr (rp_inode_id resolved)))"

text \<open>A path that resolves to an entry, to nothing, or fails otherwise.\<close>

definition pv_occupant ::
  "unicode_tables \<Rightarrow> planning_view \<Rightarrow> absolute_path
    \<Rightarrow> (core_error, resolved_visible_path option) result" where
  "pv_occupant u v path =
     (case resolve_visible_path u (pv_reads v) path of
        Inr existing \<Rightarrow> Inr (Some existing)
      | Inl e \<Rightarrow> if is_missing_visible_path e then Inr None else Inl e)"

fun resolve_destination ::
  "unicode_tables \<Rightarrow> planning_view \<Rightarrow> destination \<Rightarrow> (core_error, resolved_destination) result" where
  "resolve_destination u v (DestinationPath path) =
     (let absence = AbsentPath (ap_normalized path)
      in rbind (resolve_parent_directory u v path absence) (\<lambda>parent_inode_id.
         rbind (mutation_final_component path) (\<lambda>name.
         rbind (pv_occupant u v path) (\<lambda>occupant.
         Inr \<lparr> rd_parent_inode_id = parent_inode_id, rd_name = name, rd_path = ap_normalized path,
               rd_occupant = occupant, rd_absence = absence \<rparr>))))"
| "resolve_destination u v (DestinationName parent_inode_id display_name) =
     rbind (pv_resolve_visible_inode v parent_inode_id) (\<lambda>parent.
     rbind (if rp_inode_kind parent \<noteq> Directory then
              rbind (pv_authorize v parent_inode_id (right_bit Create) AbsentInode) (\<lambda>_.
              Inl (ExpectedDirectory (ap_normalized (rp_absolute_path parent)) (rp_inode_kind parent)))
            else Inr ()) (\<lambda>_.
     rbind (pv_resolve_visible_child u v parent_inode_id display_name) (\<lambda>occupant.
     Inr \<lparr> rd_parent_inode_id = parent_inode_id, rd_name = display_name,
           rd_path = ap_normalized (join_path (rp_absolute_path parent) display_name),
           rd_occupant = occupant, rd_absence = AbsentInode \<rparr>)))"

definition ensure_vacant_destination ::
  "planning_view \<Rightarrow> resolved_destination \<Rightarrow> (core_error, unit) result" where
  "ensure_vacant_destination v d =
     rbind (pv_authorize v (rd_parent_inode_id d) (right_bit Create) (rd_absence d)) (\<lambda>_.
     case rd_occupant d of
       Some existing \<Rightarrow> Inl (DestinationExists (rd_path d) (Some (rp_display_name existing)))
     | None \<Rightarrow> Inr ())"

definition ensure_vacant_path ::
  "unicode_tables \<Rightarrow> planning_view \<Rightarrow> absolute_path \<Rightarrow> (core_error, unit) result" where
  "ensure_vacant_path u v path =
     (case resolve_visible_path u (pv_reads v) path of
        Inr existing \<Rightarrow> Inl (DestinationExists (ap_normalized path) (Some (rp_display_name existing)))
      | Inl e \<Rightarrow> if is_missing_visible_path e then Inr () else Inl e)"

definition decode_expected_binding_version ::
  "token_codec \<Rightarrow> planning_view \<Rightarrow> binding_version \<Rightarrow> (core_error, delta_position) result" where
  "decode_expected_binding_version tk v expected =
     ok_or (InvalidCommitField ''expected_binding_version'' BadBindingVersion)
       (tk_decode tk expected (pv_namespace_id v))"

definition ensure_binding_version ::
  "token_codec \<Rightarrow> planning_view \<Rightarrow> resolved_visible_path \<Rightarrow> binding_version \<Rightarrow> (core_error, unit) result" where
  "ensure_binding_version tk v resolved expected_binding_version =
     rbind (decode_expected_binding_version tk v expected_binding_version) (\<lambda>expected.
     rbind (ok_or RootMutationForbidden (rp_binding_version resolved)) (\<lambda>current.
     err_if (current \<noteq> expected)
       (BindingVersionMismatch (rp_inode_id resolved) expected_binding_version
          (Some (tk_encode tk current (pv_namespace_id v))))))"

definition hidden_inode_binding_error ::
  "token_codec \<Rightarrow> planning_view \<Rightarrow> inode_id \<Rightarrow> binding_version \<Rightarrow> core_error" where
  "hidden_inode_binding_error tk v inode_id expected_binding_version =
     (case decode_expected_binding_version tk v expected_binding_version of
        Inr _ \<Rightarrow> BindingVersionMismatch inode_id expected_binding_version None
      | Inl e \<Rightarrow> e)"

definition source_binding ::
  "planning_view \<Rightarrow> resolved_visible_path \<Rightarrow> (core_error, resolved_binding) result" where
  "source_binding v resolved =
     rbind (ok_or RootMutationForbidden (rp_parent_inode_id resolved)) (\<lambda>parent_inode_id.
     rbind (current_parent_binding_for_child (pv_reads v) (rp_inode_id resolved)) (\<lambda>binding.
     rbind (ok_or (CorePathNotFound (ap_normalized (rp_absolute_path resolved))) binding) (\<lambda>binding.
     rbind (err_if (db_parent_inode_id binding \<noteq> parent_inode_id)
              (CorePathNotFound (ap_normalized (rp_absolute_path resolved)))) (\<lambda>_.
     rbind (ok_or (Panicked ''visible binding should be bound'') (db_display_name binding)) (\<lambda>display_name.
     Inr \<lparr> rb_parent_inode_id = parent_inode_id, rb_name_key = db_name_key binding,
           rb_display_name = display_name, rb_child_inode_id = db_child_inode_id binding,
           rb_bind_position = db_bind_position binding \<rparr>)))))"

datatype replace_destination = Vacant | Replaced resolved_visible_path | SameInode

definition classify_replace_destination ::
  "resolved_visible_path option \<Rightarrow> destination_behavior \<Rightarrow> inode_id \<Rightarrow> string
    \<Rightarrow> (core_error, replace_destination) result" where
  "classify_replace_destination occupant behavior source_inode_id destination_path =
     (case occupant of
        Some existing \<Rightarrow>
          if rp_inode_id existing = source_inode_id then Inr SameInode
          else if behavior = Replace then
            rbind (err_if (rp_inode_kind existing \<noteq> File)
                     (ExpectedFile destination_path (rp_inode_kind existing))) (\<lambda>_.
            Inr (Replaced existing))
          else Inl (DestinationExists destination_path (Some (rp_display_name existing)))
      | None \<Rightarrow> Inr Vacant)"

section \<open>Authorization\<close>

definition authorize_destination ::
  "planning_view \<Rightarrow> resolved_destination \<Rightarrow> destination_behavior \<Rightarrow> inode_id \<Rightarrow> replacement
    \<Rightarrow> (core_error, unit) result" where
  "authorize_destination v d behavior source_inode_id replacement =
     (if pv_authorizer v = Unrestricted then Inr ()
      else
        let parent = rd_parent_inode_id d;
            (inode_id, rights) =
              (case rd_occupant d of
                 Some existing \<Rightarrow>
                   if rp_inode_id existing \<noteq> source_inode_id \<and> behavior = Replace then
                     (case replacement of
                        RemovesEntry \<Rightarrow> (parent, rights_from_iter [Create, Remove])
                      | WritesFile \<Rightarrow> (rp_inode_id existing, right_bit Write))
                   else (parent, right_bit Create)
               | None \<Rightarrow> (parent, right_bit Create))
        in pv_authorize v inode_id rights (rd_absence d))"

text \<open>The rights the rows give one principal, without the administrators' right.\<close>

definition rows_rights :: "access_revision_record list \<Rightarrow> principal_id \<Rightarrow> access_rights" where
  "rows_rights rows who =
     rights_difference
       (fold (\<lambda>t s. rights_union s t) (map (\<lambda>row. grants_get (xr_grants row) who) rows) EMPTY_RIGHTS)
       ADMIN_RIGHTS"

definition is_root_admin :: "access_revision_record option \<Rightarrow> principal_id \<Rightarrow> bool" where
  "is_root_admin root who \<longleftrightarrow>
     (case root of
        Some row \<Rightarrow> rights_contains (grants_get (xr_grants row) who) Admin
      | None \<Rightarrow> False)"

text \<open>
  The rights a relocation gives to the named principals, from the rows above the old and
  the new place.  The set of names is walked in order in the source; the union does not
  depend on the order.
\<close>

definition relocation_gain ::
  "access_revision_record option \<Rightarrow> access_revision_record list \<Rightarrow> access_revision_record list
    \<Rightarrow> access_rights" where
  "relocation_gain root before_rows after_rows =
     (let named = remdups (concat (map (\<lambda>row. map fst (xr_grants row)) (before_rows @ after_rows)))
      in fold (\<lambda>who gain.
                 if is_root_admin root who then gain
                 else rights_union gain
                        (rights_difference (rows_rights after_rows who)
                           (rows_rights before_rows who)))
           named EMPTY_RIGHTS)"

definition authorize_relocation ::
  "planning_view \<Rightarrow> inode_id \<Rightarrow> inode_id \<Rightarrow> inode_id \<Rightarrow> (core_error, unit) result" where
  "authorize_relocation v moved source_parent destination_parent =
     (case pv_authorizer v of
        Unrestricted \<Rightarrow> Inr ()
      | Subject principals \<Rightarrow>
          if source_parent = destination_parent then Inr ()
          else
            rbind (vr_find_access_row (pv_reads v) moved) (\<lambda>own.
            if (case own of Some row \<Rightarrow> xr_boundary row | None \<Rightarrow> False) then Inr ()
            else
              rbind (access_chain (pv_reads v) source_parent) (\<lambda>before_chain.
              rbind (access_chain (pv_reads v) destination_parent) (\<lambda>after_chain.
              rbind (vr_find_access_row (pv_reads v) ROOT_INODE_ID) (\<lambda>root.
              let before_rows = option_list own @ before_chain;
                  after_rows = option_list own @ after_chain;
                  gain = relocation_gain root before_rows after_rows
              in if rights_is_empty gain then Inr ()
                 else
                   rbind (is_administrator (pv_reads v) principals) (\<lambda>administrator.
                   if administrator then Inr ()
                   else
                     rbind (effective_rights (pv_reads v) principals moved) (\<lambda>mover.
                     if rights_contains mover Manage \<or>
                        rights_contains mover Share \<and> rights_subset gain mover
                     then Inr () else Inl (Forbidden moved))))))))"

record access_state_ref =
  as_boundary :: bool
  as_grants :: access_grants

definition access_state_from_row :: "access_revision_record option \<Rightarrow> access_state_ref" where
  "access_state_from_row row =
     (case row of
        Some row \<Rightarrow> \<lparr> as_boundary = xr_boundary row, as_grants = xr_grants row \<rparr>
      | None \<Rightarrow> \<lparr> as_boundary = False, as_grants = [] \<rparr>)"

text \<open>The principals that hold the administrators' right.\<close>

definition administrators :: "access_grants \<Rightarrow> principal_id set" where
  "administrators grants =
     set (map fst (filter (\<lambda>(_, rights). rights_contains rights Admin) grants))"

fun changes_within ::
  "inode_id \<Rightarrow> access_rights \<Rightarrow> access_grants \<Rightarrow> access_grants \<Rightarrow> principal_id list
    \<Rightarrow> (core_error, unit) result" where
  "changes_within target effective current_grants next_grants [] = Inr ()"
| "changes_within target effective current_grants next_grants (who # named) =
     (let added = rights_difference (grants_get next_grants who) (grants_get current_grants who);
          removed = rights_difference (grants_get current_grants who) (grants_get next_grants who)
      in rbind (err_if (\<not> rights_subset (rights_union added removed) effective) (Forbidden target)) (\<lambda>_.
         changes_within target effective current_grants next_grants named))"

definition authorize_access_update ::
  "planning_view \<Rightarrow> inode_id \<Rightarrow> access_state_ref \<Rightarrow> access_state_ref \<Rightarrow> absence
    \<Rightarrow> (core_error, unit) result" where
  "authorize_access_update v target current next_state absence =
     (case pv_authorizer v of
        Unrestricted \<Rightarrow> Inr ()
      | Subject principals \<Rightarrow>
          rbind (effective_rights (pv_reads v) principals target) (\<lambda>effective.
          rbind (err_if (rights_is_empty effective) (absence_not_found absence target)) (\<lambda>_.
          if target = ROOT_INODE_ID \<and>
             administrators (as_grants current) \<noteq> administrators (as_grants next_state) then
            rbind (is_administrator (pv_reads v) principals) (\<lambda>administrator.
            err_if (\<not> administrator) (Forbidden target))
          else if rights_contains effective Manage then Inr ()
          else
            rbind (err_if (as_boundary current \<noteq> as_boundary next_state) (Forbidden target)) (\<lambda>_.
            rbind (changes_within target effective (as_grants current) (as_grants next_state)
                     (remdups (map fst (as_grants current @ as_grants next_state)))) (\<lambda>_.
            err_if (\<not> rights_contains effective Share) (Forbidden target))))))"

end
