(* ===== verification/Planner.thy ===== *)
theory Planner
  imports Planning
begin

text \<open>
  The planners of \<open>loonfs-core/src/path/write\<close>: \<open>planner.rs\<close> and one function per
  \<open>plan_*.rs\<close> function, each compiling a filesystem operation into commit operations
  against the planning view.  What the code draws or calls outside the repository is the
  environment: random bits of inode ids, fresh content ids, checksums, and the copying of
  a content's layout, which writes objects.  It also holds the test for visible children,
  a page read that validation asks for.
\<close>

section \<open>The operation session\<close>

text \<open>
  \<open>en_random seq n\<close> are the bits drawn for the \<open>n\<close>-th create of the commit at \<open>seq\<close>, and
  \<open>en_content_id seq i\<close> the content id its \<open>i\<close>-th operation generates; an operation
  generates at most one.
\<close>

record planner_env =
  en_unicode :: unicode_tables
  en_codec :: token_codec
  en_random :: "change_seq \<Rightarrow> u32 \<Rightarrow> u64"
  en_content_id :: "change_seq \<Rightarrow> nat \<Rightarrow> content_id"
  en_checksum_algorithm :: checksum_algorithm
  en_crc_combine :: "checksum \<Rightarrow> u8 list \<Rightarrow> checksum option"
  en_materialize :: "metadata_view \<Rightarrow> projected_content option \<Rightarrow> content_ref \<Rightarrow> (core_error, content_layout) result"
  en_has_visible_children :: "metadata_view \<Rightarrow> inode_id \<Rightarrow> (core_error, bool) result"

datatype created_inode_ids = Generated u32 | MergeAssigned "inode_id option"

datatype temporary_move = Away | Back inode_id

record appended_content =
  ac_content_ref :: content_ref
  ac_layout :: "content_layout option"
  ac_pieces :: "wal_inline_content list"

record compiled_operation =
  co_ops :: "commit_operation list"
  co_appended :: "appended_content option"

definition compiled_new :: "commit_operation list \<Rightarrow> compiled_operation" where
  "compiled_new ops = \<lparr> co_ops = ops, co_appended = None \<rparr>"

record operation_session =
  os_view :: planning_view
  os_content :: "content_ref \<Rightarrow> projected_content option"
  os_committed_seq :: change_seq
  os_operation_index :: nat
  os_created_inode_ids :: created_inode_ids
  os_temporary_move :: "temporary_move option"

text \<open>
  \<open>next_inode_id\<close>, with the ids left for the creates that follow.  The create number of
  the source is not zero; running out of numbers is a panic.
\<close>

fun next_inode_id ::
  "planner_env \<Rightarrow> change_seq \<Rightarrow> created_inode_ids \<Rightarrow> (core_error, inode_id \<times> created_inode_ids) result" where
  "next_inode_id env committed_seq (Generated next_create_no) =
     rbind (ok_or (Panicked ''a commit should create fewer inodes than its 32-bit delta positions allow'')
              (checked_add next_create_no 1)) (\<lambda>following.
     Inr (generate_inode_id committed_seq next_create_no (en_random env committed_seq next_create_no),
          Generated following))"
| "next_inode_id env committed_seq (MergeAssigned assigned) =
     rbind (ok_or (InvalidCommitRequest MergeCreatesUnassigned) assigned) (\<lambda>inode_id.
     Inr (inode_id, MergeAssigned None))"

fun prepared_reference :: "file_content \<Rightarrow> (core_error, content_ref) result" where
  "prepared_reference (ContentRef reference) = Inr reference"
| "prepared_reference (InlineBytes _) = Inl (InvalidCommitRequest ContentNotPrepared)"

section \<open>Creates and puts\<close>

fun create_operation :: "inode_id \<Rightarrow> inode_id \<Rightarrow> display_name \<Rightarrow> new_child \<Rightarrow> commit_operation" where
  "create_operation child_inode_id parent_inode_id display_name NewDirectory =
     CreateDirectory child_inode_id parent_inode_id display_name"
| "create_operation child_inode_id parent_inode_id display_name (NewFile content_ref) =
     CreateFile child_inode_id parent_inode_id display_name content_ref"

definition plan_create ::
  "planner_env \<Rightarrow> operation_session \<Rightarrow> destination \<Rightarrow> new_child
    \<Rightarrow> (core_error, compiled_operation \<times> created_inode_ids) result" where
  "plan_create env os destination child =
     rbind (destination_ensure_mutation destination) (\<lambda>_.
     rbind (resolve_destination (en_unicode env) (os_view os) destination) (\<lambda>d.
     rbind (ensure_vacant_destination (os_view os) d) (\<lambda>_.
     rbind (next_inode_id env (os_committed_seq os) (os_created_inode_ids os)) (\<lambda>(child_inode_id, created).
     Inr (compiled_new [create_operation child_inode_id (rd_parent_inode_id d) (rd_name d) child], created)))))"

record resolved_parents =
  pr_parent_inode_id :: inode_id
  pr_deepest_existing :: inode_id

text \<open>
  The loop of \<open>ensure_parent_directories\<close> over the components above the last one: the
  directory reached and its path, whether missing ancestors are being created, the deepest
  existing directory, the operations pushed so far and the ids left.
\<close>

fun parents_loop ::
  "planner_env \<Rightarrow> operation_session \<Rightarrow> absolute_path \<Rightarrow> display_name list \<Rightarrow> inode_id \<Rightarrow> absolute_path
    \<Rightarrow> bool \<Rightarrow> inode_id \<Rightarrow> commit_operation list \<Rightarrow> created_inode_ids
    \<Rightarrow> (core_error, resolved_parents \<times> commit_operation list \<times> created_inode_ids) result" where
  "parents_loop env os path [] current_inode reached creating deepest ops created =
     Inr (\<lparr> pr_parent_inode_id = current_inode,
            pr_deepest_existing = (if creating then deepest else current_inode) \<rparr>, ops, created)"
| "parents_loop env os path (display_name # components) current_inode reached creating deepest ops created =
     rbind (if creating then Inr None
            else visible_child (pv_reads (os_view os)) current_inode
                   (name_key_for_display_name (en_unicode env) display_name)) (\<lambda>child.
     case child of
       Some child \<Rightarrow>
         rbind (ok_or (Panicked ''visible binding should be bound'') (db_display_name child)) (\<lambda>stored.
         let reached = join_path reached stored
         in if db_child_kind child \<noteq> Directory then
              rbind (pv_authorize (os_view os) (db_child_inode_id child) (right_bit Create)
                       (AbsentPath (ap_normalized path))) (\<lambda>_.
              Inl (core_from_visible_path (PathComponentNotDirectory (ap_normalized reached)
                     (db_child_inode_id child) (db_child_kind child))))
            else parents_loop env os path components (db_child_inode_id child) reached creating
                   deepest ops created)
     | None \<Rightarrow>
         (let deepest = (if creating then deepest else current_inode)
          in rbind (next_inode_id env (os_committed_seq os) created) (\<lambda>(child_inode_id, created).
             parents_loop env os path components child_inode_id reached True deepest
               (ops @ [CreateDirectory child_inode_id current_inode display_name]) created)))"

definition ensure_parent_directories ::
  "planner_env \<Rightarrow> operation_session \<Rightarrow> absolute_path
    \<Rightarrow> (core_error, resolved_parents \<times> commit_operation list \<times> created_inode_ids) result" where
  "ensure_parent_directories env os path =
     (if length (ap_components path) \<le> 1 then
        Inr (\<lparr> pr_parent_inode_id = ROOT_INODE_ID, pr_deepest_existing = ROOT_INODE_ID \<rparr>, [],
             os_created_inode_ids os)
      else parents_loop env os path (butlast (ap_components path)) ROOT_INODE_ID root_path False
             ROOT_INODE_ID [] (os_created_inode_ids os))"

definition plan_create_directory ::
  "planner_env \<Rightarrow> operation_session \<Rightarrow> absolute_path \<Rightarrow> bool
    \<Rightarrow> (core_error, compiled_operation \<times> created_inode_ids) result" where
  "plan_create_directory env os path parents =
     (if \<not> parents then plan_create env os (DestinationPath path) NewDirectory
      else
        rbind (ensure_mutation_path path) (\<lambda>_.
        rbind (ensure_parent_directories env os path) (\<lambda>(parents, ops, created).
        rbind (pv_authorize (os_view os) (pr_deepest_existing parents) (right_bit Create)
                 (AbsentPath (ap_normalized path))) (\<lambda>_.
        rbind (ensure_vacant_path (en_unicode env) (os_view os) path) (\<lambda>_.
        rbind (mutation_final_component path) (\<lambda>display_name.
        rbind (next_inode_id env (os_committed_seq os) created) (\<lambda>(child_inode_id, created).
        Inr (compiled_new (ops @ [CreateDirectory child_inode_id (pr_parent_inode_id parents) display_name]),
             created))))))))"

definition plan_put_file_revision_by_inode ::
  "planner_env \<Rightarrow> operation_session \<Rightarrow> inode_id \<Rightarrow> content_ref \<Rightarrow> revision_no
    \<Rightarrow> (core_error, compiled_operation) result" where
  "plan_put_file_revision_by_inode env os inode_id content_ref expected_revision_no =
     rbind (resolve_authorized_target (en_unicode env) (os_view os) (TargetInode inode_id)
              (right_bit Write)) (\<lambda>t.
     rbind (rt_ensure_file t) (\<lambda>_.
     Inr (compiled_new [ReplaceFile inode_id expected_revision_no content_ref None])))"

definition plan_put_file_content_ref ::
  "planner_env \<Rightarrow> operation_session \<Rightarrow> absolute_path \<Rightarrow> content_ref \<Rightarrow> destination_behavior
    \<Rightarrow> expected_file_state option \<Rightarrow> (core_error, compiled_operation \<times> created_inode_ids) result" where
  "plan_put_file_content_ref env os path content_ref behavior expected =
     rbind (ensure_mutation_path path) (\<lambda>_.
     let u = en_unicode env; v = os_view os; absence = AbsentPath (ap_normalized path);
         found = pv_resolve_visible_path_for_authorization u v path (right_bit Create) absence
     in rbind (mutation_final_component path) (\<lambda>final_name.
        case found of
          Inr existing \<Rightarrow>
            if behavior = NoReplace then
              rbind (pv_authorize v (the_default ROOT_INODE_ID (rp_parent_inode_id existing))
                       (right_bit Create) absence) (\<lambda>_.
              Inl (DestinationExists (ap_normalized path) (Some (rp_display_name existing))))
            else
              rbind (pv_authorize v (rp_inode_id existing) (right_bit Write) absence) (\<lambda>_.
              rbind (ensure_expected_inode u existing (map_option ef_inode_id expected) final_name) (\<lambda>_.
              rbind (err_if (rp_inode_kind existing \<noteq> File)
                       (ExpectedFile (ap_normalized path) (rp_inode_kind existing))) (\<lambda>_.
              rbind (view_latest_revision_head (pv_metadata v) (rp_inode_id existing)) (\<lambda>revision.
              rbind (ok_or (CorePathNotFound (ap_normalized path)) revision) (\<lambda>revision.
              let base_revision_no =
                    the_default (rv_revision_no revision) (Option.bind expected ef_revision_no)
              in Inr (compiled_new [ReplaceFile (rp_inode_id existing) base_revision_no content_ref None],
                      os_created_inode_ids os))))))
        | Inl e \<Rightarrow>
            if is_missing_visible_path e then
              rbind (ensure_parent_directories env os path) (\<lambda>(parents, ops, created).
              rbind (pv_authorize v (pr_deepest_existing parents) (right_bit Create) absence) (\<lambda>_.
              rbind (err_if (expected \<noteq> None) (CorePathNotFound (ap_normalized path))) (\<lambda>_.
              rbind (next_inode_id env (os_committed_seq os) created) (\<lambda>(child_inode_id, created).
              Inr (compiled_new (ops @ [CreateFile child_inode_id (pr_parent_inode_id parents)
                                          final_name content_ref]), created)))))
            else Inl e))"

section \<open>Undeletes\<close>

definition resolve_undelete_destination ::
  "planner_env \<Rightarrow> operation_session \<Rightarrow> inode_id \<Rightarrow> inode_id \<Rightarrow> destination
    \<Rightarrow> (core_error, inode_id \<times> display_name) result" where
  "resolve_undelete_destination env os inode_id saved_parent destination =
     rbind (destination_ensure_mutation destination) (\<lambda>_.
     rbind (resolve_destination (en_unicode env) (os_view os) destination) (\<lambda>d.
     rbind (ensure_vacant_destination (os_view os) d) (\<lambda>_.
     rbind (authorize_relocation (os_view os) inode_id saved_parent (rd_parent_inode_id d)) (\<lambda>_.
     Inr (rd_parent_inode_id d, rd_name d)))))"

definition plan_undelete ::
  "planner_env \<Rightarrow> operation_session \<Rightarrow> inode_id \<Rightarrow> change_seq \<Rightarrow> undelete_destination
    \<Rightarrow> (core_error, compiled_operation) result" where
  "plan_undelete env os inode_id deletion_seq destination =
     (let v = os_view os
      in rbind (view_recoverable_deletion (pv_metadata v) inode_id) (\<lambda>deletion.
         case map_option tb_action deletion of
           Some (Set _ deleted_binding) \<Rightarrow>
             (let saved_parent = dl_parent_inode_id deleted_binding
              in rbind (pv_authorize v saved_parent (right_bit Remove) AbsentInode) (\<lambda>_.
                 rbind (case destination of
                          UndeletePath path \<Rightarrow>
                            resolve_undelete_destination env os inode_id saved_parent (DestinationPath path)
                        | UndeleteName parent_inode_id display_name \<Rightarrow>
                            resolve_undelete_destination env os inode_id saved_parent
                              (DestinationName parent_inode_id display_name)
                        | Recorded \<Rightarrow>
                            rbind (pv_authorize v saved_parent (right_bit Create) AbsentInode) (\<lambda>_.
                            Inr (saved_parent, dl_display_name deleted_binding)))
                   (\<lambda>(parent_inode_id, display_name).
                 Inr (compiled_new [Undelete inode_id deletion_seq parent_inode_id display_name]))))
         | _ \<Rightarrow>
             rbind (current_parent_binding_for_child (pv_reads v) inode_id) (\<lambda>binding.
             rbind (pv_authorize v (case binding of Some b \<Rightarrow> db_parent_inode_id b | None \<Rightarrow> inode_id)
                      (right_bit Remove) AbsentInode) (\<lambda>_.
             Inl (CommitValidation (UndeleteTargetNotDeleted inode_id))))))"

section \<open>Deletes and restores\<close>

definition plan_delete ::
  "planner_env \<Rightarrow> operation_session \<Rightarrow> target \<Rightarrow> binding_version option \<Rightarrow> delete_directory_behavior
    \<Rightarrow> (core_error, compiled_operation) result" where
  "plan_delete env os target expected_binding_version behavior =
     (let v = os_view os; remove = right_bit Remove
      in rbind (resolve_target (en_unicode env) v target remove) (\<lambda>t.
         rbind (rt_parent_inode_id t) (\<lambda>parent_inode_id.
         rbind (pv_authorize v parent_inode_id remove (target_absence (rt_target t))) (\<lambda>_.
         rbind (rt_ensure_expected_inode (en_unicode env) t) (\<lambda>_.
         rbind (case expected_binding_version of
                  Some expected \<Rightarrow> ensure_binding_version (en_codec env) v (rt_resolved t) expected
                | None \<Rightarrow> Inr ()) (\<lambda>_.
         let resolved = rt_resolved t
         in rbind (source_binding v resolved) (\<lambda>source.
            Inr (compiled_new
                   [case rp_inode_kind resolved of
                      File \<Rightarrow> DeleteFile (rp_inode_id resolved) source
                    | Directory \<Rightarrow>
                        DeleteSubtree (rp_inode_id resolved) source (behavior \<noteq> Recursive)]))))))))"

definition plan_restore_revision ::
  "planner_env \<Rightarrow> operation_session \<Rightarrow> target \<Rightarrow> revision_no \<Rightarrow> (core_error, compiled_operation) result" where
  "plan_restore_revision env os target source_revision_no =
     rbind (resolve_authorized_target (en_unicode env) (os_view os) target
              (rights_from_iter [Write, History])) (\<lambda>t.
     rbind (rt_ensure_file t) (\<lambda>_.
     rbind (latest_file_revision (os_view os) t) (\<lambda>revision.
     Inr (compiled_new [RestoreRevision (rp_inode_id (rt_resolved t)) source_revision_no
                          (rv_revision_no revision)]))))"

section \<open>Moves and copies\<close>

definition ensure_expected_destination_revision ::
  "planning_view \<Rightarrow> resolved_visible_path \<Rightarrow> expected_file_state option \<Rightarrow> (core_error, unit) result" where
  "ensure_expected_destination_revision v existing expected_destination =
     (case Option.bind expected_destination ef_revision_no of
        None \<Rightarrow> Inr ()
      | Some expected \<Rightarrow>
          rbind (view_latest_revision_head (pv_metadata v) (rp_inode_id existing)) (\<lambda>revision.
          let actual = map_option rv_revision_no revision
          in err_if (actual \<noteq> Some expected)
               (CommitValidation (BaseRevisionMismatch (rp_inode_id existing) expected actual))))"

text \<open>The operations a rename adds for what occupies its destination.\<close>

definition replaced_operations ::
  "planner_env \<Rightarrow> planning_view \<Rightarrow> resolved_visible_path \<Rightarrow> resolved_destination \<Rightarrow> replace_destination
    \<Rightarrow> expected_file_state option \<Rightarrow> (core_error, commit_operation list) result" where
  "replaced_operations env v source d replaced expected_destination =
     (case replaced of
        Replaced existing \<Rightarrow>
          rbind (ensure_expected_inode (en_unicode env) existing
                   (map_option ef_inode_id expected_destination) (rd_name d)) (\<lambda>_.
          rbind (ensure_expected_destination_revision v existing expected_destination) (\<lambda>_.
          rbind (source_binding v existing) (\<lambda>binding.
          Inr [DeleteFile (rp_inode_id existing) binding])))
      | Vacant \<Rightarrow>
          rbind (err_if (expected_destination \<noteq> None) (CorePathNotFound (rd_path d))) (\<lambda>_. Inr [])
      | SameInode \<Rightarrow>
          rbind (ensure_expected_inode (en_unicode env) source
                   (map_option ef_inode_id expected_destination) (rd_name d)) (\<lambda>_.
          rbind (ensure_expected_destination_revision v source expected_destination) (\<lambda>_.
          rbind (err_if (rd_name d = rp_display_name source)
                   (DestinationExists (rd_path d) (Some (rp_display_name source)))) (\<lambda>_.
          Inr []))))"

definition plan_rename ::
  "planner_env \<Rightarrow> operation_session \<Rightarrow> resolved_visible_path \<Rightarrow> resolved_destination
    \<Rightarrow> destination_precondition \<Rightarrow> expected_file_state option \<Rightarrow> (core_error, compiled_operation) result" where
  "plan_rename env os source d precondition expected_destination =
     (let v = os_view os
      in rbind (classify_replace_destination (rd_occupant d) (dp_behavior precondition)
                  (rp_inode_id source) (rd_path d)) (\<lambda>replaced.
         rbind (source_binding v source) (\<lambda>current_source_binding.
         rbind (case (case os_temporary_move os of
                        None \<Rightarrow> Some (rb_parent_inode_id current_source_binding)
                      | Some Away \<Rightarrow> None
                      | Some (Back from_parent) \<Rightarrow> Some from_parent) of
                  Some from_parent \<Rightarrow>
                    authorize_relocation v (rp_inode_id source) from_parent (rd_parent_inode_id d)
                | None \<Rightarrow> Inr ()) (\<lambda>_.
         rbind (replaced_operations env v source d replaced expected_destination) (\<lambda>ops.
         Inr (compiled_new (ops @ [Rename (rp_inode_id source) current_source_binding
                                     (rd_parent_inode_id d) (rd_name d)])))))))"

definition plan_move ::
  "planner_env \<Rightarrow> operation_session \<Rightarrow> target \<Rightarrow> binding_version option \<Rightarrow> destination
    \<Rightarrow> destination_precondition \<Rightarrow> (core_error, compiled_operation) result" where
  "plan_move env os source expected_binding_version destination precondition =
     (let v = os_view os; remove = right_bit Remove
      in rbind (map_err core_from_precondition
                  (validate_expected_file_state (dp_behavior precondition)
                     (dp_expected_inode_id precondition) (dp_expected_revision_no precondition)
                     DestinationFields)) (\<lambda>expected_destination.
         rbind (destination_ensure_mutation destination) (\<lambda>_.
         rbind (resolve_target (en_unicode env) v source remove) (\<lambda>source.
         rbind (rt_parent_inode_id source) (\<lambda>parent_inode_id.
         rbind (case os_temporary_move os of
                  Some (Back _) \<Rightarrow> Inr ()
                | _ \<Rightarrow> pv_authorize v parent_inode_id remove (target_absence (rt_target source))) (\<lambda>_.
         rbind (resolve_destination (en_unicode env) v destination) (\<lambda>d.
         rbind (if os_temporary_move os \<noteq> Some Away
                then authorize_destination v d (dp_behavior precondition)
                       (rp_inode_id (rt_resolved source)) RemovesEntry
                else Inr ()) (\<lambda>_.
         rbind (case expected_binding_version of
                  Some expected \<Rightarrow> ensure_binding_version (en_codec env) v (rt_resolved source) expected
                | None \<Rightarrow> Inr ()) (\<lambda>_.
         plan_rename env os (rt_resolved source) d precondition expected_destination)))))))))"

definition plan_copy_into ::
  "planner_env \<Rightarrow> operation_session \<Rightarrow> resolved_visible_path \<Rightarrow> resolved_destination
    \<Rightarrow> destination_precondition \<Rightarrow> expected_file_state option
    \<Rightarrow> (core_error, compiled_operation \<times> created_inode_ids) result" where
  "plan_copy_into env os source d precondition expected_destination =
     (let v = os_view os
      in rbind (classify_replace_destination (rd_occupant d) (dp_behavior precondition)
                  (rp_inode_id source) (rd_path d)) (\<lambda>replaced.
         rbind (view_latest_revision_head (pv_metadata v) (rp_inode_id source)) (\<lambda>revision.
         rbind (ok_or (CorePathNotFound (ap_normalized (rp_absolute_path source))) revision) (\<lambda>revision.
         case replaced of
           SameInode \<Rightarrow> Inl (DestinationExists (rd_path d) (Some (rp_display_name source)))
         | Replaced existing \<Rightarrow>
             rbind (ensure_expected_inode (en_unicode env) existing
                      (map_option ef_inode_id expected_destination) (rd_name d)) (\<lambda>_.
             rbind (view_latest_revision_head (pv_metadata v) (rp_inode_id existing)) (\<lambda>existing_revision.
             rbind (ok_or (CorePathNotFound (rd_path d)) existing_revision) (\<lambda>existing_revision.
             let base_revision_no = the_default (rv_revision_no existing_revision)
                   (Option.bind expected_destination ef_revision_no)
             in Inr (compiled_new [ReplaceFile (rp_inode_id existing) base_revision_no
                                     (rv_content_ref revision) None], os_created_inode_ids os))))
         | Vacant \<Rightarrow>
             rbind (err_if (expected_destination \<noteq> None) (CorePathNotFound (rd_path d))) (\<lambda>_.
             rbind (next_inode_id env (os_committed_seq os) (os_created_inode_ids os))
               (\<lambda>(child_inode_id, created).
             rbind (view_attributes (pv_metadata v) (rp_inode_id source)) (\<lambda>projection.
             let source_attributes = pj_attributes projection;
                 create = CreateFile child_inode_id (rd_parent_inode_id d) (rd_name d)
                            (rv_content_ref revision)
             in Inr (compiled_new (create #
                       (if source_attributes \<noteq> []
                        then [UpdateAttributes child_inode_id 0 source_attributes] else [])),
                     created))))))))"

definition plan_copy ::
  "planner_env \<Rightarrow> operation_session \<Rightarrow> target \<Rightarrow> destination \<Rightarrow> destination_precondition
    \<Rightarrow> (core_error, compiled_operation \<times> created_inode_ids) result" where
  "plan_copy env os source destination precondition =
     (let v = os_view os
      in rbind (map_err core_from_precondition
                  (validate_expected_file_state (dp_behavior precondition)
                     (dp_expected_inode_id precondition) (dp_expected_revision_no precondition)
                     DestinationFields)) (\<lambda>expected_destination.
         rbind (destination_ensure_mutation destination) (\<lambda>_.
         rbind (resolve_authorized_target (en_unicode env) v source (right_bit Read)) (\<lambda>source.
         rbind (rt_ensure_file source) (\<lambda>_.
         rbind (resolve_destination (en_unicode env) v destination) (\<lambda>d.
         rbind (authorize_destination v d (dp_behavior precondition)
                  (rp_inode_id (rt_resolved source)) WritesFile) (\<lambda>_.
         plan_copy_into env os (rt_resolved source) d precondition expected_destination)))))))"

section \<open>Attributes and access\<close>

definition plan_update_attributes ::
  "planner_env \<Rightarrow> operation_session \<Rightarrow> target \<Rightarrow> attributes \<Rightarrow> string list
    \<Rightarrow> attributes_revision_no option \<Rightarrow> (core_error, compiled_operation) result" where
  "plan_update_attributes env os target set_entries removed expected =
     rbind (validate_request_shape set_entries removed) (\<lambda>_.
     rbind (resolve_authorized_target (en_unicode env) (os_view os) target (right_bit Write)) (\<lambda>t.
     let inode_id = rp_inode_id (rt_resolved t)
     in rbind (view_attributes (pv_metadata (os_view os)) inode_id) (\<lambda>current.
        let base = the_default (pj_attributes_revision_no current) expected
        in rbind (updated_attributes (pj_attributes current) set_entries removed) (\<lambda>attributes.
           Inr (compiled_new [UpdateAttributes inode_id base attributes])))))"

definition validate_access_target ::
  "resolved_visible_path \<Rightarrow> bool \<Rightarrow> access_grants \<Rightarrow> (core_error, unit) result" where
  "validate_access_target target boundary grants =
     rbind (err_if (rp_inode_id target \<noteq> ROOT_INODE_ID
                      \<and> list_ex (\<lambda>(_, rights). rights_contains rights Admin) grants)
              (InvalidCommitRequest AdminOutsideRoot)) (\<lambda>_.
     err_if (boundary \<and> rp_inode_kind target = File) (InvalidCommitRequest BoundaryOnFile))"

definition update_access ::
  "inode_id \<Rightarrow> access_revision_record option \<Rightarrow> bool \<Rightarrow> access_grants \<Rightarrow> access_revision_no option
    \<Rightarrow> compiled_operation" where
  "update_access inode_id current boundary grants expected =
     (let current_revision_no = (case current of Some row \<Rightarrow> xr_access_revision_no row | None \<Rightarrow> 0)
      in compiled_new [UpdateAccess inode_id (the_default current_revision_no expected) boundary grants])"

text \<open>
  A file in the middle of the path is authorized like a target; the error that names it is
  returned after the authorization, in place of the resolved target.
\<close>

definition access_target ::
  "planner_env \<Rightarrow> planning_view \<Rightarrow> target
    \<Rightarrow> (core_error, inode_id \<times> (core_error, resolved_visible_path) result) result" where
  "access_target env v target =
     (case target of
        TargetPath path _ \<Rightarrow>
          (case resolve_visible_path (en_unicode env) (pv_reads v) path of
             Inr resolved \<Rightarrow> Inr (rp_inode_id resolved, Inr resolved)
           | Inl (VisiblePath (PathComponentNotDirectory spelling inode_id kind)) \<Rightarrow>
               Inr (inode_id, Inl (VisiblePath (PathComponentNotDirectory spelling inode_id kind)))
           | Inl e \<Rightarrow> Inl e)
      | TargetInode inode_id \<Rightarrow>
          rbind (pv_resolve_visible_inode v inode_id) (\<lambda>resolved.
          Inr (inode_id, Inr resolved)))"

definition plan_update_access ::
  "planner_env \<Rightarrow> operation_session \<Rightarrow> target \<Rightarrow> bool \<Rightarrow> access_grants \<Rightarrow> access_revision_no option
    \<Rightarrow> (core_error, compiled_operation) result" where
  "plan_update_access env os target boundary grants expected =
     (let v = os_view os
      in rbind (err_if (is_unrestricted (pv_access v)) (NamespaceUnrestricted (pv_namespace_id v))) (\<lambda>_.
         rbind (access_target env v target) (\<lambda>(authorized_inode_id, found).
         rbind (view_latest_access_revision (pv_metadata v) authorized_inode_id) (\<lambda>current.
         rbind (authorize_access_update v authorized_inode_id (access_state_from_row current)
                  \<lparr> as_boundary = boundary, as_grants = grants \<rparr> (target_absence target)) (\<lambda>_.
         rbind found (\<lambda>resolved.
         rbind (validate_access_target resolved boundary grants) (\<lambda>_.
         rbind (rt_ensure_expected_inode (en_unicode env)
                  \<lparr> rt_resolved = resolved, rt_target = target \<rparr>) (\<lambda>_.
         Inr (update_access (rp_inode_id resolved) current boundary grants expected)))))))))"

section \<open>Appends\<close>

definition append_to ::
  "planner_env \<Rightarrow> operation_session \<Rightarrow> revision_record \<Rightarrow> u8 list \<Rightarrow> (core_error, appended_content) result" where
  "append_to env os base_row bytes =
     (let v = os_view os; namespace_id = pv_namespace_id v; base = rv_content_ref base_row;
          base_size = ct_size_bytes base
      in rbind (view_content_head (pv_metadata v) (ct_content_id base)) (\<lambda>head.
         let head_size = (case head of Some head \<Rightarrow> ch_size_bytes head | None \<Rightarrow> base_size);
             created_here = (case Option.bind head ch_creator_namespace_id of
                               None \<Rightarrow> True | Some creator \<Rightarrow> creator = namespace_id);
             extends_base = (created_here \<and> head_size = base_size \<and> base_size > 0)
         in rbind (ok_or (NamespaceCorrupt (ContentTooLargeToAppend (ct_content_id base) base_size (length bytes)))
                     (checked_add base_size (word_of_nat (length bytes)))) (\<lambda>size_bytes.
            rbind (err_if (ck_algorithm (ct_checksum base) \<noteq> en_checksum_algorithm env)
                     (NamespaceCorrupt (ContentChecksumAlgorithm (ct_content_id base)
                        (ck_algorithm (ct_checksum base)) (en_checksum_algorithm env)))) (\<lambda>_.
            rbind (ok_or (NamespaceCorrupt (ContentChecksumInvalid (ct_content_id base)))
                     (en_crc_combine env (ct_checksum base) bytes)) (\<lambda>checksum.
            let content_id = (if extends_base then ct_content_id base
                              else en_content_id env (os_committed_seq os) (os_operation_index os))
            in rbind (if extends_base \<or> base_size = 0 then Inr None
                      else rbind (en_materialize env (pv_metadata v) (os_content os base) base) (\<lambda>layout.
                           Inr (Some (layout \<lparr> ly_creator_namespace_id := namespace_id \<rparr>)))) (\<lambda>layout.
               Inr \<lparr> ac_content_ref = \<lparr> ct_kind = BlobV1, ct_content_id = content_id,
                                        ct_size_bytes = size_bytes, ct_checksum = checksum \<rparr>,
                     ac_layout = layout,
                     ac_pieces = [\<lparr> ic_content_id = content_id, ic_offset = base_size,
                                    ic_bytes = bytes \<rparr>] \<rparr>))))))"

definition plan_append ::
  "planner_env \<Rightarrow> operation_session \<Rightarrow> target \<Rightarrow> revision_no option \<Rightarrow> u8 list
    \<Rightarrow> (core_error, compiled_operation) result" where
  "plan_append env os target expected_revision_no bytes =
     rbind (resolve_authorized_target (en_unicode env) (os_view os) target (right_bit Write)) (\<lambda>t.
     rbind (rt_ensure_file t) (\<lambda>_.
     rbind (latest_file_revision (os_view os) t) (\<lambda>revision.
     rbind (case option_filter (\<lambda>expected. expected \<noteq> rv_revision_no revision) expected_revision_no of
              Some expected \<Rightarrow>
                Inl (CommitValidation (BaseRevisionMismatch (rv_inode_id revision) expected
                       (Some (rv_revision_no revision))))
            | None \<Rightarrow> Inr ()) (\<lambda>_.
     rbind (append_to env os revision bytes) (\<lambda>appended.
     Inr \<lparr> co_ops = [ReplaceFile (rv_inode_id revision) (rv_revision_no revision)
                       (ac_content_ref appended) (Some (ct_size_bytes (rv_content_ref revision)))],
           co_appended = Some appended \<rparr>)))))"

section \<open>One operation\<close>

text \<open>A planner that creates no inode leaves the ids as they are.\<close>

definition creates_none ::
  "operation_session \<Rightarrow> (core_error, compiled_operation) result
    \<Rightarrow> (core_error, compiled_operation \<times> created_inode_ids) result" where
  "creates_none os planned = rbind planned (\<lambda>compiled. Inr (compiled, os_created_inode_ids os))"

fun plan ::
  "planner_env \<Rightarrow> operation_session \<Rightarrow> filesystem_operation
    \<Rightarrow> (core_error, compiled_operation \<times> created_inode_ids) result" where
  "plan env os (FsCreateDirectory path parents) = plan_create_directory env os path parents"
| "plan env os (FsCreateDirectoryByInode parent_inode_id display_name) =
     plan_create env os (DestinationName parent_inode_id display_name) NewDirectory"
| "plan env os (FsCreateFileByInode parent_inode_id display_name content) =
     rbind (prepared_reference content) (\<lambda>reference.
     plan_create env os (DestinationName parent_inode_id display_name) (NewFile reference))"
| "plan env os (FsPutFile path content behavior expected_inode_id expected_revision_no) =
     rbind (map_err core_from_precondition
              (validate_expected_file_state behavior expected_inode_id expected_revision_no PutFields))
       (\<lambda>expected.
     rbind (prepared_reference content) (\<lambda>reference.
     plan_put_file_content_ref env os path reference behavior expected))"
| "plan env os (FsPutFileRevisionByInode inode_id content expected_revision_no) =
     rbind (prepared_reference content) (\<lambda>reference.
     creates_none os (plan_put_file_revision_by_inode env os inode_id reference expected_revision_no))"
| "plan env os (FsAppendFile path bytes expected_inode_id expected_revision_no) =
     rbind (map_err core_from_precondition
              (validate_expected_file_state Replace expected_inode_id expected_revision_no PutFields))
       (\<lambda>expected.
     creates_none os (plan_append env os (TargetPath path (map_option ef_inode_id expected))
                        (Option.bind expected ef_revision_no) bytes))"
| "plan env os (FsAppendFileByInode inode_id bytes expected_revision_no) =
     creates_none os (plan_append env os (TargetInode inode_id) expected_revision_no bytes)"
| "plan env os (FsDeletePath path behavior expected_inode_id) =
     creates_none os (plan_delete env os (TargetPath path expected_inode_id) None behavior)"
| "plan env os (FsDeleteByInode inode_id expected_binding_version behavior) =
     creates_none os (plan_delete env os (TargetInode inode_id) (Some expected_binding_version) behavior)"
| "plan env os (FsMovePath source_path destination_path precondition) =
     creates_none os (plan_move env os (TargetPath source_path None) None
                        (DestinationPath destination_path) precondition)"
| "plan env os (FsMoveByInode inode_id expected_binding_version parent_inode_id display_name precondition) =
     creates_none os (plan_move env os (TargetInode inode_id) (Some expected_binding_version)
                        (DestinationName parent_inode_id display_name) precondition)"
| "plan env os (FsCopyPath source_path destination_path precondition) =
     plan_copy env os (TargetPath source_path None) (DestinationPath destination_path) precondition"
| "plan env os (FsCopyByInode inode_id parent_inode_id display_name precondition) =
     plan_copy env os (TargetInode inode_id) (DestinationName parent_inode_id display_name) precondition"
| "plan env os (FsRestoreRevision path source_revision_no) =
     creates_none os (plan_restore_revision env os (TargetPath path None) source_revision_no)"
| "plan env os (FsRestoreRevisionByInode inode_id source_revision_no) =
     creates_none os (plan_restore_revision env os (TargetInode inode_id) source_revision_no)"
| "plan env os (FsUndelete inode_id deletion_seq destination) =
     creates_none os (plan_undelete env os inode_id deletion_seq destination)"
| "plan env os (FsUpdateAttributes path set_entries removed expected_inode_id expected) =
     rbind (map_err core_from_precondition (validate_attributes_precondition expected_inode_id expected)) (\<lambda>_.
     creates_none os (plan_update_attributes env os (TargetPath path expected_inode_id)
                        set_entries removed expected))"
| "plan env os (FsUpdateAttributesByInode inode_id set_entries removed expected) =
     creates_none os (plan_update_attributes env os (TargetInode inode_id) set_entries removed expected)"
| "plan env os (FsUpdateAccess path boundary grants expected_inode_id expected) =
     rbind (map_err core_from_precondition (validate_access_precondition expected_inode_id expected)) (\<lambda>_.
     creates_none os (plan_update_access env os (TargetPath path expected_inode_id) boundary grants expected))"
| "plan env os (FsUpdateAccessByInode inode_id boundary grants expected) =
     creates_none os (plan_update_access env os (TargetInode inode_id) boundary grants expected)"

end
