(* ===== verification/Preconditions.thy ===== *)
theory Preconditions
  imports Planning
begin

text \<open>
  The admission conditions of a commit request
  (\<open>loonfs-core/src/path/write/preconditions.rs\<close>): each is checked against the state
  before the commit, in order.  A condition that is not met fails with its index; a failure
  to evaluate one, such as a missing right, fails without it.
\<close>

section \<open>Conditions\<close>

datatype commit_precondition =
    NamespaceHead change_seq
  | FileRevision inode_id revision_no
  | PathBinding absolute_path inode_id "binding_version option"
  | InodeBinding inode_id binding_version
  | AttributesRevision inode_id attributes_revision_no
  | AccessRevision inode_id access_revision_no
  | PathAbsence absolute_path
  | NameAbsence inode_id display_name

text \<open>What a read returns when the inode is visible, and no value when it is not.\<close>

definition visible_value ::
  "planning_view \<Rightarrow> inode_id \<Rightarrow> (core_error, 'a) result \<Rightarrow> (core_error, 'a option) result" where
  "visible_value v inode_id read =
     (case pv_resolve_visible_inode v inode_id of
        Inr _ \<Rightarrow> rbind read (\<lambda>x. Inr (Some x))
      | Inl (InodeNotFound _) \<Rightarrow> Inr None
      | Inl e \<Rightarrow> Inl e)"

definition mismatch_unless :: "bool \<Rightarrow> commit_validation_error \<Rightarrow> core_error option" where
  "mismatch_unless met e = (if met then None else Some (CommitValidation e))"

definition find_file_revision_mismatch ::
  "planning_view \<Rightarrow> inode_id \<Rightarrow> revision_no \<Rightarrow> (core_error, core_error option) result" where
  "find_file_revision_mismatch v inode_id expected =
     rbind (pv_authorize v inode_id (right_bit Read) AbsentInode) (\<lambda>_.
     rbind (visible_value v inode_id (view_latest_revision_head (pv_metadata v) inode_id)) (\<lambda>revision.
     let actual = map_option rv_revision_no (Option.bind revision (\<lambda>row. row))
     in Inr (mismatch_unless (actual = Some expected) (BaseRevisionMismatch inode_id expected actual))))"

definition find_attributes_revision_mismatch ::
  "planning_view \<Rightarrow> inode_id \<Rightarrow> attributes_revision_no \<Rightarrow> (core_error, core_error option) result" where
  "find_attributes_revision_mismatch v inode_id expected =
     rbind (pv_authorize v inode_id (right_bit Read) AbsentInode) (\<lambda>_.
     rbind (visible_value v inode_id
              (rbind (view_attributes (pv_metadata v) inode_id) (\<lambda>projection.
               Inr (pj_attributes_revision_no projection)))) (\<lambda>actual.
     Inr (mismatch_unless (actual = Some expected)
            (UpdateAttributesBaseRevisionMismatch inode_id expected actual))))"

definition find_access_revision_mismatch ::
  "planning_view \<Rightarrow> inode_id \<Rightarrow> access_revision_no \<Rightarrow> (core_error, core_error option) result" where
  "find_access_revision_mismatch v inode_id expected =
     rbind (pv_authorize v inode_id (right_bit Read) AbsentInode) (\<lambda>_.
     rbind (visible_value v inode_id
              (rbind (view_latest_access_revision (pv_metadata v) inode_id) (\<lambda>row.
               Inr (case row of Some row \<Rightarrow> xr_access_revision_no row | None \<Rightarrow> 0)))) (\<lambda>actual.
     Inr (mismatch_unless (actual = Some expected)
            (UpdateAccessBaseRevisionMismatch inode_id expected actual))))"

text \<open>The root has no binding version, and its refusal is a failure to evaluate the condition.\<close>

definition find_binding_version_mismatch ::
  "token_codec \<Rightarrow> planning_view \<Rightarrow> resolved_visible_path \<Rightarrow> binding_version
    \<Rightarrow> (core_error, core_error option) result" where
  "find_binding_version_mismatch tk v resolved expected =
     (case ensure_binding_version tk v resolved expected of
        Inr _ \<Rightarrow> Inr None
      | Inl RootMutationForbidden \<Rightarrow> Inl RootMutationForbidden
      | Inl mismatch \<Rightarrow> Inr (Some mismatch))"

definition find_inode_binding_mismatch ::
  "token_codec \<Rightarrow> planning_view \<Rightarrow> inode_id \<Rightarrow> binding_version \<Rightarrow> (core_error, core_error option) result" where
  "find_inode_binding_mismatch tk v inode_id expected =
     rbind (pv_authorize v inode_id (right_bit Read) AbsentInode) (\<lambda>_.
     case pv_resolve_visible_inode v inode_id of
       Inr resolved \<Rightarrow> find_binding_version_mismatch tk v resolved expected
     | Inl (InodeNotFound _) \<Rightarrow> Inr (Some (hidden_inode_binding_error tk v inode_id expected))
     | Inl e \<Rightarrow> Inl e)"

definition find_binding_mismatch ::
  "unicode_tables \<Rightarrow> token_codec \<Rightarrow> planning_view \<Rightarrow> absolute_path \<Rightarrow> inode_id option
    \<Rightarrow> binding_version option \<Rightarrow> (core_error, core_error option) result" where
  "find_binding_mismatch u tk v path expected_inode_id expected_binding_version =
     rbind (case resolve_visible_path u (pv_reads v) path of
              Inr binding \<Rightarrow>
                rbind (if expected_inode_id \<noteq> None
                       then pv_authorize v (rp_inode_id binding) (right_bit Read)
                              (AbsentPath (ap_normalized path))
                       else Inr ()) (\<lambda>_.
                Inr (Some binding))
            | Inl (VisiblePath (PathComponentNotDirectory _ _ _)) \<Rightarrow> Inr None
            | Inl e \<Rightarrow> if is_missing_visible_path e then Inr None else Inl e) (\<lambda>actual.
     let actual_inode_id = map_option rp_inode_id actual
     in if actual_inode_id \<noteq> expected_inode_id
        then Inr (Some (CommitValidation (BindingPreconditionMismatch (AtPath (ap_normalized path))
                          expected_inode_id actual_inode_id)))
        else case (actual, expected_binding_version) of
               (Some binding, Some expected) \<Rightarrow> find_binding_version_mismatch tk v binding expected
             | _ \<Rightarrow> Inr None)"

definition find_path_absence_mismatch ::
  "unicode_tables \<Rightarrow> token_codec \<Rightarrow> planning_view \<Rightarrow> absolute_path \<Rightarrow> (core_error, core_error option) result" where
  "find_path_absence_mismatch u tk v path =
     (let parent = the_default root_path (parent_path path); absence = AbsentPath (ap_normalized path)
      in case resolve_visible_path u (pv_reads v) parent of
           Inr parent \<Rightarrow>
             rbind (pv_authorize v (rp_inode_id parent) (right_bit Read) absence) (\<lambda>_.
             if rp_inode_kind parent \<noteq> Directory then Inr None
             else find_binding_mismatch u tk v path None None)
         | Inl (VisiblePath (PathComponentNotDirectory _ inode_id _)) \<Rightarrow>
             rbind (pv_authorize v inode_id (right_bit Read) absence) (\<lambda>_. Inr None)
         | Inl e \<Rightarrow> if is_missing_visible_path e then Inr None else Inl e)"

definition find_name_absence_mismatch ::
  "unicode_tables \<Rightarrow> planning_view \<Rightarrow> inode_id \<Rightarrow> display_name \<Rightarrow> (core_error, core_error option) result" where
  "find_name_absence_mismatch u v parent_inode_id display_name =
     (case pv_resolve_visible_inode v parent_inode_id of
        Inr parent \<Rightarrow>
          rbind (pv_authorize v parent_inode_id (right_bit Read) AbsentInode) (\<lambda>_.
          if rp_inode_kind parent \<noteq> Directory then Inr None
          else
            let name_key = name_key_for_display_name u display_name
            in rbind (visible_child (pv_reads v) parent_inode_id name_key) (\<lambda>binding.
               Inr (map_option (\<lambda>binding.
                      CommitValidation (BindingPreconditionMismatch
                        (NameUnderParent name_key parent_inode_id) None
                        (Some (db_child_inode_id binding)))) binding)))
      | Inl (InodeNotFound _) \<Rightarrow> Inr None
      | Inl e \<Rightarrow> Inl e)"

fun find_precondition_mismatch ::
  "unicode_tables \<Rightarrow> token_codec \<Rightarrow> planning_view \<Rightarrow> change_seq \<Rightarrow> commit_precondition
    \<Rightarrow> (core_error, core_error option) result" where
  "find_precondition_mismatch u tk v head_seq (NamespaceHead expected) =
     Inr (if expected \<noteq> head_seq then Some (StaleHeadPrecondition expected head_seq) else None)"
| "find_precondition_mismatch u tk v head_seq (FileRevision inode_id expected) =
     find_file_revision_mismatch v inode_id expected"
| "find_precondition_mismatch u tk v head_seq (PathBinding path expected expected_binding_version) =
     find_binding_mismatch u tk v path (Some expected) expected_binding_version"
| "find_precondition_mismatch u tk v head_seq (InodeBinding inode_id expected) =
     find_inode_binding_mismatch tk v inode_id expected"
| "find_precondition_mismatch u tk v head_seq (AttributesRevision inode_id expected) =
     find_attributes_revision_mismatch v inode_id expected"
| "find_precondition_mismatch u tk v head_seq (AccessRevision inode_id expected) =
     find_access_revision_mismatch v inode_id expected"
| "find_precondition_mismatch u tk v head_seq (PathAbsence path) =
     find_path_absence_mismatch u tk v path"
| "find_precondition_mismatch u tk v head_seq (NameAbsence parent_inode_id display_name) =
     find_name_absence_mismatch u v parent_inode_id display_name"

text \<open>The loop over the conditions, with the index of the next one.\<close>

fun evaluate_preconditions ::
  "unicode_tables \<Rightarrow> token_codec \<Rightarrow> planning_view \<Rightarrow> change_seq \<Rightarrow> nat \<Rightarrow> commit_precondition list
    \<Rightarrow> (core_error, unit) result" where
  "evaluate_preconditions u tk v head_seq index [] = Inr ()"
| "evaluate_preconditions u tk v head_seq index (precondition # preconditions) =
     rbind (find_precondition_mismatch u tk v head_seq precondition) (\<lambda>mismatch.
     case mismatch of
       Some mismatch \<Rightarrow> Inl (at_precondition index mismatch)
     | None \<Rightarrow> evaluate_preconditions u tk v head_seq (index + 1) preconditions)"

end
