(* ===== verification/Publish_Session.thy ===== *)
theory Publish_Session
  imports Planner Preconditions
begin

text \<open>
  The planning session of one publish attempt
  (\<open>loonfs-core/src/path/write/session.rs\<close>, \<open>planned_pieces.rs\<close>) with the candidates it
  plans (\<open>commit/engine/candidate.rs\<close>), the plan of one commit (\<open>commit/plan.rs\<close>) and its
  log record (\<open>commit/wal_payload.rs\<close>).  Candidates are planned in order; each sees the rows
  of those accepted before it.
\<close>

section \<open>The head and the candidates\<close>

text \<open>The head of a namespace; its status and its writer are not read here.\<close>

record namespace_read_state =
  ns_namespace_id :: namespace_id
  ns_access :: namespace_access
  ns_fork_basis :: "fork_basis option"
  ns_family_root_id :: namespace_id
  ns_writer_epoch :: u64
  ns_seq :: change_seq
  ns_wal_no :: u64

record commit_intent =
  ci_commit_id :: commit_id
  ci_actor_id :: actor_id
  ci_subject :: "subject option"
  ci_message :: "string option"
  ci_operations :: "filesystem_operation list"
  ci_preconditions :: "commit_precondition list"

record merge_intent =
  mg_record :: merge_record
  mg_fork_point_seq :: change_seq
  mg_created_inode_ids :: "nat \<rightharpoonup> inode_id"
  mg_temporary_moves :: "nat \<rightharpoonup> temporary_move"

datatype candidate_request = IntentRequest commit_intent | MaintenanceRequest commit_intent

fun request_intent :: "candidate_request \<Rightarrow> commit_intent" where
  "request_intent (IntentRequest intent) = intent"
| "request_intent (MaintenanceRequest intent) = intent"

fun request_authority :: "candidate_request \<Rightarrow> commit_authority" where
  "request_authority (IntentRequest intent) = AsSubject (ci_subject intent)"
| "request_authority (MaintenanceRequest _) = Maintenance"

record inline_value =
  iv_content_ref :: content_ref
  iv_bytes :: "u8 list"

datatype prepared_content =
    PreparedInline inline_value
  | PreparedStaged namespace_id content_ref u64
  | PreparedShared namespace_id content_ref content_layout u64

fun prepared_content_ref :: "prepared_content \<Rightarrow> content_ref" where
  "prepared_content_ref (PreparedInline v) = iv_content_ref v"
| "prepared_content_ref (PreparedStaged _ content_ref _) = content_ref"
| "prepared_content_ref (PreparedShared _ content_ref _ _) = content_ref"

fun prepared_revision_layout :: "prepared_content \<Rightarrow> namespace_id \<Rightarrow> content_layout option" where
  "prepared_revision_layout (PreparedInline _) namespace_id = None"
| "prepared_revision_layout (PreparedStaged _ content_ref _) namespace_id =
     Some \<lparr> ly_creator_namespace_id = namespace_id,
            ly_extents = [\<lparr> ex_content_id = ct_content_id content_ref, ex_object = Whole,
                            ex_offset = 0, ex_length = ct_size_bytes content_ref \<rparr>] \<rparr>"
| "prepared_revision_layout (PreparedShared _ _ layout _) namespace_id = Some layout"

text \<open>The preparation of a candidate's content: its proofs, or no proofs after a rejection.\<close>

record commit_candidate =
  cc_request :: candidate_request
  cc_merge :: "merge_intent option"
  cc_proofs :: "prepared_content list option"
  cc_inline_content :: "inline_value list"

definition cc_intent :: "commit_candidate \<Rightarrow> commit_intent" where
  "cc_intent candidate = request_intent (cc_request candidate)"

text \<open>The first proof of each reference.\<close>

definition proofs_by_reference :: "commit_candidate \<Rightarrow> content_ref \<Rightarrow> prepared_content option" where
  "proofs_by_reference candidate content_ref =
     (case cc_proofs candidate of
        None \<Rightarrow> None
      | Some proofs \<Rightarrow> find (\<lambda>proof. prepared_content_ref proof = content_ref) proofs)"

record commit_plan =
  pl_namespace_id :: namespace_id
  pl_commit_id :: commit_id
  pl_actor_id :: actor_id
  pl_writer_epoch :: u64
  pl_message :: "string option"
  pl_merge :: "merge_record option"
  pl_semantic_identity :: commit_fingerprint
  pl_apply_after_seq :: change_seq
  pl_assigned_seq :: change_seq
  pl_committed_at_ms :: u64
  pl_deltas :: "wal_commit_delta list"
  pl_appended :: "wal_inline_content list"
  pl_inline_content :: "inline_value list"

definition inline_piece :: "inline_value \<Rightarrow> wal_inline_content" where
  "inline_piece v =
     \<lparr> ic_content_id = ct_content_id (iv_content_ref v), ic_offset = 0, ic_bytes = iv_bytes v \<rparr>"

definition wal_payload_from_commit_plan :: "commit_plan \<Rightarrow> wal_commit_payload" where
  "wal_payload_from_commit_plan cp =
     \<lparr> wc_committed_seq = pl_assigned_seq cp, wc_commit_id = pl_commit_id cp,
       wc_committed_by = pl_actor_id cp,
       wc_semantic_commit_fingerprint = pl_semantic_identity cp,
       wc_committed_at_ms = pl_committed_at_ms cp, wc_message = pl_message cp,
       wc_merge = pl_merge cp, wc_deltas = pl_deltas cp,
       wc_inline_content = map inline_piece (pl_inline_content cp) @ pl_appended cp \<rparr>"

section \<open>Pieces\<close>

type_synonym planned_pieces = "content_id \<rightharpoonup> projected_content"

definition pieces_insert ::
  "projected_content option \<Rightarrow> content_ref \<Rightarrow> wal_inline_content \<Rightarrow> change_seq \<Rightarrow> planned_pieces
    \<Rightarrow> planned_pieces" where
  "pieces_insert below content_ref entry committed_seq pieces =
     (let piece = \<lparr> pp_offset = ic_offset entry, pp_bytes = ic_bytes entry \<rparr>;
          start = (case pieces (ct_content_id content_ref) of
                     Some content \<Rightarrow> content
                   | None \<Rightarrow> the_default (projected_content_new content_ref committed_seq) below)
      in pieces(ct_content_id content_ref \<mapsto> snd (content_insert_piece content_ref piece committed_seq start)))"

text \<open>\<open>ProjectedWalTail::content\<close>: the chunks' pieces of a content, combined in order.\<close>

definition chunk_content :: "tail_chunk \<Rightarrow> content_ref \<Rightarrow> projected_content option" where
  "chunk_content chunk content_ref =
     map_option (\<lambda>position. tc_contents chunk ! position)
       (tc_content_positions chunk (ct_content_id content_ref))"

definition tail_content :: "projected_wal_tail \<Rightarrow> content_ref \<Rightarrow> projected_content option" where
  "tail_content tail content_ref =
     (case List.map_filter (\<lambda>chunk. chunk_content chunk content_ref) (wt_chunks tail) of
        [] \<Rightarrow> None
      | first # rest \<Rightarrow> Some (foldl content_combine first rest))"

section \<open>The session\<close>

record publish_session =
  ps_head :: namespace_read_state
  ps_tail :: projected_wal_tail
  ps_base_view :: metadata_view
  ps_committed_at_ms :: u64
  ps_accepted_rows :: metadata_state
  ps_accepted_pieces :: planned_pieces

definition publish_session_new ::
  "namespace_read_state \<Rightarrow> projected_wal_tail \<Rightarrow> metadata_view \<Rightarrow> u64 \<Rightarrow> publish_session" where
  "publish_session_new head tail base_view committed_at_ms =
     \<lparr> ps_head = head, ps_tail = tail, ps_base_view = base_view,
       ps_committed_at_ms = committed_at_ms, ps_accepted_rows = default_state,
       ps_accepted_pieces = Map.empty \<rparr>"

definition session_content :: "publish_session \<Rightarrow> content_ref \<Rightarrow> projected_content option" where
  "session_content ps content_ref =
     (case ps_accepted_pieces ps (ct_content_id content_ref) of
        Some content \<Rightarrow> Some content
      | None \<Rightarrow> tail_content (ps_tail ps) content_ref)"

text \<open>\<open>CommitPieces\<close>: the commit's own pieces over the session's.\<close>

definition commit_content ::
  "publish_session \<Rightarrow> planned_pieces \<Rightarrow> content_ref \<Rightarrow> projected_content option" where
  "commit_content ps own content_ref =
     (case own (ct_content_id content_ref) of
        Some content \<Rightarrow> Some content
      | None \<Rightarrow> session_content ps content_ref)"

definition commit_insert_piece ::
  "publish_session \<Rightarrow> content_ref \<Rightarrow> change_seq \<Rightarrow> wal_inline_content \<Rightarrow> planned_pieces \<Rightarrow> planned_pieces" where
  "commit_insert_piece ps content_ref committed_seq entry own =
     pieces_insert (session_content ps content_ref) content_ref entry committed_seq own"

definition session_planning_view ::
  "publish_session \<Rightarrow> authorizer \<Rightarrow> metadata_view \<Rightarrow> planning_view" where
  "session_planning_view ps authorizer metadata =
     \<lparr> pv_namespace_id = ns_namespace_id (ps_head ps), pv_access = ns_access (ps_head ps),
       pv_authorizer = authorizer, pv_metadata = metadata \<rparr>"

section \<open>Merges\<close>

text \<open>
  \<open>merge_start\<close>: after which sequence of the fork the next merge starts, with the fork's
  newest merge that counts, or the refusal of the retention floor.
\<close>

definition rebase_basis ::
  "namespace_read_state \<Rightarrow> namespace_id \<Rightarrow> (fork_basis \<times> rebased_from) option" where
  "rebase_basis head fork =
     Option.bind (ns_fork_basis head) (\<lambda>basis.
     map_option (\<lambda>rebased_from. (basis, rebased_from))
       (option_filter (\<lambda>rebased_from. rb_source_namespace_id rebased_from = fork) (fb_rebased_from basis)))"

definition merge_start ::
  "metadata_view \<Rightarrow> namespace_read_state \<Rightarrow> namespace_id \<Rightarrow> change_seq
    \<Rightarrow> (core_error, change_seq \<times> merge_index_record option) result" where
  "merge_start view head source_namespace_id fork_point_seq =
     (let rebase = rebase_basis head source_namespace_id;
          checked_fork_point_seq = (case rebase of
             Some (basis, _) \<Rightarrow> mref_head_seq (fb_manifest basis) | None \<Rightarrow> fork_point_seq);
          retention_floor_seq = view_retention_floor_seq view
      in rbind (err_if (checked_fork_point_seq < retention_floor_seq)
                  (RebootstrapRequired (ForkPoint checked_fork_point_seq) retention_floor_seq)) (\<lambda>_.
         rbind (view_newest_merge view source_namespace_id) (\<lambda>newest.
         let (previous, first_after_seq) = (case rebase of
               Some (basis, rebased_from) \<Rightarrow>
                 (option_filter (\<lambda>previous. mi_committed_seq previous > mref_head_seq (fb_manifest basis)) newest,
                  rb_resume_after_seq rebased_from)
             | None \<Rightarrow> (newest, fork_point_seq))
         in Inr (case previous of Some previous \<Rightarrow> mi_source_through_seq previous | None \<Rightarrow> first_after_seq,
                 previous))))"

definition ensure_merge_is_admissible ::
  "metadata_view \<Rightarrow> namespace_read_state \<Rightarrow> merge_intent \<Rightarrow> (core_error, unit) result" where
  "ensure_merge_is_admissible view head merge =
     (let source_namespace_id = mr_source_namespace_id (mg_record merge)
      in rbind (merge_start view head source_namespace_id (mg_fork_point_seq merge)) (\<lambda>(expected_after_seq, _).
         err_if (mr_source_after_seq (mg_record merge) \<noteq> expected_after_seq)
           (MergeRangeConflict source_namespace_id expected_after_seq (mr_source_after_seq (mg_record merge)))))"

definition ensure_merged_inode_is_new :: "metadata_view \<Rightarrow> inode_id \<Rightarrow> (core_error, unit) result" where
  "ensure_merged_inode_is_new view inode_id =
     rbind (view_inode_at_seq view inode_id) (\<lambda>inode.
     err_if (inode \<noteq> None) (InvalidCommitRequest (MergeCreatesExisting inode_id)))"

section \<open>Layouts of planned revisions\<close>

text \<open>
  \<open>cut_layout\<close>: the extents of the first bytes, with the bytes still wanted.  No extent is
  kept once they are all covered, except in a layout of no bytes.
\<close>

fun cut_extents :: "u64 \<Rightarrow> u64 \<Rightarrow> content_extent list \<Rightarrow> content_extent list" where
  "cut_extents size_bytes remaining [] = []"
| "cut_extents size_bytes remaining (extent # extents) =
     (if remaining = 0 \<and> size_bytes \<noteq> 0 then cut_extents size_bytes remaining extents
      else
        let kept = min (ex_length extent) remaining
        in extent \<lparr> ex_length := kept \<rparr> # cut_extents size_bytes (remaining - kept) extents)"

definition cut_layout :: "content_layout \<Rightarrow> u64 \<Rightarrow> content_layout" where
  "cut_layout layout size_bytes =
     layout \<lparr> ly_extents := cut_extents size_bytes size_bytes (ly_extents layout) \<rparr>"

definition piece_offsets :: "commit_candidate \<Rightarrow> wal_inline_content list \<Rightarrow> content_id \<Rightarrow> u64 list" where
  "piece_offsets candidate appended content_id =
     map (\<lambda>_. 0) (filter (\<lambda>v. ct_content_id (iv_content_ref v) = content_id) (cc_inline_content candidate))
     @ map ic_offset (filter (\<lambda>piece. ic_content_id piece = content_id) appended)"

text \<open>
  The layout of one revision delta: \<open>None\<close> where the commit's own pieces start the content or
  extend a published one, the given layout cut to the bytes before them, or a layout
  written for a content without one.
\<close>

definition carried_layout ::
  "planner_env \<Rightarrow> metadata_view \<Rightarrow> metadata_view \<Rightarrow> (content_ref \<Rightarrow> projected_content option)
    \<Rightarrow> u64 list \<Rightarrow> bool \<Rightarrow> u32 \<Rightarrow> content_ref \<Rightarrow> content_layout option
    \<Rightarrow> (core_error, content_layout option) result" where
  "carried_layout env view before content offsets earlier_revision op_index content_ref layout =
     (let first_offset = (if offsets = [] then None else Some (Min (set offsets)))
      in if first_offset = Some 0 then Inr None
         else
           rbind (if first_offset \<noteq> None
                  then (if earlier_revision then Inr True
                        else view_content_published before (ct_content_id content_ref))
                  else Inr False) (\<lambda>appends_published.
           if appends_published then Inr None
           else
             let prefix_bytes = the_default (ct_size_bytes content_ref) first_offset;
                 prefix = content_ref \<lparr> ct_size_bytes := prefix_bytes \<rparr>
             in case option_filter (\<lambda>layout. layout_size_bytes layout \<ge> prefix_bytes) layout of
                  Some layout \<Rightarrow> Inr (Some (cut_layout layout prefix_bytes))
                | None \<Rightarrow>
                    rbind (err_if (first_offset \<noteq> None)
                             (Panicked ''append planning should give fresh content a layout'')) (\<lambda>_.
                    rbind (map_err (at_operation (unat op_index))
                             (en_materialize env view (content prefix) prefix)) (\<lambda>layout.
                    Inr (Some layout)))))"

fun carry_revision_layouts ::
  "planner_env \<Rightarrow> metadata_view \<Rightarrow> metadata_view \<Rightarrow> (content_ref \<Rightarrow> projected_content option)
    \<Rightarrow> (content_id \<Rightarrow> u64 list) \<Rightarrow> content_id list \<Rightarrow> wal_commit_delta list
    \<Rightarrow> (core_error, wal_commit_delta list) result" where
  "carry_revision_layouts env view before content offsets seen [] = Inr []"
| "carry_revision_layouts env view before content offsets seen (wd # wds) =
     (case wd_delta wd of
        AppendFileRevision delta_index inode_id parent name_key display_name bind_position
          created_by created_at_ms revision_no content_ref layout append_offset \<Rightarrow>
          (let id = ct_content_id content_ref
           in rbind (carried_layout env view before content (offsets id) (id \<in> set seen)
                       (wd_semantic_operation_index wd) content_ref layout) (\<lambda>layout.
              rbind (carry_revision_layouts env view before content offsets (id # seen) wds) (\<lambda>rest.
              Inr (wd \<lparr> wd_delta := AppendFileRevision delta_index inode_id parent name_key display_name
                          bind_position created_by created_at_ms revision_no content_ref layout
                          append_offset \<rparr> # rest))))
      | _ \<Rightarrow>
          rbind (carry_revision_layouts env view before content offsets seen wds) (\<lambda>rest.
          Inr (wd # rest)))"

section \<open>Planning a commit\<close>

text \<open>What the loop over a request's operations has planned so far.\<close>

record commit_planning =
  pg_validation :: validation_session
  pg_deltas :: "wal_commit_delta list"
  pg_appended :: "appended_content list"
  pg_pieces :: planned_pieces
  pg_next_create_no :: u32

definition planned_revision_layout ::
  "publish_session \<Rightarrow> commit_candidate \<Rightarrow> appended_content list \<Rightarrow> content_ref \<Rightarrow> content_layout option" where
  "planned_revision_layout ps candidate appended content_ref =
     (case find (\<lambda>v. ac_content_ref v = content_ref) appended of
        Some v \<Rightarrow> ac_layout v
      | None \<Rightarrow>
          Option.bind (proofs_by_reference candidate content_ref) (\<lambda>proof.
          prepared_revision_layout proof (ns_namespace_id (ps_head ps))))"

definition created_ids_for ::
  "commit_candidate \<Rightarrow> nat \<Rightarrow> commit_planning \<Rightarrow> (core_error, created_inode_ids) result" where
  "created_ids_for candidate index pg =
     (case cc_merge candidate of
        Some merge \<Rightarrow>
          rbind (case mg_created_inode_ids merge index of
                   Some inode_id \<Rightarrow>
                     ensure_merged_inode_is_new (session_view (pg_validation pg)) inode_id
                 | None \<Rightarrow> Inr ()) (\<lambda>_.
          Inr (MergeAssigned (mg_created_inode_ids merge index)))
      | None \<Rightarrow> Inr (Generated (pg_next_create_no pg)))"

fun unused_assigned :: "created_inode_ids \<Rightarrow> inode_id option" where
  "unused_assigned (MergeAssigned assigned) = assigned"
| "unused_assigned (Generated _) = None"

fun create_no_after :: "u32 \<Rightarrow> created_inode_ids \<Rightarrow> u32" where
  "create_no_after n (Generated following) = following"
| "create_no_after n (MergeAssigned _) = n"

text \<open>One turn of the loop of \<open>plan_commit\<close>.\<close>

definition plan_operation ::
  "planner_env \<Rightarrow> publish_session \<Rightarrow> commit_candidate \<Rightarrow> authorizer \<Rightarrow> change_seq \<Rightarrow> nat
    \<Rightarrow> filesystem_operation \<Rightarrow> commit_planning \<Rightarrow> (core_error, commit_planning) result" where
  "plan_operation env ps candidate authorizer committed_seq index operation pg =
     map_err (at_operation index)
       (rbind (created_ids_for candidate index pg) (\<lambda>created.
        let os = \<lparr> os_view = session_planning_view ps authorizer (session_view (pg_validation pg)),
                   os_content = commit_content ps (pg_pieces pg), os_committed_seq = committed_seq,
                   os_operation_index = index, os_created_inode_ids = created,
                   os_temporary_move = Option.bind (cc_merge candidate) (\<lambda>merge.
                     mg_temporary_moves merge index) \<rparr>
        in rbind (plan env os operation) (\<lambda>(compiled, created).
           rbind (case unused_assigned created of
                    Some inode_id \<Rightarrow> Inl (InvalidCommitRequest (MergeAssignsUnused inode_id))
                  | None \<Rightarrow> Inr ()) (\<lambda>_.
           let pieces = (case co_appended compiled of
                           Some v \<Rightarrow> fold (commit_insert_piece ps (ac_content_ref v) committed_seq)
                                       (ac_pieces v) (pg_pieces pg)
                         | None \<Rightarrow> pg_pieces pg);
               appended = pg_appended pg @ option_list (co_appended compiled)
           in rbind (validate_ops (en_unicode env) (en_has_visible_children env)
                       (planned_revision_layout ps candidate appended) (pg_validation pg)
                       (co_ops compiled)) (\<lambda>(operation_deltas, validation).
              Inr \<lparr> pg_validation = validation, pg_deltas = pg_deltas pg @ operation_deltas,
                    pg_appended = appended, pg_pieces = pieces,
                    pg_next_create_no = create_no_after (pg_next_create_no pg) created \<rparr>)))))"

fun plan_operations ::
  "planner_env \<Rightarrow> publish_session \<Rightarrow> commit_candidate \<Rightarrow> authorizer \<Rightarrow> change_seq \<Rightarrow> nat
    \<Rightarrow> filesystem_operation list \<Rightarrow> commit_planning \<Rightarrow> (core_error, commit_planning) result" where
  "plan_operations env ps candidate authorizer committed_seq index [] pg = Inr pg"
| "plan_operations env ps candidate authorizer committed_seq index (operation # operations) pg =
     rbind (plan_operation env ps candidate authorizer committed_seq index operation pg) (\<lambda>pg.
     plan_operations env ps candidate authorizer committed_seq (index + 1) operations pg)"

definition plan_commit ::
  "planner_env \<Rightarrow> publish_session \<Rightarrow> commit_candidate \<Rightarrow> authorizer \<Rightarrow> commit_fingerprint
    \<Rightarrow> metadata_view \<Rightarrow> (core_error, commit_plan) result" where
  "plan_commit env ps candidate authorizer semantic_identity pre_state =
     (let head = ps_head ps; request = cc_intent candidate
      in rbind (ok_or (NamespaceCorrupt (HeadAtLargestSequence (ns_seq head)))
                  (next_public_ordinal (ns_seq head))) (\<lambda>committed_seq.
         let start = \<lparr> pg_validation = session_new (ps_base_view ps) (ps_accepted_rows ps) committed_seq
                         (ci_commit_id request) (ci_actor_id request) (ps_committed_at_ms ps),
                       pg_deltas = [], pg_appended = [],
                       pg_pieces = fold (\<lambda>v. commit_insert_piece ps (iv_content_ref v) committed_seq
                                          (inline_piece v)) (cc_inline_content candidate) Map.empty,
                       pg_next_create_no = 1 \<rparr>
         in rbind (plan_operations env ps candidate authorizer committed_seq 0 (ci_operations request) start)
              (\<lambda>pg.
            let appended = concat (map ac_pieces (pg_appended pg))
            in rbind (carry_revision_layouts env (session_view (pg_validation pg)) pre_state
                        (commit_content ps (pg_pieces pg)) (piece_offsets candidate appended) []
                        (pg_deltas pg)) (\<lambda>deltas.
               Inr \<lparr> pl_namespace_id = ns_namespace_id head, pl_commit_id = ci_commit_id request,
                     pl_actor_id = ci_actor_id request, pl_writer_epoch = ns_writer_epoch head,
                     pl_message = ci_message request, pl_merge = map_option mg_record (cc_merge candidate),
                     pl_semantic_identity = semantic_identity, pl_apply_after_seq = ns_seq head,
                     pl_assigned_seq = committed_seq, pl_committed_at_ms = ps_committed_at_ms ps,
                     pl_deltas = deltas, pl_appended = appended,
                     pl_inline_content = cc_inline_content candidate \<rparr>))))"

definition session_pre_state :: "publish_session \<Rightarrow> metadata_view" where
  "session_pre_state ps =
     with_overlay (ps_base_view ps) None (ps_accepted_rows ps) (ns_seq (ps_head ps))"

definition prepare_commit ::
  "planner_env \<Rightarrow> publish_session \<Rightarrow> commit_candidate \<Rightarrow> authorizer \<Rightarrow> commit_fingerprint
    \<Rightarrow> (core_error, commit_plan) result" where
  "prepare_commit env ps candidate authorizer semantic_identity =
     (let pre_state = session_pre_state ps
      in rbind (case cc_merge candidate of
                  Some merge \<Rightarrow> ensure_merge_is_admissible pre_state (ps_head ps) merge
                | None \<Rightarrow> Inr ()) (\<lambda>_.
         rbind (evaluate_preconditions (en_unicode env) (en_codec env)
                  (session_planning_view ps authorizer pre_state) (ns_seq (ps_head ps)) 0
                  (ci_preconditions (cc_intent candidate))) (\<lambda>_.
         plan_commit env ps candidate authorizer semantic_identity pre_state)))"

text \<open>
  \<open>apply_accepted_commit\<close>.  Accepting a plan at another head, and a record with inline
  content that no revision names, are panics.
\<close>

definition apply_accepted_commit ::
  "wal_commit_payload \<Rightarrow> commit_plan \<Rightarrow> publish_session \<Rightarrow> (core_error, publish_session) result" where
  "apply_accepted_commit preview cp ps =
     rbind (err_if (pl_apply_after_seq cp \<noteq> ns_seq (ps_head ps))
              (Panicked ''a commit plan should be accepted at the head it was planned against'')) (\<lambda>_.
     rbind (ok_or (Panicked ''inline content should belong to a revision'') (inline_content_refs preview))
       (\<lambda>refs.
     Inr (ps \<lparr> ps_accepted_pieces :=
                 fold (\<lambda>(content_ref, entry). pieces_insert (tail_content (ps_tail ps) content_ref)
                         content_ref entry (wc_committed_seq preview)) refs (ps_accepted_pieces ps),
               ps_accepted_rows := apply_committed_wal_record preview (ps_accepted_rows ps),
               ps_head := (ps_head ps) \<lparr> ns_seq := pl_assigned_seq cp \<rparr> \<rparr>)))"

end
