(* ===== verification/Planning_Safety.thy ===== *)
theory Planning_Safety
  imports Publish_Session
begin

text \<open>
  What planning promises to validation, and what follows for a whole publish session: the
  operations a planner compiles create fresh inodes only and name the binding of the inode
  they move or delete, so every commit the session plans and accepts keeps the namespace a
  tree, and the session is ready for the next candidate.
\<close>

unbundle bit_operations_syntax

section \<open>Drawn inode ids\<close>

lemma generate_inode_id_create_no:
  "(ucast (drop_bit 64 (generate_inode_id seq create_no random)) :: u32) = create_no"
proof -
  have low: "(0xFFFFFFFF :: 128 word) = mask 32" by (simp add: mask_eq_exp_minus_1)
  have "bit (generate_inode_id seq create_no random) n \<longleftrightarrow>
      n < 64 \<and> bit random n \<or> 64 \<le> n \<and> n < 96 \<and> bit create_no (n - 64) \<or>
      96 \<le> n \<and> n < 128 \<and> bit seq (n - 96)" for n
    unfolding generate_inode_id_def Let_def low take_bit_eq_mask [symmetric]
    by (auto simp: bit_simps dest: bit_imp_le_length)
  then show ?thesis by (intro bit_word_eqI) (auto simp: bit_simps)
qed

lemma generate_inode_id_inj:
  "generate_inode_id seq n r = generate_inode_id seq n' r' \<Longrightarrow> n = n'"
  using generate_inode_id_create_no by metis

definition drawn_id :: "planner_env \<Rightarrow> change_seq \<Rightarrow> u32 \<Rightarrow> inode_id" where
  "drawn_id env seq n = generate_inode_id seq n (en_random env seq n)"

lemma drawn_id_inj [simp]: "drawn_id env seq n = drawn_id env seq n' \<longleftrightarrow> n = n'"
  by (auto simp: drawn_id_def dest: generate_inode_id_inj)

text \<open>The ids drawn from a source of ids, one after the other, and the source left.\<close>

inductive draws ::
  "planner_env \<Rightarrow> change_seq \<Rightarrow> created_inode_ids \<Rightarrow> created_inode_ids \<Rightarrow> inode_id list \<Rightarrow> bool"
  for env seq where
  draws_none: "draws env seq created created []"
| draws_one: "next_inode_id env seq created = Inr (i, created') \<Longrightarrow> draws env seq created' created'' is
    \<Longrightarrow> draws env seq created created'' (i # is)"

lemma draws_single: "next_inode_id env seq created = Inr (i, created') \<Longrightarrow> draws env seq created created' [i]"
  by (blast intro: draws.intros)

lemma draws_append:
  "draws env seq created created' is \<Longrightarrow> draws env seq created' created'' js
    \<Longrightarrow> draws env seq created created'' (is @ js)"
  by (induction rule: draws.induct) (auto intro: draws.intros)

text \<open>From the numbers of a commit, ids of different numbers at or after the next one are drawn.\<close>

lemma draws_generated:
  "draws env seq created created' is \<Longrightarrow> created = Generated n \<Longrightarrow>
    \<exists>n'. created' = Generated n' \<and> n \<le> n' \<and> distinct is \<and>
      (\<forall>i\<in>set is. \<exists>k. n \<le> k \<and> k < n' \<and> i = drawn_id env seq k)"
proof (induction arbitrary: n rule: draws.induct)
  case (draws_one created i created' created'' "is")
  from draws_one.hyps(1) draws_one.prems have step: "created' = Generated (n + 1)" "n < n + 1"
    and i: "i = drawn_id env seq n"
    using checked_add_one_less [of n] by (auto simp: drawn_id_def checked_add_def split: if_splits)
  from draws_one.IH [OF step(1)] obtain n' where n': "created'' = Generated n'" "n + 1 \<le> n'" "distinct is"
    and rest: "\<forall>i\<in>set is. \<exists>k. n + 1 \<le> k \<and> k < n' \<and> i = drawn_id env seq k" by blast
  have "i \<notin> set is" using rest i step(2) by fastforce
  moreover have "n < n'" using n'(2) step(2) by (rule order.strict_trans2 [rotated])
  moreover have "\<forall>i\<in>set is. \<exists>k. n \<le> k \<and> k < n' \<and> i = drawn_id env seq k"
    using rest step(2) by (meson order_less_imp_le order_trans)
  ultimately show ?case using n' i by auto
qed simp

text \<open>From the id a merge assigns, at most that id is drawn.\<close>

lemma draws_merge:
  "draws env seq created created' is \<Longrightarrow> created = MergeAssigned a \<Longrightarrow>
    \<exists>b. created' = MergeAssigned b \<and> is @ option_list b = option_list a"
  by (induction arbitrary: a rule: draws.induct) (auto split: option.splits)

section \<open>What planners compile\<close>

definition compiled_ok ::
  "planner_env \<Rightarrow> operation_session \<Rightarrow> compiled_operation \<Rightarrow> created_inode_ids \<Rightarrow> bool" where
  "compiled_ok env os compiled created \<longleftrightarrow>
     draws env (os_committed_seq os) (os_created_inode_ids os) created
       (concat (map op_creates (co_ops compiled))) \<and>
     (\<forall>op1\<in>set (co_ops compiled). op_source_is_target op1)"

lemma source_binding_child:
  assumes "view_ok (pv_metadata v) m" "source_binding v resolved = Inr b"
  shows "rb_child_inode_id b = rp_inode_id resolved"
proof -
  from assms(2) obtain row
    where "current_parent_binding_for_child (pv_reads v) (rp_inode_id resolved) = Inr (Some row)"
      and b: "rb_child_inode_id b = db_child_inode_id row"
    by (auto simp: source_binding_def)
  then have "vr_current_parent_binding_for_child (pv_reads v) (rp_inode_id resolved) = Inr (Some row)"
    by (auto simp: view_reads_def Let_def current_parent_binding_for_child_def split: if_splits)
  from view_child [OF view_current_parent [OF assms(1) this]] b show ?thesis by simp
qed

lemma create_operation_simps [simp]:
  "op_creates (create_operation i p d c) = [i]" "op_source_is_target (create_operation i p d c)"
  by (cases c; simp)+

lemma creates_none_ok:
  assumes "creates_none os planned = Inr (compiled, created)"
    and "\<And>compiled. planned = Inr compiled \<Longrightarrow>
      (\<forall>op1\<in>set (co_ops compiled). op_creates op1 = [] \<and> op_source_is_target op1)"
  shows "compiled_ok env os compiled created"
proof -
  from assms have "created = os_created_inode_ids os"
    "\<forall>op1\<in>set (co_ops compiled). op_creates op1 = [] \<and> op_source_is_target op1"
    by (auto simp: creates_none_def)
  moreover from this(2) have "concat (map op_creates (co_ops compiled)) = []" by simp
  ultimately show ?thesis unfolding compiled_ok_def by (simp add: draws_none del: concat_eq_Nil_conv)
qed

lemma plan_create_ok:
  "plan_create env os destination child = Inr (compiled, created) \<Longrightarrow> compiled_ok env os compiled created"
  by (auto simp: plan_create_def compiled_ok_def compiled_new_def intro: draws_single)

lemma parents_loop_ok:
  assumes "parents_loop env os path components current reached creating deepest ops created =
      Inr (parents, ops', created')"
    and "draws env (os_committed_seq os) start created (concat (map op_creates ops))"
    and "\<forall>op1\<in>set ops. op_source_is_target op1"
  shows "draws env (os_committed_seq os) start created' (concat (map op_creates ops')) \<and>
    (\<forall>op1\<in>set ops'. op_source_is_target op1)"
  using assms
proof (induction components arbitrary: current reached creating deepest ops created)
  case (Cons name components)
  from Cons.prems(1) obtain child where child:
    "(if creating then Inr None else visible_child (pv_reads (os_view os)) current
        (name_key_for_display_name (en_unicode env) name)) = Inr child" by (auto simp del: if_split)
  show ?case
  proof (cases child)
    case None
    with Cons.prems(1) child obtain i created1
      where drawn: "next_inode_id env (os_committed_seq os) created = Inr (i, created1)"
        and rest: "parents_loop env os path components i reached True (if creating then deepest else current)
          (ops @ [CreateDirectory i current name]) created1 = Inr (parents, ops', created')"
      by (auto simp: Let_def simp del: if_split)
    show ?thesis
      using Cons.IH [OF rest] draws_append [OF Cons.prems(2) draws_single [OF drawn]] Cons.prems(3) by simp
  next
    case (Some row)
    with Cons.prems(1) child obtain reached'
      where "parents_loop env os path components (db_child_inode_id row) reached' creating deepest ops created =
        Inr (parents, ops', created')"
      by (auto simp: Let_def split: if_split_asm)
    from Cons.IH [OF this Cons.prems(2,3)] show ?thesis .
  qed
qed simp

lemma ensure_parent_directories_ok:
  assumes "ensure_parent_directories env os path = Inr (parents, ops, created)"
  shows "draws env (os_committed_seq os) (os_created_inode_ids os) created (concat (map op_creates ops)) \<and>
    (\<forall>op1\<in>set ops. op_source_is_target op1)"
proof (cases "length (ap_components path) \<le> 1")
  case True
  with assms show ?thesis by (auto simp: ensure_parent_directories_def intro: draws_none)
next
  case False
  with assms have "parents_loop env os path (butlast (ap_components path)) ROOT_INODE_ID root_path False
      ROOT_INODE_ID [] (os_created_inode_ids os) = Inr (parents, ops, created)"
    by (simp add: ensure_parent_directories_def)
  from parents_loop_ok [OF this, of "os_created_inode_ids os"] show ?thesis by (simp add: draws_none)
qed

lemma plan_create_directory_ok:
  assumes "plan_create_directory env os path parents = Inr (compiled, created)"
  shows "compiled_ok env os compiled created"
proof (cases parents)
  case True
  with assms obtain resolved ops created1 i name
    where dirs: "ensure_parent_directories env os path = Inr (resolved, ops, created1)"
      and drawn: "next_inode_id env (os_committed_seq os) created1 = Inr (i, created)"
      and compiled: "compiled = compiled_new (ops @ [CreateDirectory i (pr_parent_inode_id resolved) name])"
    by (auto simp: plan_create_directory_def)
  note dirs = ensure_parent_directories_ok [OF dirs]
  from draws_append [OF _ draws_single [OF drawn]] dirs show ?thesis
    by (auto simp: compiled compiled_ok_def compiled_new_def)
next
  case False
  with assms show ?thesis by (auto simp: plan_create_directory_def intro: plan_create_ok)
qed

lemma plan_put_file_content_ref_ok:
  assumes "plan_put_file_content_ref env os path content_ref behavior expected = Inr (compiled, created)"
  shows "compiled_ok env os compiled created"
proof (cases "pv_resolve_visible_path_for_authorization (en_unicode env) (os_view os) path
    (right_bit Create) (AbsentPath (ap_normalized path))")
  case (Inl e)
  with assms obtain resolved ops created1 i name
    where dirs: "ensure_parent_directories env os path = Inr (resolved, ops, created1)"
      and drawn: "next_inode_id env (os_committed_seq os) created1 = Inr (i, created)"
      and compiled: "compiled = compiled_new (ops @ [CreateFile i (pr_parent_inode_id resolved) name content_ref])"
    by (auto simp: plan_put_file_content_ref_def Let_def split: if_splits)
  note dirs = ensure_parent_directories_ok [OF dirs]
  from draws_append [OF _ draws_single [OF drawn]] dirs show ?thesis
    by (auto simp: compiled compiled_ok_def compiled_new_def)
next
  case (Inr existing)
  with assms show ?thesis
    by (auto simp: plan_put_file_content_ref_def Let_def compiled_ok_def compiled_new_def
          intro: draws_none split: if_splits)
qed

lemma plan_copy_ok:
  assumes "plan_copy env os source destination precondition = Inr (compiled, created)"
  shows "compiled_ok env os compiled created"
proof -
  from assms obtain resolved d expected
    where into: "plan_copy_into env os resolved d precondition expected = Inr (compiled, created)"
    by (auto simp: plan_copy_def Let_def)
  then obtain replaced
    where classified: "classify_replace_destination (rd_occupant d) (dp_behavior precondition)
      (rp_inode_id resolved) (rd_path d) = Inr replaced"
    by (auto simp: plan_copy_into_def Let_def)
  from into show ?thesis unfolding plan_copy_into_def Let_def classified rbind.simps
    by (cases replaced) (auto simp: compiled_ok_def compiled_new_def intro: draws_none draws_single)
qed

lemma plan_delete_ok:
  assumes ok: "view_ok (pv_metadata (os_view os)) m"
    and planned: "plan_delete env os target expected behavior = Inr compiled"
  shows "\<forall>op1\<in>set (co_ops compiled). op_creates op1 = [] \<and> op_source_is_target op1"
proof -
  from planned obtain t :: resolved_target and b where b: "source_binding (os_view os) (rt_resolved t) = Inr b"
    and compiled: "compiled = compiled_new [case rp_inode_kind (rt_resolved t) of
        File \<Rightarrow> DeleteFile (rp_inode_id (rt_resolved t)) b
      | Directory \<Rightarrow> DeleteSubtree (rp_inode_id (rt_resolved t)) b (behavior \<noteq> Recursive)]"
    unfolding plan_delete_def Let_def by (elim rbind_InrE) (rule that, assumption, simp)
  from source_binding_child [OF ok b] show ?thesis
    by (cases "rp_inode_kind (rt_resolved t)") (simp_all add: compiled compiled_new_def)
qed

lemma replaced_operations_ok:
  assumes "view_ok (pv_metadata v) m" "replaced_operations env v source d replaced expected = Inr ops"
  shows "\<forall>op1\<in>set ops. op_creates op1 = [] \<and> op_source_is_target op1"
  using assms(2) source_binding_child [OF assms(1)]
  by (auto simp: replaced_operations_def split: replace_destination.split_asm)

lemma plan_move_ok:
  assumes ok: "view_ok (pv_metadata (os_view os)) m"
    and planned: "plan_move env os source expected destination precondition = Inr compiled"
  shows "\<forall>op1\<in>set (co_ops compiled). op_creates op1 = [] \<and> op_source_is_target op1"
proof -
  from planned obtain resolved d expected_destination
    where "plan_rename env os resolved d precondition expected_destination = Inr compiled"
    unfolding plan_move_def Let_def by (elim rbind_InrE)
  then obtain replaced b ops
    where b: "source_binding (os_view os) resolved = Inr b"
      and ops: "replaced_operations env (os_view os) resolved d replaced expected_destination = Inr ops"
      and compiled: "compiled = compiled_new (ops @ [Rename (rp_inode_id resolved) b
        (rd_parent_inode_id d) (rd_name d)])"
    by (auto simp: plan_rename_def Let_def)
  from replaced_operations_ok [OF ok ops] source_binding_child [OF ok b] show ?thesis
    by (auto simp: compiled compiled_new_def)
qed

lemma plan_undelete_ok:
  assumes "plan_undelete env os inode_id deletion_seq destination = Inr compiled"
  shows "\<forall>op1\<in>set (co_ops compiled). op_creates op1 = [] \<and> op_source_is_target op1"
proof -
  from assms obtain deletion
    where found: "view_recoverable_deletion (pv_metadata (os_view os)) inode_id = Inr deletion"
    by (auto simp: plan_undelete_def Let_def)
  show ?thesis
  proof (cases "map_option tb_action deletion")
    case None
    with assms show ?thesis by (auto simp: plan_undelete_def Let_def found)
  next
    case (Some action)
    with assms show ?thesis
      by (cases action) (auto simp: plan_undelete_def Let_def found compiled_new_def)
  qed
qed

lemmas simple_planner_defs =
  plan_put_file_revision_by_inode_def plan_append_def plan_restore_revision_def
  plan_update_attributes_def plan_update_access_def update_access_def compiled_new_def Let_def

lemma plan_ok_compiled:
  assumes "view_ok (pv_metadata (os_view os)) m" "plan env os operation = Inr (compiled, created)"
  shows "compiled_ok env os compiled created"
proof (cases operation)
  case (FsDeletePath path behavior expected)
  with assms show ?thesis by (auto intro!: creates_none_ok [of os] dest: plan_delete_ok)
next
  case (FsDeleteByInode i expected behavior)
  with assms show ?thesis by (auto intro!: creates_none_ok [of os] dest: plan_delete_ok)
next
  case (FsMovePath source destination precondition)
  with assms show ?thesis by (auto intro!: creates_none_ok [of os] dest: plan_move_ok)
next
  case (FsMoveByInode i expected parent name precondition)
  with assms show ?thesis by (auto intro!: creates_none_ok [of os] dest: plan_move_ok)
next
  case (FsUndelete i seq destination)
  with assms show ?thesis by (auto intro!: creates_none_ok [of os] dest: plan_undelete_ok)
next
  case (FsCreateDirectory path parents)
  with assms show ?thesis by (auto intro: plan_create_directory_ok)
next
  case (FsPutFile path content behavior expected revision)
  with assms show ?thesis by (auto intro: plan_put_file_content_ref_ok)
next
  case (FsCopyPath source destination precondition)
  with assms show ?thesis by (auto intro: plan_copy_ok)
next
  case (FsCopyByInode i parent name precondition)
  with assms show ?thesis by (auto intro: plan_copy_ok)
next
  case (FsCreateDirectoryByInode parent name)
  with assms show ?thesis by (auto intro: plan_create_ok)
next
  case (FsCreateFileByInode parent name content)
  with assms show ?thesis by (auto intro: plan_create_ok)
qed (use assms in \<open>auto intro!: creates_none_ok [of os] simp: simple_planner_defs\<close>)

end
