(* ===== verification/Session_Safety.thy ===== *)
theory Session_Safety
  imports Planning_Safety
begin

text \<open>
  A publish session plans one candidate after the other, each against the rows of the ones
  it has accepted.  \<open>publish_ok\<close> is what holds between two candidates; planning and accepting
  a candidate keeps it, and the namespace at the session's head moves by the plan's deltas.
\<close>

section \<open>From one commit to the next\<close>

text \<open>Rows below a sequence stand for the same namespace at every later one.\<close>

lemma core_tree_later:
  assumes "\<forall>row\<in>set binds. db_committed_seq row \<le> s" "\<forall>row\<in>set tombstones. tb_committed_seq row \<le> s"
    and "\<forall>row\<in>set inodes. ir_committed_seq row \<le> s" "s \<le> s'"
  shows "core_tree inodes binds tombstones s' = core_tree inodes binds tombstones s"
proof -
  have le: "\<And>row. row \<in> set binds \<Longrightarrow> db_committed_seq row \<le> s' \<and> db_committed_seq row \<le> s"
    "\<And>row. row \<in> set tombstones \<Longrightarrow> tb_committed_seq row \<le> s' \<and> tb_committed_seq row \<le> s"
    "\<And>row. row \<in> set inodes \<Longrightarrow> ir_committed_seq row \<le> s' \<and> ir_committed_seq row \<le> s"
    using assms by (auto intro: order_trans)
  have "bound_child_at_seq_scan binds p n s' = bound_child_at_seq_scan binds p n s" for p n
    unfolding bound_child_at_seq_scan_def using le(1)
    by (intro arg_cong [of _ _ "max_by_key db_position"] filter_cong) auto
  moreover have "latest_parent_binding_for_child_at_seq binds c s' =
      latest_parent_binding_for_child_at_seq binds c s" for c
    unfolding latest_parent_binding_for_child_at_seq_def using le(1)
    by (intro arg_cong [of _ _ "max_by_key db_position"] filter_cong) auto
  moreover have "hiding_subtree_tombstone_scan tombstones r s' = hiding_subtree_tombstone_scan tombstones r s" for r
  proof -
    have "filter (\<lambda>row. tb_committed_seq row \<le> s') (filter (\<lambda>row. tb_root_inode_id row = r) tombstones) =
        filter (\<lambda>row. tb_committed_seq row \<le> s) (filter (\<lambda>row. tb_root_inode_id row = r) tombstones)"
      using le(2) by (intro filter_cong) auto
    then show ?thesis by (simp add: hiding_subtree_tombstone_scan_def hiding_tombstone_from_records_def
        newest_tombstone_from_records_def)
  qed
  moreover have "inode_at_seq_scan inodes i s' = inode_at_seq_scan inodes i s" for i
    unfolding inode_at_seq_scan_def using le(3) by (intro find_cong) auto
  ultimately show ?thesis by (simp add: core_tree_def row_slot_def row_parent_def)
qed

lemma history_seqs:
  assumes "history_below binds tombstones (DeltaPosition s di)"
  shows "\<forall>row\<in>set binds. db_committed_seq row \<le> s" "\<forall>row\<in>set tombstones. tb_committed_seq row \<le> s"
  using assms by (auto simp: history_below_def intro: below_seq)

definition tail_started :: "metadata_view \<Rightarrow> change_seq \<Rightarrow> bool" where
  "tail_started view s \<longleftrightarrow>
     (\<forall>tail. mv_wal_tail view = Some tail \<longrightarrow> (\<forall>chunk\<in>set (wt_chunks tail). tc_first_seq chunk \<le> s))"

lemma tail_started_later: "tail_started view s \<Longrightarrow> s \<le> s' \<Longrightarrow> tail_started view s'"
  unfolding tail_started_def by (blast intro: order_trans)

lemma durable_started:
  assumes "tail_started view s" "s \<le> mv_visible_seq v" "mv_wal_tail v = mv_wal_tail view"
  shows "durable_row_states v =
    (case mv_wal_tail view of None \<Rightarrow> [] | Some tail \<Rightarrow> map tc_rows (rev (wt_chunks tail)))"
proof (cases "mv_wal_tail view")
  case (Some tail)
  have "filter (\<lambda>chunk. tc_first_seq chunk \<le> mv_visible_seq v) (rev (wt_chunks tail)) = rev (wt_chunks tail)"
    using assms(1,2) Some by (auto simp: tail_started_def intro!: filter_True intro: order_trans)
  with Some assms(3) show ?thesis by (simp add: durable_row_states_def tail_row_states_def)
qed (use assms(3) in \<open>simp add: durable_row_states_def\<close>)

definition rows_follow :: "metadata_state \<Rightarrow> metadata_state \<Rightarrow> metadata_state \<Rightarrow> bool" where
  "rows_follow st older newer \<longleftrightarrow>
     ms_inodes st = ms_inodes older @ ms_inodes newer \<and>
     ms_direntry_binds st = ms_direntry_binds older @ ms_direntry_binds newer \<and>
     ms_revisions st = ms_revisions older @ ms_revisions newer \<and>
     ms_subtree_tombstones st = ms_subtree_tombstones older @ ms_subtree_tombstones newer"

abbreviation flats_eq :: "metadata_view \<Rightarrow> metadata_view \<Rightarrow> metadata_state \<Rightarrow> bool" where
  "flats_eq v w m \<equiv>
     flat ms_inodes v m = flat ms_inodes w m \<and>
     flat ms_direntry_binds v m = flat ms_direntry_binds w m \<and>
     flat ms_revisions v m = flat ms_revisions w m \<and>
     flat ms_subtree_tombstones v m = flat ms_subtree_tombstones w m"

text \<open>The rows of a session, whether still in its overlay or already among the accepted ones.\<close>

lemma accepted_flats:
  assumes "tail_started (vs_base_view vs) s" "s \<le> vs_committed_seq vs" "s \<le> s'"
    and "rows_follow accepted (vs_batch_accepted vs) (vs_overlay vs)"
  shows "flats_eq (session_view (session_new (vs_base_view vs) accepted s' cid actor ms)) (session_view vs) m"
    and "flats_eq (with_overlay (vs_base_view vs) None accepted s') (session_view vs) m"
proof -
  let ?v = "session_view (session_new (vs_base_view vs) accepted s' cid actor ms)"
  let ?w = "with_overlay (vs_base_view vs) None accepted s'"
  have sel: "mv_wal_tail ?v = mv_wal_tail (vs_base_view vs)" "mv_visible_seq ?v = s'"
    "mv_wal_tail ?w = mv_wal_tail (vs_base_view vs)" "mv_visible_seq ?w = s'"
    "mv_wal_tail (session_view vs) = mv_wal_tail (vs_base_view vs)"
    "overlay_states ?v = [default_state, accepted]" "overlay_states ?w = [accepted]"
    "overlay_states (session_view vs) = [vs_overlay vs, vs_batch_accepted vs]"
    by (simp_all add: session_view_def session_new_def with_overlay_def overlay_states_def)
  have durable: "durable_row_states ?v = durable_row_states (session_view vs)"
    "durable_row_states ?w = durable_row_states (session_view vs)"
    using durable_started [OF assms(1), of ?v] durable_started [OF assms(1), of ?w]
      durable_started [OF assms(1), of "session_view vs"] assms(2,3) sel by simp_all
  show "flats_eq ?v (session_view vs) m" "flats_eq ?w (session_view vs) m"
    using assms(4) by (simp_all add: flat_def view_row_states_def sel durable rows_follow_def)
qed

lemma next_session_ok:
  fixes cid actor ms
  assumes ok: "session_ok vs m" and started: "tail_started (vs_base_view vs) s" "s \<le> vs_committed_seq vs"
    and later: "vs_committed_seq vs < s'"
    and rows: "rows_follow accepted (vs_batch_accepted vs) (vs_overlay vs)" "indexes_ok accepted"
  defines "vs' \<equiv> session_new (vs_base_view vs) accepted s' cid actor ms"
  shows "session_ok vs' m \<and> view_tree (session_view vs') m = view_tree (session_view vs) m"
proof -
  have le: "s \<le> s'" using started(2) later by simp
  note flats = accepted_flats(1) [OF started le rows(1), of cid actor ms m, folded vs'_def]
  from ok have old: "session_rows_ok vs m" "tree_inv (view_tree (session_view vs) m)" "kinds_ok (session_view vs) m"
    by (simp_all add: session_ok_def)
  have seq: "vs_committed_seq vs' = s'" "next_position vs' = DeltaPosition s' 0"
    by (simp_all add: vs'_def session_new_def next_position_def default_numbering_def)
  have pos: "next_position vs = DeltaPosition (vs_committed_seq vs) (cn_next_delta_index (vs_numbering vs))"
    by (simp add: next_position_def)
  have below: "p < next_position vs \<Longrightarrow> p < next_position vs'" for p
    using later unfolding seq pos by (cases p) auto
  have inodes: "\<forall>row\<in>set (flat ms_inodes (session_view vs) m). ir_committed_seq row \<le> vs_committed_seq vs"
    using old(1) by (simp add: session_rows_ok_def)
  have hist: "history_below (flat ms_direntry_binds (session_view vs) m)
      (flat ms_subtree_tombstones (session_view vs) m) (next_position vs)"
    using old(1) by (simp add: session_rows_ok_def)
  have tree: "view_tree (session_view vs') m = view_tree (session_view vs) m"
    unfolding view_tree_def using flats seq
      core_tree_later [OF history_seqs [OF hist [unfolded pos]] inodes order_less_imp_le [OF later]] by simp
  have states: "set (view_row_states (session_view vs')) \<subseteq>
      {default_state, accepted} \<union> set (view_row_states (session_view vs))"
    using durable_started [OF started(1), of "session_view vs'"]
      durable_started [OF started(1), of "session_view vs"] started(2) le
    by (auto simp: view_row_states_def overlay_states_def session_view_def with_overlay_def vs'_def session_new_def)
  have view: "view_ok (session_view vs) m" using old(1) by (simp add: session_rows_ok_def)
  then have "\<forall>st\<in>set (view_row_states (session_view vs')). indexes_ok st"
    using states rows(2) default_state_ok by (auto simp: view_ok_def)
  moreover have "mv_manifest (session_view vs') = mv_manifest (session_view vs)"
    by (simp add: vs'_def session_view_def session_new_def with_overlay_def)
  ultimately have "view_ok (session_view vs') m" using view flats by (simp add: view_ok_def)
  moreover have "history_below (flat ms_direntry_binds (session_view vs') m)
      (flat ms_subtree_tombstones (session_view vs') m) (next_position vs')"
    using hist below flats by (auto simp: history_below_def)
  moreover have "\<forall>row\<in>set (flat ms_inodes (session_view vs') m). ir_committed_seq row \<le> vs_committed_seq vs'"
    using inodes later flats seq by auto
  ultimately have "session_rows_ok vs' m"
    using old(1) below flats by (auto simp: session_rows_ok_def)
  with old tree flats show ?thesis by (simp add: session_ok_def kinds_ok_def)
qed

section \<open>Planning the operations of a commit\<close>

text \<open>No id that a source may still give names an inode of the namespace.\<close>

fun ids_fresh :: "planner_env \<Rightarrow> change_seq \<Rightarrow> created_inode_ids \<Rightarrow> tree \<Rightarrow> bool" where
  "ids_fresh env s (Generated n) t \<longleftrightarrow> (\<forall>k. n \<le> k \<longrightarrow> t_kind t (drawn_id env s k) = None)"
| "ids_fresh env s (MergeAssigned assigned) t \<longleftrightarrow> (\<forall>i. assigned = Some i \<longrightarrow> t_kind t i = None)"

lemma compiled_plan_ok:
  assumes "compiled_ok env os compiled created" "ids_fresh env (os_committed_seq os) (os_created_inode_ids os) t"
  shows "plan_ok t (co_ops compiled)"
proof -
  define ids where "ids = concat (map op_creates (co_ops compiled))"
  from assms(1) have drawn: "draws env (os_committed_seq os) (os_created_inode_ids os) created ids"
    and sources: "\<forall>op1\<in>set (co_ops compiled). op_source_is_target op1"
    by (simp_all add: compiled_ok_def ids_def)
  have "distinct ids \<and> (\<forall>i\<in>set ids. t_kind t i = None)"
  proof (cases "os_created_inode_ids os")
    case (Generated n)
    with assms(2) draws_generated [OF drawn Generated] show ?thesis by fastforce
  next
    case (MergeAssigned assigned)
    from draws_merge [OF drawn MergeAssigned] obtain b where "ids @ option_list b = option_list assigned"
      by blast
    with assms(2) MergeAssigned show ?thesis by (cases assigned) (auto simp: append_eq_Cons_conv)
  qed
  with sources show ?thesis unfolding plan_ok_def ids_def [symmetric] by blast
qed

text \<open>The numbers of a commit stay fresh: those drawn are not drawn again.\<close>

lemma generated_stay_fresh:
  assumes "compiled_ok env os compiled created" "os_created_inode_ids os = Generated n"
    and "ids_fresh env (os_committed_seq os) (Generated n) t"
    and "concat (map delta_creates ds) = concat (map op_creates (co_ops compiled))"
  shows "ids_fresh env (os_committed_seq os) (Generated (create_no_after n created)) (fold (tree_step s) ds t)"
proof -
  let ?ids = "concat (map op_creates (co_ops compiled))" and ?seq = "os_committed_seq os"
  from assms(1) have "draws env ?seq (os_created_inode_ids os) created ?ids" by (simp add: compiled_ok_def)
  from draws_generated [OF this assms(2)] obtain n' where n': "created = Generated n'" "n \<le> n'"
    and ids: "\<forall>i\<in>set ?ids. \<exists>k. n \<le> k \<and> k < n' \<and> i = drawn_id env ?seq k" by blast
  have "t_kind (fold (tree_step s) ds t) (drawn_id env ?seq k) = None" if "n' \<le> k" for k
  proof -
    have "drawn_id env ?seq k \<notin> set ?ids"
    proof
      assume "drawn_id env ?seq k \<in> set ?ids"
      with ids obtain k' where "k' < n'" "drawn_id env ?seq k = drawn_id env ?seq k'" by blast
      with that show False by simp
    qed
    moreover have "t_kind t (drawn_id env ?seq k) = None" using assms(3) n'(2) that by auto
    ultimately show ?thesis using kind_after [of "drawn_id env ?seq k" ds s t] unfolding assms(4) by simp
  qed
  then show ?thesis by (simp add: n'(1))
qed

lemma merged_inode_fresh:
  assumes "session_ok vs m" "ensure_merged_inode_is_new (session_view vs) i = Inr ()"
  shows "t_kind (view_tree (session_view vs) m) i = None"
proof -
  from assms(2) have "view_inode_at_seq (session_view vs) i = Inr None"
    by (auto simp: ensure_merged_inode_is_new_def)
  from view_inode_scan [OF session_okD(1) [OF assms(1)] this] show ?thesis
    by (simp add: view_tree_def core_tree_def)
qed

lemma validate_step_creates:
  "validate_step u hvc rl vs op1 = Inr (wds, vs') \<Longrightarrow>
    concat (map delta_creates (map wd_delta wds)) = op_creates op1"
  by (auto simp: validate_step_def Let_def comp_def dest: validate_operation_creates)

lemma validate_ops_creates:
  "validate_ops u hvc rl vs ops = Inr (wds, vs') \<Longrightarrow>
    concat (map delta_creates (map wd_delta wds)) = concat (map op_creates ops)"
proof (induction ops arbitrary: vs wds)
  case (Cons op1 ops)
  from Cons.prems obtain wds1 vs1 wds2 where step: "validate_step u hvc rl vs op1 = Inr (wds1, vs1)"
    and rest: "validate_ops u hvc rl vs1 ops = Inr (wds2, vs')" and wds: "wds = wds1 @ wds2"
    by auto
  from validate_step_creates [OF step] Cons.IH [OF rest] show ?case by (simp add: wds)
qed simp

text \<open>What holds between two operations of a request.\<close>

definition planning_ok :: "planner_env \<Rightarrow> commit_candidate \<Rightarrow> change_seq \<Rightarrow> commit_planning \<Rightarrow> metadata_state \<Rightarrow> bool" where
  "planning_ok env candidate s pg m \<longleftrightarrow>
     session_ok (pg_validation pg) m \<and> vs_committed_seq (pg_validation pg) = s \<and>
     (cc_merge candidate = None \<longrightarrow>
        ids_fresh env s (Generated (pg_next_create_no pg)) (view_tree (session_view (pg_validation pg)) m))"

definition planning_step :: "change_seq \<Rightarrow> commit_planning \<Rightarrow> commit_planning \<Rightarrow> wal_delta list \<Rightarrow> metadata_state \<Rightarrow> bool" where
  "planning_step s pg pg' ds m \<longleftrightarrow>
     map wd_delta (pg_deltas pg') = map wd_delta (pg_deltas pg) @ ds \<and>
     tree_run s (view_tree (session_view (pg_validation pg)) m) ds \<and>
     view_tree (session_view (pg_validation pg')) m =
       fold (tree_step s) ds (view_tree (session_view (pg_validation pg)) m) \<and>
     numbered (cn_next_delta_index (vs_numbering (pg_validation pg))) ds
       (cn_next_delta_index (vs_numbering (pg_validation pg')))"

lemma created_ids_fresh:
  assumes "planning_ok env candidate s pg m" "created_ids_for candidate index pg = Inr created"
  shows "ids_fresh env s created (view_tree (session_view (pg_validation pg)) m)"
  using assms merged_inode_fresh [of "pg_validation pg" m]
  by (auto simp: planning_ok_def created_ids_for_def split: option.split_asm)

lemma plan_operation_ok:
  assumes ok: "planning_ok env candidate s pg m"
    and planned: "plan_operation env ps candidate authorizer s index operation pg = Inr pg'"
  shows "planning_ok env candidate s pg' m \<and> (\<exists>ds. planning_step s pg pg' ds m)"
proof -
  let ?vs = "pg_validation pg" and ?t = "view_tree (session_view (pg_validation pg)) m"
  from planned obtain created0 where ids0: "created_ids_for candidate index pg = Inr created0"
    by (auto simp: plan_operation_def)
  define os where "os = \<lparr> os_view = session_planning_view ps authorizer (session_view ?vs),
    os_content = commit_content ps (pg_pieces pg), os_committed_seq = s,
    os_operation_index = index, os_created_inode_ids = created0,
    os_temporary_move = Option.bind (cc_merge candidate) (\<lambda>merge. mg_temporary_moves merge index) \<rparr>"
  have os: "pv_metadata (os_view os) = session_view ?vs" "os_committed_seq os = s"
    and ids: "created_ids_for candidate index pg = Inr (os_created_inode_ids os)"
    by (simp_all add: os_def session_planning_view_def ids0)
  from planned obtain compiled created rl wds vs'
    where compiled: "plan env os operation = Inr (compiled, created)"
      and valid: "validate_ops (en_unicode env) (en_has_visible_children env) rl ?vs (co_ops compiled) =
        Inr (wds, vs')"
      and pg': "pg_validation pg' = vs'" "pg_deltas pg' = pg_deltas pg @ wds"
        "pg_next_create_no pg' = create_no_after (pg_next_create_no pg) created"
    unfolding plan_operation_def ids0 rbind.simps Let_def os_def [symmetric] by auto
  have sok: "session_ok ?vs m" and seq: "vs_committed_seq ?vs = s" using ok by (simp_all add: planning_ok_def)
  have cok: "compiled_ok env os compiled created"
    using plan_ok_compiled [OF _ compiled, of m] session_okD(1) [OF sok] os by simp
  have "plan_ok ?t (co_ops compiled)"
    using compiled_plan_ok [OF cok] created_ids_fresh [OF ok ids] os by simp
  note step = validate_ops_ok [OF sok this valid, unfolded seq]
  have "ids_fresh env s (Generated (pg_next_create_no pg')) (view_tree (session_view vs') m)"
    if none: "cc_merge candidate = None"
  proof -
    have "os_created_inode_ids os = Generated (pg_next_create_no pg)"
      using ids none by (simp add: created_ids_for_def)
    from generated_stay_fresh [OF cok this _ validate_ops_creates [OF valid], of ?t s] ok none step
    show ?thesis by (simp add: planning_ok_def os pg')
  qed
  with step have "planning_ok env candidate s pg' m" by (simp add: planning_ok_def pg')
  moreover from step have "planning_step s pg pg' (map wd_delta wds) m" by (simp add: planning_step_def pg')
  ultimately show ?thesis by blast
qed

lemma planning_step_trans:
  "planning_step s pg pg1 ds m \<Longrightarrow> planning_step s pg1 pg2 ds' m \<Longrightarrow> planning_step s pg pg2 (ds @ ds') m"
  by (auto simp: planning_step_def tree_run_append intro: numbered_append)

lemma plan_operations_ok:
  "plan_operations env ps candidate authorizer s index operations pg = Inr pg' \<Longrightarrow>
    planning_ok env candidate s pg m \<Longrightarrow>
    planning_ok env candidate s pg' m \<and> (\<exists>ds. planning_step s pg pg' ds m)"
proof (induction operations arbitrary: index pg)
  case Nil
  then show ?case by (auto simp: planning_step_def intro!: exI [of _ "[]"])
next
  case (Cons operation operations)
  from Cons.prems(1) obtain pg1
    where first: "plan_operation env ps candidate authorizer s index operation pg = Inr pg1"
      and rest: "plan_operations env ps candidate authorizer s (index + 1) operations pg1 = Inr pg'"
    by auto
  note step = plan_operation_ok [OF Cons.prems(2) first]
  from Cons.IH [OF rest] step show ?case by (blast intro: planning_step_trans)
qed

section \<open>Accepting a planned commit\<close>

text \<open>Layouts are no part of the namespace.\<close>

lemma carry_revision_layouts_same:
  "carry_revision_layouts env view before content offsets seen wds = Inr wds' \<Longrightarrow>
    numbered i (map wd_delta wds') j = numbered i (map wd_delta wds) j \<and>
    tree_run s t (map wd_delta wds') = tree_run s t (map wd_delta wds) \<and>
    fold (tree_step s) (map wd_delta wds') t = fold (tree_step s) (map wd_delta wds) t"
proof (induction wds arbitrary: seen wds' i t)
  case (Cons wd wds)
  show ?case
  proof (cases "wd_delta wd")
    case (AppendFileRevision di f p n d b by1 ms rn cr ly off)
    with Cons.prems obtain seen' ly' rest
      where rest: "carry_revision_layouts env view before content offsets seen' wds = Inr rest"
        and wds': "wds' = wd \<lparr> wd_delta := AppendFileRevision di f p n d b by1 ms rn cr ly' off \<rparr> # rest"
      by (auto simp: Let_def)
    from Cons.IH [OF rest] show ?thesis by (simp add: wds' AppendFileRevision)
  qed (use Cons.prems Cons.IH [of seen] in auto)
qed simp

text \<open>The rows a record appends are those its deltas append.\<close>

lemma record_rows_follow:
  assumes "vs_committed_seq vs = wc_committed_seq payload" "vs_commit_id vs = wc_commit_id payload"
    "vs_actor_id vs = wc_committed_by payload" "vs_committed_at_ms vs = wc_committed_at_ms payload"
    "vs_overlay vs = default_state"
  shows "rows_follow (apply_committed_wal_record payload st) st
    (overlay_deltas (map wd_delta (wc_deltas payload)) vs)"
proof -
  let ?app = "\<lambda>d. apply_committed_wal_delta (wc_committed_seq payload) (wc_commit_id payload)
      (wc_committed_by payload) (wc_committed_at_ms payload) (wd_delta d)"
  have overlay: "overlay_deltas (map wd_delta (wc_deltas payload)) vs = fold ?app (wc_deltas payload) default_state"
    by (simp add: overlay_deltas_def assms foldl_conv_fold fold_map comp_def)
  have recorded: "sel (apply_committed_wal_record payload st) = sel st @ sel (fold ?app (wc_deltas payload) default_state)"
    if rows: "row_selector sel"
      and finish: "\<And>st c r. sel (push_commit_receipt_record r (push_commit_record c st)) = sel st"
    for sel :: "metadata_state \<Rightarrow> 'a list"
  proof -
    have "sel (apply_committed_wal_record payload default_state) = sel (fold ?app (wc_deltas payload) default_state)"
      by (simp add: apply_committed_wal_record_def Let_def finish)
    with rows show ?thesis unfolding row_selector_def by metis
  qed
  show ?thesis unfolding rows_follow_def overlay
    by (intro conjI recorded row_selectors) simp_all
qed

definition head_tree :: "publish_session \<Rightarrow> metadata_state \<Rightarrow> tree" where
  "head_tree ps m = view_tree (session_pre_state ps) m"

text \<open>
  What holds between two candidates: the tail's chunks and the rows lie at or below the
  head, and the rows are ready for a commit at the next sequence.
\<close>

definition publish_ok :: "publish_session \<Rightarrow> metadata_state \<Rightarrow> bool" where
  "publish_ok ps m \<longleftrightarrow>
     tail_started (ps_base_view ps) (ns_seq (ps_head ps)) \<and> indexes_ok (ps_accepted_rows ps) \<and>
     (\<forall>row\<in>set (flat ms_inodes (session_pre_state ps) m). ir_committed_seq row \<le> ns_seq (ps_head ps)) \<and>
     (\<forall>s. next_public_ordinal (ns_seq (ps_head ps)) = Some s \<longrightarrow>
        session_ok (session_new (ps_base_view ps) (ps_accepted_rows ps) s [] [] 0) m)"

text \<open>The ids the next commit may draw are new: the random half of an id does not repeat.\<close>

definition draws_fresh :: "planner_env \<Rightarrow> publish_session \<Rightarrow> metadata_state \<Rightarrow> bool" where
  "draws_fresh env ps m \<longleftrightarrow>
     (\<forall>s. next_public_ordinal (ns_seq (ps_head ps)) = Some s \<longrightarrow> ids_fresh env s (Generated 1) (head_tree ps m))"

lemma next_ordinal_above:
  "next_public_ordinal n = Some s \<Longrightarrow> s = n + 1 \<and> n < s"
  using checked_add_one_less [of n]
  by (auto simp: next_public_ordinal_def checked_add_def split: if_splits)

lemma session_new_ok:
  "session_ok (session_new base accepted s cid actor ms) m = session_ok (session_new base accepted s [] [] 0) m"
  "session_view (session_new base accepted s cid actor ms) = session_view (session_new base accepted s [] [] 0)"
  by (simp_all add: session_ok_def session_rows_ok_def session_view_def session_new_def next_position_def)

lemma head_tree_next:
  assumes "publish_ok ps m" "next_public_ordinal (ns_seq (ps_head ps)) = Some s"
  shows "view_tree (session_view (session_new (ps_base_view ps) (ps_accepted_rows ps) s cid actor ms)) m =
    head_tree ps m"
proof -
  let ?vs = "session_new (ps_base_view ps) (ps_accepted_rows ps) s cid actor ms" and ?head = "ns_seq (ps_head ps)"
  have s: "s = ?head + 1" "?head < s" using next_ordinal_above [OF assms(2)] by blast+
  have sel: "vs_base_view ?vs = ps_base_view ps" "vs_committed_seq ?vs = s"
    "vs_batch_accepted ?vs = ps_accepted_rows ps" "vs_overlay ?vs = default_state"
    by (simp_all add: session_new_def)
  have flats: "flats_eq (session_pre_state ps) (session_view ?vs) m"
    unfolding session_pre_state_def
    using accepted_flats(2) [of ?vs ?head ?head "ps_accepted_rows ps" m] assms(1) s(2)
    by (simp add: sel publish_ok_def rows_follow_def)
  have "session_ok ?vs m" using assms by (simp add: publish_ok_def session_new_ok(1) [of _ _ _ cid actor ms])
  then have hist: "history_below (flat ms_direntry_binds (session_view ?vs) m)
      (flat ms_subtree_tombstones (session_view ?vs) m) (DeltaPosition s 0)"
    using session_okD(3) [of ?vs m] by (simp add: next_position_def session_new_def default_numbering_def)
  have lower: "x < s \<Longrightarrow> x \<le> ?head" for x
    using s by (metis inc_le linorder_not_less)
  have "\<forall>row\<in>set (flat ms_direntry_binds (session_view ?vs) m). db_committed_seq row \<le> ?head"
    "\<forall>row\<in>set (flat ms_subtree_tombstones (session_view ?vs) m). tb_committed_seq row \<le> ?head"
    using hist lower by (auto simp: history_below_def db_position_def tb_position_def)
  moreover have "\<forall>row\<in>set (flat ms_inodes (session_view ?vs) m). ir_committed_seq row \<le> ?head"
    using assms(1) flats by (simp add: publish_ok_def)
  ultimately show ?thesis
    using core_tree_later [of _ ?head _ _ s] s(2) flats
    by (simp add: head_tree_def view_tree_def sel session_pre_state_def with_overlay_def)
qed

lemma plan_commit_ok:
  assumes ok: "publish_ok ps m" and fresh: "draws_fresh env ps m"
    and planned: "plan_commit env ps candidate authorizer fingerprint pre = Inr cp"
  defines "s \<equiv> pl_assigned_seq cp" and "ds \<equiv> map wd_delta (pl_deltas cp)"
  shows "next_public_ordinal (ns_seq (ps_head ps)) = Some s \<and> tree_run s (head_tree ps m) ds \<and>
    (\<exists>j. numbered 0 ds j) \<and> pl_committed_at_ms cp = ps_committed_at_ms ps"
proof -
  from planned obtain pieces pg content offsets
    where s: "next_public_ordinal (ns_seq (ps_head ps)) = Some s"
      and ops: "plan_operations env ps candidate authorizer s 0 (ci_operations (cc_intent candidate))
        \<lparr> pg_validation = session_new (ps_base_view ps) (ps_accepted_rows ps) s
            (ci_commit_id (cc_intent candidate)) (ci_actor_id (cc_intent candidate)) (ps_committed_at_ms ps),
          pg_deltas = [], pg_appended = [], pg_pieces = pieces, pg_next_create_no = 1 \<rparr> = Inr pg"
      and carried: "carry_revision_layouts env (session_view (pg_validation pg)) pre content offsets []
        (pg_deltas pg) = Inr (pl_deltas cp)"
      and at: "pl_committed_at_ms cp = ps_committed_at_ms ps"
    unfolding plan_commit_def Let_def s_def by (auto simp del: fold_simps)
  let ?vs = "session_new (ps_base_view ps) (ps_accepted_rows ps) s
    (ci_commit_id (cc_intent candidate)) (ci_actor_id (cc_intent candidate)) (ps_committed_at_ms ps)"
  have new: "vs_committed_seq ?vs = s" "cn_next_delta_index (vs_numbering ?vs) = 0"
    by (simp_all add: session_new_def default_numbering_def)
  note tree = head_tree_next [OF ok s]
  have "session_ok ?vs m"
    using ok s unfolding publish_ok_def by (subst session_new_ok(1)) blast
  with fresh s new have "planning_ok env candidate s \<lparr> pg_validation = ?vs, pg_deltas = [], pg_appended = [],
      pg_pieces = pieces, pg_next_create_no = 1 \<rparr> m"
    by (simp add: planning_ok_def tree draws_fresh_def)
  from plan_operations_ok [OF ops this] have "tree_run s (head_tree ps m) (map wd_delta (pg_deltas pg)) \<and>
      (\<exists>j. numbered 0 (map wd_delta (pg_deltas pg)) j)"
    by (auto simp: planning_step_def tree new)
  with carry_revision_layouts_same [OF carried] s at show ?thesis by (simp add: ds_def)
qed

lemma plan_commit_ids:
  "plan_commit env ps candidate authorizer fingerprint pre = Inr cp \<Longrightarrow>
    pl_apply_after_seq cp = ns_seq (ps_head ps)"
  by (auto simp: plan_commit_def Let_def)

lemma accepted_commit_ok:
  assumes ok: "publish_ok ps m"
    and s: "next_public_ordinal (ns_seq (ps_head ps)) = Some (pl_assigned_seq cp)"
    and run: "tree_run (pl_assigned_seq cp) (head_tree ps m) (map wd_delta (pl_deltas cp))"
    and num: "numbered 0 (map wd_delta (pl_deltas cp)) j"
    and accepted: "apply_accepted_commit (wal_payload_from_commit_plan cp) cp ps = Inr ps'"
  shows "publish_ok ps' m \<and>
    head_tree ps' m = fold (tree_step (pl_assigned_seq cp)) (map wd_delta (pl_deltas cp)) (head_tree ps m)"
proof -
  let ?s = "pl_assigned_seq cp" and ?ds = "map wd_delta (pl_deltas cp)" and ?head = "ns_seq (ps_head ps)"
  let ?vs = "session_new (ps_base_view ps) (ps_accepted_rows ps) ?s (pl_commit_id cp) (pl_actor_id cp)
    (pl_committed_at_ms cp)"
  let ?vs1 = "fold session_push ?ds ?vs"
  have less: "?head < ?s" using next_ordinal_above [OF s] by blast
  have new: "vs_committed_seq ?vs = ?s" "cn_next_delta_index (vs_numbering ?vs) = 0"
    "vs_base_view ?vs = ps_base_view ps" "vs_batch_accepted ?vs = ps_accepted_rows ps"
    by (simp_all add: session_new_def default_numbering_def)
  have ps': "ps_base_view ps' = ps_base_view ps" "ns_seq (ps_head ps') = ?s"
    "ps_accepted_rows ps' = apply_committed_wal_record (wal_payload_from_commit_plan cp) (ps_accepted_rows ps)"
    using accepted by (auto simp: apply_accepted_commit_def)
  note tree = head_tree_next [OF ok s]
  have "session_ok ?vs m" using ok s unfolding publish_ok_def by (subst session_new_ok(1)) blast
  from session_pushes_ok [OF this, of ?ds j, unfolded new tree] run num
  have pushed: "session_ok ?vs1 m" "view_tree (session_view ?vs1) m = fold (tree_step ?s) ?ds (head_tree ps m)"
    by simp_all
  have vs1: "vs_base_view ?vs1 = ps_base_view ps" "vs_committed_seq ?vs1 = ?s"
    "vs_batch_accepted ?vs1 = ps_accepted_rows ps" by (simp_all add: fold_session_push new)
  have rows: "rows_follow (ps_accepted_rows ps') (vs_batch_accepted ?vs1) (vs_overlay ?vs1)"
    using record_rows_follow [of ?vs "wal_payload_from_commit_plan cp" "ps_accepted_rows ps"]
    by (simp add: ps' vs1 fold_session_push wal_payload_from_commit_plan_def session_new_def)
  have idx: "indexes_ok (ps_accepted_rows ps')"
    using ok by (simp add: publish_ok_def ps' apply_record_indexes_ok)
  have started: "tail_started (vs_base_view ?vs1) ?head" "tail_started (ps_base_view ps') ?s"
    using ok less by (auto simp: publish_ok_def vs1 ps' intro: tail_started_later)
  have flats: "flats_eq (session_pre_state ps') (session_view ?vs1) m"
    using accepted_flats(2) [OF started(1) _ _ rows, of ?s m] less
    by (simp add: session_pre_state_def ps' vs1)
  have inodes: "\<forall>row\<in>set (flat ms_inodes (session_pre_state ps') m). ir_committed_seq row \<le> ?s"
    using pushed(1) flats by (simp add: session_ok_def session_rows_ok_def vs1)
  have "session_ok (session_new (ps_base_view ps') (ps_accepted_rows ps') s' [] [] 0) m"
    if "next_public_ordinal ?s = Some s'" for s'
  proof -
    from next_ordinal_above [OF that] have "vs_committed_seq ?vs1 < s'" unfolding vs1 by blast
    moreover have "?head \<le> vs_committed_seq ?vs1" using less by (simp add: vs1)
    ultimately show ?thesis
      using next_session_ok [OF pushed(1) started(1) _ _ rows idx, of s' "[]" "[]" 0] unfolding vs1 ps'(1)
      by blast
  qed
  with started(2) idx inodes have "publish_ok ps' m" by (simp add: publish_ok_def ps'(2))
  moreover have "head_tree ps' m = view_tree (session_view ?vs1) m"
    using flats by (simp add: head_tree_def view_tree_def vs1 ps' session_pre_state_def with_overlay_def)
  ultimately show ?thesis using pushed(2) by simp
qed

end
