(* ===== verification/Planning_Guarantees.thy ===== *)
theory Planning_Guarantees
  imports Preconditions Planner Read_Guarantees
begin

text \<open>
  The guarantees of the checks a plan goes through: moves and access updates hand out no
  right the requester could not hand out, attribute updates change what they name and keep
  the limits, preconditions are reported at the first that fails, and the walks of a
  session's reads return.
\<close>

section \<open>Moves\<close>

lemma rights_contains_gains:
  "rights_contains (fold (\<lambda>who gain. if P who then gain else rights_union gain (f who)) named start) r \<longleftrightarrow>
     rights_contains start r \<or> (\<exists>who\<in>set named. \<not> P who \<and> rights_contains (f who) r)"
  by (induction named arbitrary: start) auto

lemma rows_rights_contains:
  "rights_contains (rows_rights rows who) r \<longleftrightarrow>
     r \<noteq> Admin \<and> (\<exists>row\<in>set rows. rights_contains (grants_get (xr_grants row) who) r)"
  by (auto simp: rows_rights_def)

lemma grants_get_named: "rights_contains (grants_get grants who) r \<Longrightarrow> who \<in> set (map fst grants)"
  by (force simp: grants_get_def split: option.split_asm dest: map_of_SomeD)

lemma relocation_gain_contains:
  "rights_contains (relocation_gain root before_rows after_rows) r \<longleftrightarrow>
     (\<exists>who. \<not> is_root_admin root who \<and> rights_contains (rows_rights after_rows who) r \<and>
        \<not> rights_contains (rows_rights before_rows who) r)"
proof -
  have named: "who \<in> set (concat (map (\<lambda>row. map fst (xr_grants row)) (before_rows @ after_rows)))"
    if "rights_contains (rows_rights after_rows who) r" for who
    using that grants_get_named by (fastforce simp: rows_rights_contains)
  have "rights_contains (relocation_gain root before_rows after_rows) r \<longleftrightarrow>
      (\<exists>who\<in>set (concat (map (\<lambda>row. map fst (xr_grants row)) (before_rows @ after_rows))).
        \<not> is_root_admin root who \<and> rights_contains (rows_rights after_rows who) r \<and>
        \<not> rights_contains (rows_rights before_rows who) r)"
    by (simp add: relocation_gain_def Let_def rights_contains_gains)
  with named show ?thesis by blast
qed

lemma set_map_filter_snd: "row \<in> set (List.map_filter snd xs) \<longleftrightarrow> (\<exists>j. (j, Some row) \<in> set xs)"
  by (force simp: List.map_filter_def)

text \<open>What one principal is granted along a chain below an inode's own row.\<close>

lemma chain_rights_rows:
  "rights_contains (chain_rights [who] ((i, own) # chain) EMPTY_RIGHTS) r \<longleftrightarrow>
     rights_contains (rows_rights (option_list own @ List.map_filter snd chain) who) r"
proof -
  have "option_list own @ List.map_filter snd chain = List.map_filter snd ((i, own) # chain)"
    by (cases own) (simp_all add: List.map_filter_def)
  then show ?thesis
    unfolding chain_rights_contains rows_rights_contains by (simp only: Bex_def set_map_filter_snd) auto
qed

text \<open>
  The namespace of the witnesses: \<open>/docs/deep/a.txt\<close> with a boundary at \<open>deep\<close>, where ann may
  read, create, remove and share, below \<open>docs\<close>, where bob may read.
\<close>

definition guarded_rows :: metadata_state where
  "guarded_rows = fold apply_committed_wal_record
     [commit_of 1 ''c_1'' docs_deltas,
      commit_of 2 ''c_2''
        [AppendAccessRevision 0 5 1 False [(''bob'', right_bit Read)],
         AppendAccessRevision 1 7 1 True [(''ann'', rights_from_iter [Read, Create, Remove, Share])]]] genesis_rows"

definition guarded_view :: planning_view where
  "guarded_view =
     \<lparr> pv_namespace_id = ''docs'', pv_access = Acl ''staff'' [], pv_authorizer = Subject [''ann''],
       pv_metadata = over_loaded_basis (rows_manifest guarded_rows) default_tail 2 \<rparr>"

text \<open>
  C2: A move hands out no right its mover could not hand out.  Where an authorized move to
  another parent gives some principal a right on the moved inode that the principal did not
  hold there before, then the mover is an administrator, or may manage the inode, or holds
  that very right on it and may share it.
\<close>

theorem moves_hand_out_only_shared_rights:
  assumes "pv_authorizer v = Subject principals"
    and "authorize_relocation v moved source destination = Inr ()" and "source \<noteq> destination"
    and "vr_find_access_row (pv_reads v) moved = Inr own"
    and "\<not> (case own of Some row \<Rightarrow> xr_boundary row | None \<Rightarrow> False)"
    and "inherits (pv_reads v) source before" and "inherits (pv_reads v) destination after"
    and "vr_find_access_row (pv_reads v) ROOT_INODE_ID = Inr root" and "\<not> is_root_admin root who"
    and "\<not> rights_contains (chain_rights [who] ((moved, own) # before) EMPTY_RIGHTS) r"
    and "rights_contains (chain_rights [who] ((moved, own) # after) EMPTY_RIGHTS) r"
  shows "is_administrator (pv_reads v) principals = Inr True \<or>
    (\<exists>mover. effective_rights (pv_reads v) principals moved = Inr mover \<and>
       (rights_contains mover Manage \<or> rights_contains mover Share \<and> rights_contains mover r))"
proof -
  from assms(1-5,8) obtain before_chain after_chain
    where chains: "access_chain (pv_reads v) source = Inr before_chain"
      "access_chain (pv_reads v) destination = Inr after_chain"
    by (auto simp: authorize_relocation_def)
  have rows: "before_chain = List.map_filter snd before" "after_chain = List.map_filter snd after"
    using access_chain_right [OF chains(1)] access_chain_right [OF chains(2)] assms(6,7)
    by (auto dest: inherits_fun)
  let ?gain = "relocation_gain root (option_list own @ before_chain) (option_list own @ after_chain)"
  have r: "rights_contains ?gain r"
    using assms(9-11) unfolding relocation_gain_contains rows chain_rights_rows by blast
  then have "\<not> rights_is_empty ?gain" by (auto simp: rights_is_empty_iff)
  with assms(1-5,8) chains r show ?thesis
    by (auto simp: authorize_relocation_def Let_def rights_subset_iff split: if_splits)
qed

theorem moves_hand_out_only_shared_rights_witness:
  "\<exists>before after mover. authorize_relocation guarded_view 6 7 5 = Inr () \<and>
     inherits (pv_reads guarded_view) 7 before \<and> inherits (pv_reads guarded_view) 5 after \<and>
     \<not> rights_contains (chain_rights [''bob''] ((6, None) # before) EMPTY_RIGHTS) Read \<and>
     rights_contains (chain_rights [''bob''] ((6, None) # after) EMPTY_RIGHTS) Read \<and>
     effective_rights (pv_reads guarded_view) [''ann''] 6 = Inr mover \<and>
     rights_contains mover Share \<and> rights_contains mover Read"
proof -
  let ?reads = "pv_reads guarded_view"
  have authorizer: "pv_authorizer guarded_view = Subject [''ann'']" by (simp add: guarded_view_def)
  have allowed: "authorize_relocation guarded_view 6 7 5 = Inr ()" by code_simp
  have own: "vr_find_access_row ?reads 6 = Inr None" by code_simp
  have root: "vr_find_access_row ?reads ROOT_INODE_ID = Inr None" by code_simp
  have "(case access_chain ?reads 7 of Inr rows \<Rightarrow> rights_contains (rows_rights rows ''bob'') Read | _ \<Rightarrow> True) = False"
    by code_simp
  then obtain rows where rows: "access_chain ?reads 7 = Inr rows" "\<not> rights_contains (rows_rights rows ''bob'') Read"
    by (cases "access_chain ?reads 7") auto
  have "(case access_chain ?reads 5 of Inr rows \<Rightarrow> rights_contains (rows_rights rows ''bob'') Read | _ \<Rightarrow> False)"
    by code_simp
  then obtain rows' where rows': "access_chain ?reads 5 = Inr rows'" "rights_contains (rows_rights rows' ''bob'') Read"
    by (cases "access_chain ?reads 5") auto
  obtain before after where before: "inherits ?reads 7 before" "rows = List.map_filter snd before"
    and after: "inherits ?reads 5 after" "rows' = List.map_filter snd after"
    using access_chain_right [OF rows(1)] access_chain_right [OF rows'(1)] by blast
  have without: "\<not> rights_contains (chain_rights [''bob''] ((6, None) # before) EMPTY_RIGHTS) Read"
    using rows(2) before(2) by (simp add: chain_rights_rows)
  have gained: "rights_contains (chain_rights [''bob''] ((6, None) # after) EMPTY_RIGHTS) Read"
    using rows'(2) after(2) by (simp add: chain_rights_rows)
  have plain: "is_administrator ?reads [''ann''] = Inr False" by code_simp
  have manage: "(case effective_rights ?reads [''ann''] 6 of Inr r \<Rightarrow> rights_contains r Manage | _ \<Rightarrow> False) = False"
    by code_simp
  have "\<not> (case None of Some row \<Rightarrow> xr_boundary row | None \<Rightarrow> False)"
    "\<not> is_root_admin None ''bob''" "(7 :: inode_id) \<noteq> 5" by (simp_all add: is_root_admin_def)
  from moves_hand_out_only_shared_rights [OF authorizer allowed this(3) own this(1) before(1) after(1) root
      this(2) without gained] plain manage
  obtain mover where "effective_rights ?reads [''ann''] 6 = Inr mover" "rights_contains mover Share"
    "rights_contains mover Read" by auto
  with allowed before(1) after(1) without gained show ?thesis by blast
qed

section \<open>Access updates\<close>

lemma changes_within_Inr:
  "changes_within target effective current new named = Inr () \<longleftrightarrow>
     (\<forall>who\<in>set named. \<forall>r. rights_contains (grants_get new who) r \<noteq> rights_contains (grants_get current who) r
        \<longrightarrow> rights_contains effective r)"
  by (induction named) (auto simp: Let_def rights_subset_iff)

text \<open>
  C8: An access update hands out no right its requester does not hold.  An authorized
  update is made by a requester with some right on the inode; it changes who administers
  the namespace only for an administrator, and otherwise the requester may manage the inode,
  or may share it, leaves the boundary as it is, and changes for every principal only rights
  the requester holds.
\<close>

theorem access_updates_hand_out_only_held_rights:
  assumes "pv_authorizer v = Subject principals"
    and "authorize_access_update v target current new absence = Inr ()"
  shows "\<exists>effective. effective_rights (pv_reads v) principals target = Inr effective \<and>
    effective \<noteq> EMPTY_RIGHTS \<and>
    (if target = ROOT_INODE_ID \<and> administrators (as_grants current) \<noteq> administrators (as_grants new)
     then is_administrator (pv_reads v) principals = Inr True
     else rights_contains effective Manage \<or>
       rights_contains effective Share \<and> as_boundary current = as_boundary new \<and>
       (\<forall>who r. rights_contains (grants_get (as_grants new) who) r \<noteq>
            rights_contains (grants_get (as_grants current) who) r \<longrightarrow> rights_contains effective r))"
proof -
  from assms obtain effective where effective: "effective_rights (pv_reads v) principals target = Inr effective"
    and some: "\<not> rights_is_empty effective"
    by (auto simp: authorize_access_update_def)
  have "rights_contains effective r"
    if "changes_within target effective (as_grants current) (as_grants new)
        (remdups (map fst (as_grants current @ as_grants new))) = Inr ()"
      and "rights_contains (grants_get (as_grants new) who) r \<noteq> rights_contains (grants_get (as_grants current) who) r"
    for who r
  proof -
    from that(2) have "who \<in> set (remdups (map fst (as_grants current @ as_grants new)))"
      by (auto dest: grants_get_named)
    with that show ?thesis unfolding changes_within_Inr by blast
  qed
  moreover have "effective \<noteq> EMPTY_RIGHTS" using some by (auto simp: rights_is_empty_iff)
  ultimately show ?thesis using assms effective some
    by (auto simp: authorize_access_update_def split: if_splits)
qed

theorem access_updates_hand_out_only_held_rights_witness:
  "\<exists>effective. authorize_access_update guarded_view 6 \<lparr> as_boundary = False, as_grants = [] \<rparr>
       \<lparr> as_boundary = False, as_grants = [(''bob'', right_bit Read)] \<rparr> AbsentInode = Inr () \<and>
     effective_rights (pv_reads guarded_view) [''ann''] 6 = Inr effective \<and>
     rights_contains effective Share \<and> rights_contains effective Read"
proof -
  have authorizer: "pv_authorizer guarded_view = Subject [''ann'']" by (simp add: guarded_view_def)
  have allowed: "authorize_access_update guarded_view 6 \<lparr> as_boundary = False, as_grants = [] \<rparr>
      \<lparr> as_boundary = False, as_grants = [(''bob'', right_bit Read)] \<rparr> AbsentInode = Inr ()"
    by code_simp
  have manage: "(case effective_rights (pv_reads guarded_view) [''ann''] 6 of Inr r \<Rightarrow> rights_contains r Manage | _ \<Rightarrow> False) = False"
    by code_simp
  have "rights_contains (grants_get [(''bob'', right_bit Read)] ''bob'') Read"
    "\<not> rights_contains (grants_get [] ''bob'') Read" by code_simp+
  with access_updates_hand_out_only_held_rights [OF authorizer allowed] manage allowed show ?thesis
    by (fastforce simp: ROOT_INODE_ID_def split: sum.splits)
qed

section \<open>Attribute updates\<close>

text \<open>
  C10: An attribute update changes what it names and keeps the limits.  The planned
  operation carries attributes in key order, at most a hundred of them with at most 64 KiB
  of keys and values together; a removed key is gone, a set key has its new value, and every other
  key keeps the value the inode had.
\<close>

theorem attribute_updates_change_what_they_name:
  assumes "plan_update_attributes env os target set_entries removed expected = Inr compiled"
    and "distinct (map fst set_entries)"
    and "\<And>i projection. view_attributes (pv_metadata (os_view os)) i = Inr projection \<Longrightarrow>
      attributes_ok (pj_attributes projection)"
  shows "\<exists>i projection base entries. co_ops compiled = [UpdateAttributes i base entries] \<and>
    view_attributes (pv_metadata (os_view os)) i = Inr projection \<and> attributes_ok entries \<and>
    map_of entries = (\<lambda>k. if k \<in> set removed then None
      else case map_of set_entries k of Some v \<Rightarrow> Some v | None \<Rightarrow> map_of (pj_attributes projection) k)"
proof -
  from assms(1) obtain i projection base entries
    where found: "view_attributes (pv_metadata (os_view os)) i = Inr projection"
      and entries: "updated_attributes (pj_attributes projection) set_entries removed = Inr entries"
      and ops: "co_ops compiled = [UpdateAttributes i base entries]"
    by (auto simp: plan_update_attributes_def Let_def compiled_new_def)
  note right = updated_attributes_right [OF assms(3) [OF found] assms(2) entries]
  have "map_of entries = (\<lambda>k. if k \<in> set removed then None
      else case map_of set_entries k of Some v \<Rightarrow> Some v | None \<Rightarrow> map_of (pj_attributes projection) k)"
    by (rule ext) (rule right(2))
  with found ops right(1) show ?thesis by (intro exI conjI)
qed

text \<open>The limits compared as integers, which evaluate digit by digit.\<close>

lemma attributes_new_ints [code]:
  "attributes_new entries =
     rbind (err_if (int (length entries) > 100) (TooManyAttributes (length entries))) (\<lambda>_.
     let total_bytes = logical_bytes_of entries
     in rbind (err_if (int total_bytes > 65536) (AttributesTooLarge total_bytes)) (\<lambda>_.
        Inr entries))"
  by (simp add: attributes_new_def MAX_ATTRIBUTE_ENTRIES_def MAX_ATTRIBUTES_TOTAL_BYTES_def)

text \<open>An environment for the witnesses: one random word, no content and no tokens.\<close>

definition plain_env :: planner_env where
  "plain_env =
     \<lparr> en_unicode = plain_unicode,
       en_codec = \<lparr> tk_encode = (\<lambda>position namespace_id. ''v''), tk_decode = (\<lambda>version namespace_id. None) \<rparr>,
       en_random = (\<lambda>seq create_no. 9), en_content_id = (\<lambda>seq index. ''content''),
       en_checksum_algorithm = Crc32c, en_crc_combine = (\<lambda>checksum bytes. None),
       en_materialize = (\<lambda>view content content_ref. Inl (CorePathNotFound ''layout'')),
       en_has_visible_children = no_children \<rparr>"

definition guarded_session :: operation_session where
  "guarded_session =
     \<lparr> os_view = guarded_view \<lparr> pv_authorizer := Unrestricted \<rparr>, os_content = (\<lambda>_. None), os_committed_seq = 3,
       os_operation_index = 0, os_created_inode_ids = Generated 1, os_temporary_move = None \<rparr>"

lemma guarded_no_attributes:
  "view_attributes (pv_metadata (os_view guarded_session)) i = Inr projection \<Longrightarrow> pj_attributes projection = []"
proof -
  have none: "ms_attributes_revisions guarded_rows = []" by code_simp
  assume "view_attributes (pv_metadata (os_view guarded_session)) i = Inr projection"
  then show "pj_attributes projection = []"
    by (auto simp: view_attributes_def view_latest_attributes_revision_def guarded_session_def guarded_view_def
          over_loaded_basis_def rows_manifest_def none view_row_states_def overlay_states_def
          durable_row_states_def tail_row_states_def default_tail_def newest_row_def Let_def
          split: option.split_asm)
qed

theorem attribute_updates_change_what_they_name_witness:
  "\<exists>compiled i base entries.
     plan_update_attributes plain_env guarded_session (TargetInode 5) [(''color'', ''red'')] [''size''] None = Inr compiled \<and>
     co_ops compiled = [UpdateAttributes i base entries] \<and> attributes_ok entries \<and>
     map_of entries ''color'' = Some ''red'' \<and> map_of entries ''size'' = None"
proof -
  have "(case plan_update_attributes plain_env guarded_session (TargetInode 5) [(''color'', ''red'')] [''size''] None of
      Inr compiled \<Rightarrow> True | _ \<Rightarrow> False)" by code_simp
  then obtain compiled where planned:
    "plan_update_attributes plain_env guarded_session (TargetInode 5) [(''color'', ''red'')] [''size''] None = Inr compiled"
    by (auto split: sum.split_asm)
  have ok: "attributes_ok (pj_attributes projection)"
    if "view_attributes (pv_metadata (os_view guarded_session)) i = Inr projection" for i projection
    using guarded_no_attributes [OF that] by (simp add: attributes_ok_def logical_bytes_of_def)
  have "\<exists>i projection base entries. co_ops compiled = [UpdateAttributes i base entries] \<and>
      view_attributes (pv_metadata (os_view guarded_session)) i = Inr projection \<and> attributes_ok entries \<and>
      map_of entries = (\<lambda>k. if k \<in> set [''size''] then None
        else case map_of [(''color'', ''red'')] k of Some v \<Rightarrow> Some v | None \<Rightarrow> map_of (pj_attributes projection) k)"
    by (rule attribute_updates_change_what_they_name [OF planned]) (simp, erule ok)
  then obtain i and projection :: attributes_projection and base entries
    where "co_ops compiled = [UpdateAttributes i base entries]" "attributes_ok entries"
      and entries: "map_of entries = (\<lambda>k. if k \<in> set [''size''] then None
        else case map_of [(''color'', ''red'')] k of Some v \<Rightarrow> Some v | None \<Rightarrow> map_of (pj_attributes projection) k)"
    by blast
  moreover from entries have "map_of entries ''color'' = Some ''red''" "map_of entries ''size'' = None" by simp_all
  ultimately show ?thesis using planned by blast
qed

section \<open>Preconditions\<close>

lemma evaluate_preconditions_first:
  "evaluate_preconditions u tk v head_seq index ps = Inl e \<longleftrightarrow>
     (\<exists>k<length ps. (\<forall>j<k. find_precondition_mismatch u tk v head_seq (ps ! j) = Inr None) \<and>
        (find_precondition_mismatch u tk v head_seq (ps ! k) = Inl e \<or>
         (\<exists>mismatch. find_precondition_mismatch u tk v head_seq (ps ! k) = Inr (Some mismatch) \<and>
            e = at_precondition (index + k) mismatch)))"
proof (induction ps arbitrary: index)
  case (Cons p ps)
  show ?case
  proof (cases "find_precondition_mismatch u tk v head_seq p")
    case (Inl f)
    then show ?thesis by (auto simp: Ex_less_Suc2 All_less_Suc2)
  next
    case (Inr mismatch)
    with Cons.IH [of "index + 1"] show ?thesis
      by (cases mismatch) (auto simp: Ex_less_Suc2 All_less_Suc2)
  qed
qed simp

lemma evaluate_preconditions_all:
  "evaluate_preconditions u tk v head_seq index ps = Inr () \<longleftrightarrow>
     (\<forall>p\<in>set ps. find_precondition_mismatch u tk v head_seq p = Inr None)"
  by (induction ps arbitrary: index) (auto split: option.split_asm)


section \<open>Reads return\<close>

text \<open>
  C9: The reads of a session in order always answer: where no lookup of the manifest fails,
  deciding whether an inode is visible and reading its path return, for every inode, with
  the visibility the tree of the rows has.
\<close>

theorem session_reads_return:
  assumes "session_ok vs m" and "manifest_total (mv_manifest (session_view vs))"
  shows "(\<exists>inode. visible_inode (view_reads (session_view vs)) i = Inr inode \<and>
      (inode \<noteq> None \<longleftrightarrow> tree_visible (view_tree (session_view vs) m) i)) \<and>
    (\<exists>found. current_path (view_reads (session_view vs)) Map.empty i = Inr found)"
proof -
  let ?s = "(session_view vs, m)"
  have invar: "case ?s of (view, m) \<Rightarrow> view_ok view m \<and> manifest_total (mv_manifest view)"
    using session_okD(1) [OF assms(1)] assms(2) by simp
  have acyclic: "acyclic (parent_edges (row_parent (flat ms_direntry_binds (session_view vs) m)
      (mv_visible_seq (session_view vs))))"
    using session_okD(2) [OF assms(1)] by (simp add: tree_inv_def view_tree_def tree_edges_core)
  have "visible_inode (view_reads (session_view vs)) i =
      Inr (if tree_covered (view_tree (session_view vs) m) i then None
        else inode_at_seq_scan (flat ms_inodes (session_view vs) m) i (mv_visible_seq (session_view vs)))"
    using total_view.visible_inode_total [OF invar, of i] acyclic view_covered [of "session_view vs" m i]
    by (simp add: total_view.covered_def view_provider.covered_def)
  moreover have "tree_visible (view_tree (session_view vs) m) i \<longleftrightarrow>
      \<not> tree_covered (view_tree (session_view vs) m) i \<and>
      inode_at_seq_scan (flat ms_inodes (session_view vs) m) i (mv_visible_seq (session_view vs)) \<noteq> None"
    by (auto simp: tree_visible_def view_tree_def t_kind_core)
  moreover obtain found where "current_path (view_reads (session_view vs)) Map.empty i = Inr found"
    using total_view.current_path_total [OF invar, of Map.empty i] acyclic by auto
  ultimately show ?thesis by auto
qed

theorem session_reads_return_witness:
  "(\<exists>inode. visible_inode (view_reads (session_view (genesis_session 1 ''c_1'' ''alice'' 1000))) ROOT_INODE_ID = Inr inode \<and>
      inode \<noteq> None) \<and>
    (\<exists>found. current_path (view_reads (session_view (genesis_session 1 ''c_1'' ''alice'' 1000))) Map.empty 9 = Inr found)"
proof -
  let ?vs = "genesis_session 1 ''c_1'' ''alice'' 1000"
  have total: "manifest_total (mv_manifest (session_view ?vs))"
    using rows_manifest_total by (simp add: genesis_session_def session_view_def session_new_def with_overlay_def
      over_loaded_basis_def)
  have "tree_visible (view_tree (session_view ?vs) genesis_rows) ROOT_INODE_ID"
    using session_okD(2) [OF genesis_session_ok [of 1 "''c_1''" "''alice''" 1000]]
    by (auto simp: genesis_tree tree_visible_def tree_covered_def)
  with session_reads_return [OF genesis_session_ok total, of ROOT_INODE_ID]
    session_reads_return [OF genesis_session_ok total, of 9] show ?thesis by blast
qed

end
