(* ===== verification/Session_Guarantees.thy ===== *)
theory Session_Guarantees
  imports Session_Safety Planning_Guarantees
begin

text \<open>
  The guarantees of planning: a publish session over the genesis rows, and the properties
  of the commits it plans and accepts.
\<close>

section \<open>A session over the genesis rows\<close>

definition genesis_publish :: publish_session where
  "genesis_publish =
     publish_session_new
       \<lparr> ns_namespace_id = ''docs'', ns_access = UnrestrictedAccess, ns_fork_basis = None,
         ns_family_root_id = ''docs'', ns_writer_epoch = 1, ns_seq = 0, ns_wal_no = 0 \<rparr>
       default_tail (over_loaded_basis (rows_manifest genesis_rows) default_tail 0) 1000"

definition docs_candidate :: commit_candidate where
  "docs_candidate =
     \<lparr> cc_request = IntentRequest
         \<lparr> ci_commit_id = ''c_1'', ci_actor_id = ''alice'', ci_subject = None, ci_message = None,
           ci_operations =
             [FsCreateDirectory \<lparr> ap_normalized = ''/docs'', ap_components = [''docs''] \<rparr> False,
              FsMovePath \<lparr> ap_normalized = ''/docs'', ap_components = [''docs''] \<rparr>
                \<lparr> ap_normalized = ''/notes'', ap_components = [''notes''] \<rparr>
                \<lparr> dp_behavior = NoReplace, dp_expected_inode_id = None, dp_expected_revision_no = None \<rparr>],
           ci_preconditions = [] \<rparr>,
       cc_merge = None, cc_proofs = None, cc_inline_content = [] \<rparr>"

lemma genesis_publish_sel [simp]:
  "ns_seq (ps_head genesis_publish) = 0" "ps_accepted_rows genesis_publish = default_state"
  "ps_base_view genesis_publish = over_loaded_basis (rows_manifest genesis_rows) default_tail 0"
  by (simp_all add: genesis_publish_def publish_session_new_def)

lemma genesis_publish_ok: "publish_ok genesis_publish genesis_rows"
proof -
  have "set (flat ms_inodes (session_pre_state genesis_publish) genesis_rows) = set (ms_inodes genesis_rows)"
    by (simp add: session_pre_state_def flat_def view_row_states_def overlay_states_def with_overlay_def
          durable_row_states_def over_loaded_basis_def tail_row_states_def default_tail_def)
  moreover have "session_ok (session_new (ps_base_view genesis_publish) default_state s [] [] 0) genesis_rows" for s
    using genesis_session_ok [of s "[]" "[]" 0] by (simp add: genesis_session_def)
  ultimately show ?thesis
    by (simp add: publish_ok_def tail_started_def over_loaded_basis_def default_tail_def default_state_ok
          genesis_rows_def)
qed

lemma genesis_head_kind:
  "t_kind (head_tree genesis_publish genesis_rows) i = (if i = ROOT_INODE_ID then Some Directory else None)"
proof -
  have s: "next_public_ordinal (ns_seq (ps_head genesis_publish)) = Some 1"
    by (simp add: next_public_ordinal_def checked_add_def MAX_PUBLIC_INTEGER_def)
  from head_tree_next [OF genesis_publish_ok s, of "[]" "[]" 0] genesis_tree [of 1 "[]" "[]" 0] show ?thesis
    by (simp add: genesis_session_def)
qed

lemma plain_draws_fresh: "draws_fresh plain_env genesis_publish genesis_rows"
proof -
  have "drawn_id plain_env s k \<noteq> ROOT_INODE_ID" if "1 \<le> k" for s k
  proof
    assume "drawn_id plain_env s k = ROOT_INODE_ID"
    then have "k = 0" using generate_inode_id_create_no [of s k "en_random plain_env s k"]
      by (simp add: drawn_id_def ROOT_INODE_ID_def)
    with that show False by simp
  qed
  then show ?thesis by (simp add: draws_fresh_def genesis_head_kind)
qed

lemma docs_planned:
  "(case prepare_commit plain_env genesis_publish docs_candidate Unrestricted ''fp'' of
      Inl _ \<Rightarrow> False
    | Inr cp \<Rightarrow> map (wal_delta_index \<circ> wd_delta) (pl_deltas cp) = [0, 1, 2, 3] \<and>
        \<not> isl (apply_accepted_commit (wal_payload_from_commit_plan cp) cp genesis_publish))"
  by code_simp

section \<open>Publish sessions keep the namespace a tree\<close>

text \<open>
  C1: A publish session keeps the namespace a tree.  Where the rows of a session are in
  order and the ids it may draw are new, every commit it plans for a request and accepts is
  a run of deltas the abstract namespace allows, the namespace at the session's new head is
  the one those deltas lead to, it is a tree again, and the session is in order for the
  next candidate.
\<close>

theorem published_commits_keep_tree:
  assumes "publish_ok ps m" and "draws_fresh env ps m"
    and "prepare_commit env ps candidate authorizer fingerprint = Inr cp"
    and "apply_accepted_commit (wal_payload_from_commit_plan cp) cp ps = Inr ps'"
  shows "tree_run (pl_assigned_seq cp) (head_tree ps m) (map wd_delta (pl_deltas cp)) \<and>
    head_tree ps' m = fold (tree_step (pl_assigned_seq cp)) (map wd_delta (pl_deltas cp)) (head_tree ps m) \<and>
    tree_inv (head_tree ps' m) \<and> publish_ok ps' m"
proof -
  from assms(3) have "plan_commit env ps candidate authorizer fingerprint (session_pre_state ps) = Inr cp"
    by (auto simp: prepare_commit_def Let_def)
  from plan_commit_ok [OF assms(1,2) this]
  obtain j where s: "next_public_ordinal (ns_seq (ps_head ps)) = Some (pl_assigned_seq cp)"
    and run: "tree_run (pl_assigned_seq cp) (head_tree ps m) (map wd_delta (pl_deltas cp))"
    and num: "numbered 0 (map wd_delta (pl_deltas cp)) j" by blast
  note accepted = accepted_commit_ok [OF assms(1) s run num assms(4)]
  have "session_ok (session_new (ps_base_view ps) (ps_accepted_rows ps) (pl_assigned_seq cp) [] [] 0) m"
    using assms(1) s by (simp add: publish_ok_def)
  from session_okD(2) [OF this] have "tree_inv (head_tree ps m)" by (simp add: head_tree_next [OF assms(1) s])
  with run accepted show ?thesis by (simp add: tree_inv_run)
qed

theorem published_commits_keep_tree_witness:
  "\<exists>cp ps'. prepare_commit plain_env genesis_publish docs_candidate Unrestricted ''fp'' = Inr cp \<and>
     map (wal_delta_index \<circ> wd_delta) (pl_deltas cp) = [0, 1, 2, 3] \<and>
     apply_accepted_commit (wal_payload_from_commit_plan cp) cp genesis_publish = Inr ps' \<and>
     tree_inv (head_tree ps' genesis_rows) \<and> publish_ok ps' genesis_rows"
proof -
  let ?prepared = "prepare_commit plain_env genesis_publish docs_candidate Unrestricted ''fp''"
  obtain cp where planned: "?prepared = Inr cp"
    and idx: "map (wal_delta_index \<circ> wd_delta) (pl_deltas cp) = [0, 1, 2, 3]"
    and runs: "\<not> isl (apply_accepted_commit (wal_payload_from_commit_plan cp) cp genesis_publish)"
    using docs_planned by (cases ?prepared) (simp_all only: sum.case simp_thms)
  from runs obtain ps' where accepted: "apply_accepted_commit (wal_payload_from_commit_plan cp) cp genesis_publish = Inr ps'"
    by (cases "apply_accepted_commit (wal_payload_from_commit_plan cp) cp genesis_publish") auto
  have "tree_inv (head_tree ps' genesis_rows)" "publish_ok ps' genesis_rows"
    using published_commits_keep_tree [OF genesis_publish_ok plain_draws_fresh planned accepted] by blast+
  with planned idx accepted show ?thesis by (intro exI conjI)
qed

end
