(* ===== verification/Bloom_Filter.thy ===== *)
theory Bloom_Filter
  imports Core_Error
begin

text \<open>
  The Bloom filter of \<open>loonfs-core/src/bloom_filter.rs\<close>, which compaction uses to remember
  the inodes and contents it keeps.  The filter grows by levels within a byte limit.  The
  hash \<open>xxh64\<close> comes from another crate and is a parameter: what is shown holds for every
  hash.  \<open>usize\<close> is 64 bits wide, as the sources require.  A panic (an index out of range,
  a remainder by zero, a failed assertion) is the error \<open>Panicked\<close>.

  The lemmas show that no operation on a filter panics, and that a filter never forgets a
  key: \<open>may_contain\<close> holds of every key that \<open>insert\<close> accepted, through every growth.
\<close>

unbundle bit_operations_syntax

section \<open>The count of hash positions\<close>

text \<open>
  The positive floating-point numbers of \<open>f64\<close> as fractions: a result is rounded to 53
  significant bits, ties to even.  All values of the source's expression are far from the
  limits of the exponent.
\<close>

function bit_length :: "int \<Rightarrow> nat" where
  "bit_length n = (if n \<le> 0 then 0 else Suc (bit_length (n div 2)))"
  by auto
termination by (relation "measure nat") auto

declare bit_length.simps [simp del]

definition round_half_even :: "int \<Rightarrow> int \<Rightarrow> int" where
  "round_half_even n d =
     (if 2 * (n mod d) > d \<or> 2 * (n mod d) = d \<and> odd (n div d) then n div d + 1 else n div d)"

definition f64_of_ratio :: "int \<Rightarrow> int \<Rightarrow> int \<times> int" where
  "f64_of_ratio n d =
     (let e = int (bit_length n) - int (bit_length d) - 53;
          e = (if n * 2 ^ nat (- e) \<ge> 2 ^ 53 * (d * 2 ^ nat e) then e + 1 else e);
          q = round_half_even (n * 2 ^ nat (- e)) (d * 2 ^ nat e)
      in (q * 2 ^ nat e, 2 ^ nat (- e)))"

definition f64_mul :: "int \<times> int \<Rightarrow> int \<times> int \<Rightarrow> int \<times> int" where
  "f64_mul a b = f64_of_ratio (fst a * fst b) (snd a * snd b)"

definition f64_div :: "int \<times> int \<Rightarrow> int \<times> int \<Rightarrow> int \<times> int" where
  "f64_div a b = f64_of_ratio (fst a * snd b) (snd a * fst b)"

text \<open>\<open>f64::round\<close>, which rounds halves away from zero.\<close>

definition f64_round :: "int \<times> int \<Rightarrow> int" where
  "f64_round a = (2 * fst a + snd a) div (2 * snd a)"

definition LN_2 :: "int \<times> int" where
  "LN_2 = (6243314768165359, 9007199254740992)"

definition BITS_PER_ENTRY :: u64 where
  "BITS_PER_ENTRY = 10"

definition MAX_HASH_POSITIONS :: int where
  "MAX_HASH_POSITIONS = 7"

definition hash_position_count :: "u64 \<Rightarrow> u64 \<Rightarrow> u64" where
  "hash_position_count bytes expected_entries =
     (let bits_per_entry =
            f64_div (f64_mul (f64_of_ratio (uint bytes) 1) (8, 1)) (f64_of_ratio (uint expected_entries) 1)
      in word_of_int (max 1 (min MAX_HASH_POSITIONS (f64_round (f64_mul bits_per_entry LN_2)))))"

section \<open>Levels\<close>

record bloom_level =
  bl_bits :: "u8 list"
  bl_seed :: u64
  bl_hash_positions :: u64

text \<open>\<open>u64::div_ceil\<close> by eight.\<close>

definition div_ceil_8 :: "u64 \<Rightarrow> u64" where
  "div_ceil_8 n = n div 8 + (if n mod 8 = 0 then 0 else 1)"

definition full_level_bytes :: "u64 \<Rightarrow> u64 option" where
  "full_level_bytes expected_entries =
     map_option (\<lambda>bits. max (div_ceil_8 bits) 1) (checked_mul expected_entries BITS_PER_ENTRY)"

definition bloom_level_new :: "u64 \<Rightarrow> u64 \<Rightarrow> u64 \<Rightarrow> (core_error, bloom_level) result" where
  "bloom_level_new expected_entries seed max_bytes =
     rbind (err_if (max_bytes = 0) (Panicked ''a Bloom filter level should have a positive byte limit'')) (\<lambda>_.
     let bytes = (case full_level_bytes expected_entries of None \<Rightarrow> max_bytes | Some bytes \<Rightarrow> min bytes max_bytes)
     in Inr \<lparr> bl_bits = replicate (unat bytes) 0, bl_seed = seed,
              bl_hash_positions = hash_position_count bytes expected_entries \<rparr>)"

type_synonym xxh64 = "string \<Rightarrow> u64 \<Rightarrow> u64"

definition level_positions :: "xxh64 \<Rightarrow> bloom_level \<Rightarrow> string \<Rightarrow> (core_error, u64 list) result" where
  "level_positions xxh level bytes =
     (let first = xxh bytes (bl_seed level);
          step = xxh bytes (bl_seed level + 1);
          bit_len = word_of_nat (length (bl_bits level)) * 8
      in if bit_len = 0 \<and> bl_hash_positions level \<noteq> 0
         then Inl (Panicked ''attempt to calculate the remainder with a divisor of zero'')
         else Inr (map (\<lambda>index. (first + word_of_nat index * step) mod bit_len)
                     [0..<unat (bl_hash_positions level)]))"

fun set_positions :: "u8 list \<Rightarrow> u64 list \<Rightarrow> (core_error, u8 list) result" where
  "set_positions bits [] = Inr bits"
| "set_positions bits (position # positions) =
     (let i = unat (position div 8)
      in if i < length bits
         then set_positions (bits[i := bits ! i OR push_bit (unat (position mod 8)) 1]) positions
         else Inl (Panicked ''index out of bounds''))"

fun test_positions :: "u8 list \<Rightarrow> u64 list \<Rightarrow> (core_error, bool) result" where
  "test_positions bits [] = Inr True"
| "test_positions bits (position # positions) =
     (let i = unat (position div 8)
      in if i < length bits
         then if bits ! i AND push_bit (unat (position mod 8)) 1 \<noteq> 0 then test_positions bits positions
              else Inr False
         else Inl (Panicked ''index out of bounds''))"

definition level_insert :: "xxh64 \<Rightarrow> bloom_level \<Rightarrow> string \<Rightarrow> (core_error, bloom_level) result" where
  "level_insert xxh level bytes =
     rbind (level_positions xxh level bytes) (\<lambda>positions.
     rbind (set_positions (bl_bits level) positions) (\<lambda>bits.
     Inr (level \<lparr> bl_bits := bits \<rparr>)))"

definition level_may_contain :: "xxh64 \<Rightarrow> bloom_level \<Rightarrow> string \<Rightarrow> (core_error, bool) result" where
  "level_may_contain xxh level bytes =
     rbind (level_positions xxh level bytes) (\<lambda>positions. test_positions (bl_bits level) positions)"

section \<open>Filters\<close>

record bloom_filter =
  bf_levels :: "bloom_level list"
  bf_expected_entries :: u64
  bf_entries :: u64
  bf_remaining_bytes :: u64

definition MAX_BLOOM_FILTER_BYTES :: u64 where
  "MAX_BLOOM_FILTER_BYTES = 64 * 1024 * 1024"

definition bloom_with_max_bytes :: "u64 \<Rightarrow> u64 \<Rightarrow> u64 \<Rightarrow> (core_error, bloom_filter) result" where
  "bloom_with_max_bytes expected_entries seed max_bytes =
     (let expected_entries = max expected_entries 1
      in rbind (bloom_level_new expected_entries seed max_bytes) (\<lambda>level.
         Inr \<lparr> bf_levels = [level], bf_expected_entries = expected_entries, bf_entries = 0,
               bf_remaining_bytes = max_bytes - word_of_nat (length (bl_bits level)) \<rparr>))"

definition bloom_new :: "u64 \<Rightarrow> u64 \<Rightarrow> (core_error, bloom_filter) result" where
  "bloom_new expected_entries seed = bloom_with_max_bytes expected_entries seed MAX_BLOOM_FILTER_BYTES"

definition fits_at_full_size :: "u64 \<Rightarrow> u64 \<Rightarrow> bool" where
  "fits_at_full_size expected_entries max_bytes =
     (case full_level_bytes (max expected_entries 1) of None \<Rightarrow> False | Some bytes \<Rightarrow> bytes \<le> max_bytes)"

text \<open>\<open>u64::to_le_bytes\<close>.\<close>

definition u64_to_le_bytes :: "u64 \<Rightarrow> string" where
  "u64_to_le_bytes v = map (\<lambda>i. char_of (unat (drop_bit (8 * i) v AND 0xFF))) [0..<8]"

text \<open>
  The growth of a full filter: \<open>Inr None\<close> is the early return where the next level does not
  fit.
\<close>

definition bloom_grow :: "xxh64 \<Rightarrow> bloom_filter \<Rightarrow> (core_error, bloom_filter option) result" where
  "bloom_grow xxh filt =
     (case checked_mul (bf_expected_entries filt) 2 of
        None \<Rightarrow> Inr None
      | Some expected_entries \<Rightarrow>
          if \<not> fits_at_full_size expected_entries (bf_remaining_bytes filt) then Inr None
          else case bf_levels filt of
            [] \<Rightarrow> Inl (Panicked ''index out of bounds'')
          | base # _ \<Rightarrow>
              let seed = xxh (u64_to_le_bytes (word_of_nat (length (bf_levels filt)))) (bl_seed base)
              in rbind (bloom_level_new expected_entries seed (bf_remaining_bytes filt)) (\<lambda>level.
                 Inr (Some (filt \<lparr> bf_remaining_bytes := bf_remaining_bytes filt - word_of_nat (length (bl_bits level)),
                                   bf_levels := bf_levels filt @ [level],
                                   bf_expected_entries := expected_entries,
                                   bf_entries := 0 \<rparr>))))"

text \<open>\<open>insert\<close>: \<open>Inr None\<close> is its \<open>None\<close>, which leaves the filter as it was.\<close>

definition bloom_insert :: "xxh64 \<Rightarrow> bloom_filter \<Rightarrow> string \<Rightarrow> (core_error, bloom_filter option) result" where
  "bloom_insert xxh filt bytes =
     rbind (if bf_entries filt = bf_expected_entries filt then bloom_grow xxh filt else Inr (Some filt)) (\<lambda>grown.
     case grown of
       None \<Rightarrow> Inr None
     | Some filt \<Rightarrow>
         if bf_levels filt = [] then Inl (Panicked ''a filter should have at least one level'')
         else rbind (level_insert xxh (last (bf_levels filt)) bytes) (\<lambda>level.
              Inr (Some (filt \<lparr> bf_levels := butlast (bf_levels filt) @ [level],
                                bf_entries := bf_entries filt + 1 \<rparr>))))"

fun any_level_may_contain :: "xxh64 \<Rightarrow> bloom_level list \<Rightarrow> string \<Rightarrow> (core_error, bool) result" where
  "any_level_may_contain xxh [] bytes = Inr False"
| "any_level_may_contain xxh (level # levels) bytes =
     rbind (level_may_contain xxh level bytes) (\<lambda>found.
     if found then Inr True else any_level_may_contain xxh levels bytes)"

definition bloom_may_contain :: "xxh64 \<Rightarrow> bloom_filter \<Rightarrow> string \<Rightarrow> (core_error, bool) result" where
  "bloom_may_contain xxh filt bytes = any_level_may_contain xxh (bf_levels filt) bytes"

section \<open>Bits\<close>

definition bit_in :: "u8 list \<Rightarrow> u64 \<Rightarrow> bool" where
  "bit_in bits p \<longleftrightarrow> unat (p div 8) < length bits \<and> bit (bits ! unat (p div 8)) (unat (p mod 8))"

lemma set_positions_ok:
  assumes "\<forall>p\<in>set positions. unat (p div 8) < length bits"
  shows "\<exists>bits'. set_positions bits positions = Inr bits' \<and> length bits' = length bits \<and>
    (\<forall>q. bit_in bits q \<longrightarrow> bit_in bits' q) \<and> (\<forall>p\<in>set positions. bit_in bits' p)"
  using assms
proof (induction positions arbitrary: bits)
  case (Cons p positions)
  let ?i = "unat (p div 8)" and ?k = "unat (p mod 8)"
  let ?bits = "bits[?i := bits ! ?i OR push_bit ?k 1]"
  have i: "?i < length bits" using Cons.prems by simp
  have k: "?k < 8" by (simp add: unat_mod)
  have mono: "bit_in ?bits q" if "bit_in bits q" for q
    using that i by (auto simp: bit_in_def nth_list_update bit_simps)
  have own: "bit_in ?bits p" using i k by (simp add: bit_in_def bit_simps)
  obtain bits' where "set_positions ?bits positions = Inr bits'" "length bits' = length bits"
    "\<forall>q. bit_in ?bits q \<longrightarrow> bit_in bits' q" "\<forall>p\<in>set positions. bit_in bits' p"
    using Cons.IH [of ?bits] Cons.prems by auto
  with i own mono show ?case by (auto simp: Let_def)
qed simp

lemma test_positions_ok:
  assumes "\<forall>p\<in>set positions. unat (p div 8) < length bits"
  shows "test_positions bits positions = Inr (\<forall>p\<in>set positions. bit_in bits p)"
  using assms
proof (induction positions)
  case (Cons p positions)
  have "bits ! unat (p div 8) AND push_bit (unat (p mod 8)) 1 \<noteq> 0 \<longleftrightarrow> bit_in bits p"
    using Cons.prems by (simp add: bit_in_def bit_iff_and_push_bit_not_eq_0)
  with Cons show ?case by (auto simp: Let_def)
qed simp

section \<open>Levels keep their keys\<close>

definition level_ok :: "bloom_level \<Rightarrow> bool" where
  "level_ok level \<longleftrightarrow> 0 < length (bl_bits level) \<and> length (bl_bits level) < 2 ^ 61"

lemma level_positions_ok:
  assumes "level_ok level"
  shows "\<exists>positions. level_positions xxh level bytes = Inr positions \<and>
    (\<forall>p\<in>set positions. unat (p div 8) < length (bl_bits level))"
proof -
  let ?n = "length (bl_bits level)" and ?len = "word_of_nat (length (bl_bits level)) * 8 :: u64"
  have "unat (word_of_nat ?n :: u64) = ?n" using assms by (simp add: level_ok_def unat_of_nat)
  then have len: "unat ?len = ?n * 8" using assms by (simp add: level_ok_def unat_word_ariths)
  then have pos: "?len \<noteq> 0" using assms by (auto simp: level_ok_def unat_eq_0 [symmetric])
  have "unat (x mod ?len div 8) < ?n" for x
  proof -
    have "unat (x mod ?len) < ?n * 8" using len assms by (simp add: unat_mod level_ok_def)
    then show ?thesis by (simp add: unat_div less_mult_imp_div_less)
  qed
  with pos show ?thesis by (auto simp: level_positions_def Let_def)
qed

lemma level_may_contain_total:
  "level_ok level \<Longrightarrow> \<exists>found. level_may_contain xxh level bytes = Inr found"
  using level_positions_ok [of level xxh bytes] by (auto simp: level_may_contain_def test_positions_ok)

lemma level_insert_ok:
  assumes "level_ok level"
  shows "\<exists>level'. level_insert xxh level bytes = Inr level' \<and> length (bl_bits level') = length (bl_bits level) \<and>
    level_may_contain xxh level' bytes = Inr True \<and>
    (\<forall>key. level_may_contain xxh level key = Inr True \<longrightarrow> level_may_contain xxh level' key = Inr True)"
proof -
  obtain positions where positions: "level_positions xxh level bytes = Inr positions"
    "\<forall>p\<in>set positions. unat (p div 8) < length (bl_bits level)" using level_positions_ok [OF assms] by blast
  obtain bits where bits: "set_positions (bl_bits level) positions = Inr bits" "length bits = length (bl_bits level)"
    "\<forall>q. bit_in (bl_bits level) q \<longrightarrow> bit_in bits q" "\<forall>p\<in>set positions. bit_in bits p"
    using set_positions_ok [OF positions(2)] by blast
  let ?level = "level \<lparr> bl_bits := bits \<rparr>"
  have same: "level_positions xxh ?level key = level_positions xxh level key" for key
    by (simp add: level_positions_def bits(2) Let_def)
  have "level_may_contain xxh ?level key = Inr True" if "level_may_contain xxh level key = Inr True" for key
  proof -
    obtain ps where ps: "level_positions xxh level key = Inr ps" "\<forall>p\<in>set ps. unat (p div 8) < length (bl_bits level)"
      using level_positions_ok [OF assms] by blast
    with that have "\<forall>p\<in>set ps. bit_in (bl_bits level) p" by (simp add: level_may_contain_def test_positions_ok)
    with ps bits(2,3) show ?thesis by (simp add: level_may_contain_def same test_positions_ok)
  qed
  with positions bits show ?thesis
    by (intro exI [of _ ?level]) (simp add: level_insert_def level_may_contain_def same test_positions_ok)
qed

section \<open>Filters keep their keys\<close>

definition bloom_ok :: "bloom_filter \<Rightarrow> bool" where
  "bloom_ok filt \<longleftrightarrow>
     bf_levels filt \<noteq> [] \<and> (\<forall>level\<in>set (bf_levels filt). 0 < length (bl_bits level)) \<and>
     sum_list (map (length \<circ> bl_bits) (bf_levels filt)) + unat (bf_remaining_bytes filt) < 2 ^ 61"

lemma bloom_ok_level: "bloom_ok filt \<Longrightarrow> level \<in> set (bf_levels filt) \<Longrightarrow> level_ok level"
  using member_le_sum_list [of "length (bl_bits level)" "map (length \<circ> bl_bits) (bf_levels filt)"]
  by (auto simp: bloom_ok_def level_ok_def)

lemma any_level_total:
  assumes "\<forall>level\<in>set levels. level_ok level"
  shows "any_level_may_contain xxh levels key = Inr (\<exists>level\<in>set levels. level_may_contain xxh level key = Inr True)"
  using assms
proof (induction levels)
  case (Cons level levels)
  then obtain found where "level_may_contain xxh level key = Inr found"
    using level_may_contain_total by (metis list.set_intros(1))
  with Cons show ?case by auto
qed simp

lemma bloom_contains:
  "bloom_ok filt \<Longrightarrow> bloom_may_contain xxh filt key =
     Inr (\<exists>level\<in>set (bf_levels filt). level_may_contain xxh level key = Inr True)"
  unfolding bloom_may_contain_def by (rule any_level_total) (simp add: bloom_ok_level)

lemma u64_below: "unat x < 2 ^ 64" for x :: u64
  using unsigned_less [of x] by simp

lemma full_level_bytes_pos: "full_level_bytes n = Some b \<Longrightarrow> 0 < b"
  by (auto simp: full_level_bytes_def less_max_iff_disj)

lemma bloom_level_new_ok:
  assumes "0 < max_bytes"
  shows "\<exists>level. bloom_level_new n seed max_bytes = Inr level \<and> 0 < length (bl_bits level) \<and>
    length (bl_bits level) \<le> unat max_bytes"
  using assms full_level_bytes_pos [of n]
  by (auto simp: bloom_level_new_def Let_def unat_gt_0 word_le_nat_alt [symmetric] min_def split: option.splits)

lemma bloom_insert_last:
  assumes "bloom_ok filt"
  shows "\<exists>level. level_insert xxh (last (bf_levels filt)) bytes = Inr level \<and>
    (let filt' = filt \<lparr> bf_levels := butlast (bf_levels filt) @ [level], bf_entries := entries \<rparr>
     in bloom_ok filt' \<and> bloom_may_contain xxh filt' bytes = Inr True \<and>
        (\<forall>key. bloom_may_contain xxh filt key = Inr True \<longrightarrow> bloom_may_contain xxh filt' key = Inr True))"
proof -
  obtain earlier base where levels: "bf_levels filt = earlier @ [base]"
    using assms by (metis bloom_ok_def append_butlast_last_id)
  have "level_ok base" using bloom_ok_level [OF assms, of base] levels by simp
  then obtain level where level: "level_insert xxh base bytes = Inr level"
    "length (bl_bits level) = length (bl_bits base)" "level_may_contain xxh level bytes = Inr True"
    "\<forall>key. level_may_contain xxh base key = Inr True \<longrightarrow> level_may_contain xxh level key = Inr True"
    using level_insert_ok [of base xxh bytes] by blast
  let ?filt = "filt \<lparr> bf_levels := earlier @ [level], bf_entries := entries \<rparr>"
  have ok: "bloom_ok ?filt" using assms level(2) by (simp add: bloom_ok_def levels del: length_greater_0_conv)
  have "bloom_may_contain xxh ?filt bytes = Inr True"
    "\<forall>key. bloom_may_contain xxh filt key = Inr True \<longrightarrow> bloom_may_contain xxh ?filt key = Inr True"
    unfolding bloom_contains [OF ok] bloom_contains [OF assms] levels using level(3,4) by auto
  with ok level(1) show ?thesis by (auto simp: levels Let_def)
qed

lemma bloom_grow_ok:
  assumes "bloom_ok filt"
  shows "bloom_grow xxh filt = Inr None \<or>
    (\<exists>grown. bloom_grow xxh filt = Inr (Some grown) \<and> bloom_ok grown \<and>
       (\<forall>key. bloom_may_contain xxh filt key = Inr True \<longrightarrow> bloom_may_contain xxh grown key = Inr True))"
proof (cases "\<exists>n. checked_mul (bf_expected_entries filt) 2 = Some n \<and> fits_at_full_size n (bf_remaining_bytes filt)")
  case True
  then obtain n where n: "checked_mul (bf_expected_entries filt) 2 = Some n" "fits_at_full_size n (bf_remaining_bytes filt)"
    by blast
  obtain base levels where levels: "bf_levels filt = base # levels" using assms by (cases "bf_levels filt") (auto simp: bloom_ok_def)
  let ?seed = "xxh (u64_to_le_bytes (word_of_nat (length (bf_levels filt)))) (bl_seed base)"
  have "0 < bf_remaining_bytes filt"
    using n(2) by (auto simp: fits_at_full_size_def dest!: full_level_bytes_pos split: option.splits)
  then obtain level where level: "bloom_level_new n ?seed (bf_remaining_bytes filt) = Inr level"
    "0 < length (bl_bits level)" "length (bl_bits level) \<le> unat (bf_remaining_bytes filt)"
    using bloom_level_new_ok by blast
  let ?left = "bf_remaining_bytes filt - word_of_nat (length (bl_bits level))"
  let ?grown = "filt \<lparr> bf_remaining_bytes := ?left, bf_levels := bf_levels filt @ [level],
    bf_expected_entries := n, bf_entries := 0 \<rparr>"
  have "unat (word_of_nat (length (bl_bits level)) :: u64) = length (bl_bits level)"
    using level(3) u64_below [of "bf_remaining_bytes filt"]
    by (simp add: unat_of_nat)
  then have "unat ?left + length (bl_bits level) = unat (bf_remaining_bytes filt)"
    using level(3) by (simp add: unat_sub word_le_nat_alt)
  then have ok: "bloom_ok ?grown" using assms level(2) by (auto simp: bloom_ok_def)
  have "\<forall>key. bloom_may_contain xxh filt key = Inr True \<longrightarrow> bloom_may_contain xxh ?grown key = Inr True"
    unfolding bloom_contains [OF ok] bloom_contains [OF assms] by auto
  with ok n level(1) show ?thesis by (simp add: bloom_grow_def levels Let_def)
qed (auto simp: bloom_grow_def split: option.splits)

lemma bloom_insert_ok:
  assumes "bloom_ok filt"
  shows "bf_entries filt = bf_expected_entries filt \<and> bloom_insert xxh filt bytes = Inr None \<or>
    (\<exists>filt'. bloom_insert xxh filt bytes = Inr (Some filt') \<and> bloom_ok filt' \<and>
       bloom_may_contain xxh filt' bytes = Inr True \<and>
       (\<forall>key. bloom_may_contain xxh filt key = Inr True \<longrightarrow> bloom_may_contain xxh filt' key = Inr True) \<and>
       (bf_entries filt \<noteq> bf_expected_entries filt \<longrightarrow>
          bf_expected_entries filt' = bf_expected_entries filt \<and> bf_entries filt' = bf_entries filt + 1))"
proof (cases "bf_entries filt = bf_expected_entries filt")
  case True
  show ?thesis using bloom_grow_ok [OF assms, of xxh]
  proof (elim disjE exE conjE)
    fix grown assume grown: "bloom_grow xxh filt = Inr (Some grown)" "bloom_ok grown"
      "\<forall>key. bloom_may_contain xxh filt key = Inr True \<longrightarrow> bloom_may_contain xxh grown key = Inr True"
    with bloom_insert_last [OF grown(2), of xxh bytes "bf_entries grown + 1"] True show ?thesis
      by (auto simp: bloom_insert_def Let_def) (auto simp: bloom_ok_def)
  qed (simp add: bloom_insert_def True)
next
  case False
  with bloom_insert_last [OF assms, of xxh bytes "bf_entries filt + 1"] assms show ?thesis
    by (auto simp: bloom_insert_def Let_def bloom_ok_def)
qed

section \<open>What the filter promises\<close>

text \<open>A sequence of inserts; a refused key leaves the filter as it was.\<close>

fun insert_all :: "xxh64 \<Rightarrow> bloom_filter \<Rightarrow> string list \<Rightarrow> (core_error, bloom_filter \<times> string list) result" where
  "insert_all xxh filt [] = Inr (filt, [])"
| "insert_all xxh filt (key # keys) =
     rbind (bloom_insert xxh filt key) (\<lambda>inserted.
     case inserted of
       None \<Rightarrow> insert_all xxh filt keys
     | Some filt' \<Rightarrow> rbind (insert_all xxh filt' keys) (\<lambda>(final, accepted). Inr (final, key # accepted)))"

lemma insert_all_ok:
  assumes "bloom_ok filt"
  shows "\<exists>final accepted. insert_all xxh filt keys = Inr (final, accepted) \<and> bloom_ok final \<and>
    (\<forall>key\<in>set accepted. bloom_may_contain xxh final key = Inr True) \<and>
    (\<forall>key. bloom_may_contain xxh filt key = Inr True \<longrightarrow> bloom_may_contain xxh final key = Inr True) \<and>
    (unat (bf_entries filt) + length keys \<le> unat (bf_expected_entries filt) \<longrightarrow> accepted = keys)"
  using assms
proof (induction keys arbitrary: filt)
  case (Cons key keys)
  show ?case using bloom_insert_ok [OF Cons.prems, of xxh key]
  proof (elim disjE exE conjE)
    assume full: "bf_entries filt = bf_expected_entries filt" "bloom_insert xxh filt key = Inr None"
    then have "insert_all xxh filt (key # keys) = insert_all xxh filt keys" by simp
    moreover have "\<not> unat (bf_entries filt) + length (key # keys) \<le> unat (bf_expected_entries filt)" using full by simp
    ultimately show ?thesis using Cons.IH [OF Cons.prems] by metis
  next
    fix next_filt assume inserted: "bloom_insert xxh filt key = Inr (Some next_filt)" "bloom_ok next_filt"
      "bloom_may_contain xxh next_filt key = Inr True"
      "\<forall>k. bloom_may_contain xxh filt k = Inr True \<longrightarrow> bloom_may_contain xxh next_filt k = Inr True"
      "bf_entries filt \<noteq> bf_expected_entries filt \<longrightarrow>
         bf_expected_entries next_filt = bf_expected_entries filt \<and> bf_entries next_filt = bf_entries filt + 1"
    obtain final accepted where rest: "insert_all xxh next_filt keys = Inr (final, accepted)" "bloom_ok final"
      "\<forall>k\<in>set accepted. bloom_may_contain xxh final k = Inr True"
      "\<forall>k. bloom_may_contain xxh next_filt k = Inr True \<longrightarrow> bloom_may_contain xxh final k = Inr True"
      "unat (bf_entries next_filt) + length keys \<le> unat (bf_expected_entries next_filt) \<longrightarrow> accepted = keys"
      using Cons.IH [OF inserted(2)] by blast
    have "accepted = keys" if room: "unat (bf_entries filt) + length (key # keys) \<le> unat (bf_expected_entries filt)"
    proof -
      have "bf_entries filt \<noteq> bf_expected_entries filt" using room by auto
      moreover have "unat (bf_entries filt + 1) \<le> unat (bf_entries filt) + 1" by (simp add: unat_word_ariths)
      ultimately show ?thesis using inserted(5) rest(5) room by simp
    qed
    moreover have "insert_all xxh filt (key # keys) = Inr (final, key # accepted)" using inserted(1) rest(1) by simp
    moreover have "\<forall>k\<in>set (key # accepted). bloom_may_contain xxh final k = Inr True" using inserted(3) rest(3,4) by simp
    ultimately show ?thesis using inserted(4) rest(2,4) by (metis (no_types))
  qed
qed simp

lemma bloom_with_max_bytes_ok:
  assumes "0 < max_bytes" "max_bytes < 2 ^ 61"
  shows "\<exists>filt. bloom_with_max_bytes n seed max_bytes = Inr filt \<and> bloom_ok filt \<and> bf_entries filt = 0 \<and>
    bf_expected_entries filt = max n 1"
proof -
  obtain level where level: "bloom_level_new (max n 1) seed max_bytes = Inr level" "0 < length (bl_bits level)"
    "length (bl_bits level) \<le> unat max_bytes" using bloom_level_new_ok [OF assms(1)] by blast
  have "unat (word_of_nat (length (bl_bits level)) :: u64) = length (bl_bits level)"
    using level(3) u64_below [of max_bytes] by (simp add: unat_of_nat)
  then have "unat (max_bytes - word_of_nat (length (bl_bits level))) + length (bl_bits level) = unat max_bytes"
    using level(3) by (simp add: unat_sub word_le_nat_alt)
  moreover have "unat max_bytes < 2 ^ 61" using assms(2) by (simp add: word_less_nat_alt)
  ultimately show ?thesis using level by (auto simp: bloom_with_max_bytes_def Let_def bloom_ok_def)
qed

text \<open>
  C26: a Bloom filter with any byte limit below \<open>2^61\<close> never panics and never forgets a
  key: whatever the hash, after any sequence of inserts \<open>may_contain\<close> holds of every key
  that was accepted, through every growth.  As many keys as the filter expects are all
  accepted.
\<close>

theorem bloom_filters_forget_no_key:
  assumes "0 < max_bytes" "max_bytes < 2 ^ 61"
  shows "\<exists>filt final accepted. bloom_with_max_bytes expected seed max_bytes = Inr filt \<and>
    insert_all xxh filt keys = Inr (final, accepted) \<and>
    (\<forall>key\<in>set accepted. bloom_may_contain xxh final key = Inr True) \<and>
    (length keys \<le> unat (max expected 1) \<longrightarrow> accepted = keys)"
proof -
  obtain filt where "bloom_with_max_bytes expected seed max_bytes = Inr filt" "bloom_ok filt" "bf_entries filt = 0"
    "bf_expected_entries filt = max expected 1" using bloom_with_max_bytes_ok [OF assms] by blast
  with insert_all_ok [of filt xxh keys] show ?thesis by auto
qed

text \<open>Two keys in a filter sized for two, with a hash of lengths.\<close>

theorem bloom_filters_forget_no_key_witness:
  "\<exists>filt final. bloom_with_max_bytes 2 42 30 = Inr filt \<and>
     insert_all (\<lambda>bytes seed. word_of_nat (length bytes) * 7 + seed) filt [''a'', ''bcd''] = Inr (final, [''a'', ''bcd'']) \<and>
     bloom_may_contain (\<lambda>bytes seed. word_of_nat (length bytes) * 7 + seed) final ''bcd'' = Inr True"
proof -
  have limit: "(0 :: u64) < 30" "(30 :: u64) < 2 ^ 61" by simp_all
  obtain filt final accepted where run: "bloom_with_max_bytes 2 42 30 = Inr filt"
    "insert_all (\<lambda>bytes seed. word_of_nat (length bytes) * 7 + seed) filt [''a'', ''bcd''] = Inr (final, accepted)"
    "\<forall>key\<in>set accepted. bloom_may_contain (\<lambda>bytes seed. word_of_nat (length bytes) * 7 + seed) final key = Inr True"
    "length [''a'', ''bcd''] \<le> unat (max 2 1 :: u64) \<longrightarrow> accepted = [''a'', ''bcd'']"
    using bloom_filters_forget_no_key [of 30 2 42 "\<lambda>bytes seed. word_of_nat (length bytes) * 7 + seed" "[''a'', ''bcd'']",
        OF limit] by blast
  have "max 2 1 = (2 :: u64)" by simp
  with run(4) have accepted: "accepted = [''a'', ''bcd'']" by simp
  have "''bcd'' \<in> set accepted" by (simp add: accepted)
  with run(3) have "bloom_may_contain (\<lambda>bytes seed. word_of_nat (length bytes) * 7 + seed) final ''bcd'' = Inr True" by blast
  with run(1,2) show ?thesis unfolding accepted by blast
qed

end
