(* ===== verification/Spelled_Ids.thy ===== *)
theory Spelled_Ids
  imports Vocabulary "HOL-Library.Char_ord" "HOL-Library.List_Lexorder"
begin

text \<open>
  The spellings of identifiers and numbers in durable keys: the 26-character bodies of
  generated ids (\<open>loonfs-types/src/ids.rs\<close>, \<open>inode_id.rs\<close>), lowercase hexadecimal
  (\<open>hex.rs\<close>) and the zero-padded decimals of Rust's formatting.  Strings are compared byte
  by byte.  Each spelling has a fixed width or an alphabet above the separator, so that
  the order of the spellings is the order of what they spell.
\<close>

unbundle bit_operations_syntax

section \<open>Bodies of generated ids\<close>

definition GENERATED_ID_BODY_BYTES :: nat where
  "GENERATED_ID_BODY_BYTES = 26"

definition GENERATED_ID_ALPHABET :: string where
  "GENERATED_ID_ALPHABET = ''0123456789abcdefghjkmnpqrstvwxyz''"

definition encode_base_32 :: "u128 \<Rightarrow> nat \<Rightarrow> string" where
  "encode_base_32 v chars =
     map (\<lambda>position. GENERATED_ID_ALPHABET ! unat (drop_bit (5 * position) v AND 0x1F)) (rev [0..<chars])"

definition encode_generated_id_body :: "u128 \<Rightarrow> string" where
  "encode_generated_id_body v = encode_base_32 v GENERATED_ID_BODY_BYTES"

datatype id_body_error = BodyNotBase32 | BodyFirstCharacter

definition generated_id_body_error :: "string \<Rightarrow> id_body_error option" where
  "generated_id_body_error body =
     (if length body \<noteq> GENERATED_ID_BODY_BYTES \<or> \<not> list_all (\<lambda>byte. byte \<in> set GENERATED_ID_ALPHABET) body
      then Some BodyNotBase32
      else if \<not> (case body of [] \<Rightarrow> False | first # _ \<Rightarrow> first \<le> CHR ''7'') then Some BodyFirstCharacter
      else None)"

definition alphabet_position :: "char \<Rightarrow> nat option" where
  "alphabet_position byte = find (\<lambda>i. GENERATED_ID_ALPHABET ! i = byte) [0..<32]"

fun decode_digits :: "u128 \<Rightarrow> string \<Rightarrow> u128 option" where
  "decode_digits v [] = Some v"
| "decode_digits v (byte # bytes) =
     Option.bind (alphabet_position byte) (\<lambda>digit. decode_digits (push_bit 5 v OR word_of_nat digit) bytes)"

definition decode_generated_id_body :: "string \<Rightarrow> u128 option" where
  "decode_generated_id_body body =
     (if generated_id_body_error body \<noteq> None then None else decode_digits 0 body)"

definition INODE_ID_PREFIX :: string where
  "INODE_ID_PREFIX = ''ino_''"

definition inode_id_to_string :: "inode_id \<Rightarrow> string" where
  "inode_id_to_string i = INODE_ID_PREFIX @ encode_generated_id_body i"

text \<open>\<open>str::strip_prefix\<close>.\<close>

definition strip_prefix :: "string \<Rightarrow> string \<Rightarrow> string option" where
  "strip_prefix pre s = (if take (length pre) s = pre then Some (drop (length pre) s) else None)"

definition parse_inode_id :: "string \<Rightarrow> (string, inode_id) result" where
  "parse_inode_id v = ok_or v (Option.bind (strip_prefix INODE_ID_PREFIX v) decode_generated_id_body)"

section \<open>Hexadecimal\<close>

datatype hex_decode_error = OddLength nat | InvalidByte char

definition HEX :: string where
  "HEX = ''0123456789abcdef''"

definition hex_encode_bytes :: "string \<Rightarrow> string" where
  "hex_encode_bytes bytes = concat (map (\<lambda>byte. [HEX ! (of_char byte div 16), HEX ! (of_char byte mod 16)]) bytes)"

definition nibble :: "char \<Rightarrow> (hex_decode_error, nat) result" where
  "nibble byte =
     (if CHR ''0'' \<le> byte \<and> byte \<le> CHR ''9'' then Inr (of_char byte - 48)
      else if CHR ''a'' \<le> byte \<and> byte \<le> CHR ''f'' then Inr (of_char byte - 97 + 10)
      else Inl (InvalidByte byte))"

text \<open>The loop over the pairs; a last single byte is left out, as \<open>as_chunks\<close> leaves it.\<close>

fun hex_decode_pairs :: "string \<Rightarrow> (hex_decode_error, string) result" where
  "hex_decode_pairs (high # low # rest) =
     rbind (nibble high) (\<lambda>h.
     rbind (nibble low) (\<lambda>l.
     rbind (hex_decode_pairs rest) (\<lambda>decoded.
     Inr (char_of (h * 16 + l) # decoded))))"
| "hex_decode_pairs _ = Inr []"

definition hex_decode_bytes :: "string \<Rightarrow> (hex_decode_error, string) result" where
  "hex_decode_bytes encoded =
     rbind (err_if (odd (length encoded)) (OddLength (length encoded))) (\<lambda>_. hex_decode_pairs encoded)"

section \<open>Zero-padded decimals\<close>

text \<open>The format \<open>{:0w}\<close> for numbers of at most \<open>w\<close> digits.\<close>

fun zero_padded :: "nat \<Rightarrow> nat \<Rightarrow> string" where
  "zero_padded 0 n = []"
| "zero_padded (Suc w) n = zero_padded w (n div 10) @ [char_of (48 + n mod 10)]"

definition padded_u64 :: "u64 \<Rightarrow> string" where
  "padded_u64 v = zero_padded 20 (unat v)"

definition padded_u32 :: "u32 \<Rightarrow> string" where
  "padded_u32 v = zero_padded 10 (unat v)"

section \<open>The order of spellings\<close>

lemma less_snoc:
  "length xs = length ys \<Longrightarrow> xs @ [a] < ys @ [b] \<longleftrightarrow> xs < ys \<or> xs = ys \<and> a < b"
  for a b :: "'a::linorder"
  by (induction xs ys rule: list_induct2) auto

lemma less_append:
  "length xs = length ys \<Longrightarrow> xs @ us < ys @ vs \<longleftrightarrow> xs < ys \<or> xs = ys \<and> us < vs"
  for us vs :: "'a::linorder list"
  by (induction xs ys rule: list_induct2) auto

text \<open>Components over characters above the separator compare before what follows them.\<close>

lemma less_separated:
  fixes us vs :: "'a::linorder list"
  assumes "\<forall>c\<in>set xs. sep < c" "\<forall>c\<in>set ys. sep < c"
  shows "xs @ sep # us < ys @ sep # vs \<longleftrightarrow> xs < ys \<or> xs = ys \<and> us < vs"
  using assms
proof (induction xs arbitrary: ys)
  case Nil
  then show ?case by (cases ys) auto
next
  case (Cons x xs)
  then show ?case by (cases ys) auto
qed

lemma eq_separated:
  assumes "sep \<notin> set xs" "sep \<notin> set ys"
  shows "xs @ sep # us = ys @ sep # vs \<longleftrightarrow> xs = ys \<and> us = vs"
  using assms
proof (induction xs arbitrary: ys)
  case Nil
  then show ?case by (cases ys) auto
next
  case (Cons x xs)
  then show ?case by (cases ys) auto
qed

text \<open>The digits of a number in a base, most significant first, in a fixed width.\<close>

fun digits :: "nat \<Rightarrow> nat \<Rightarrow> nat \<Rightarrow> nat list" where
  "digits b 0 n = []"
| "digits b (Suc w) n = digits b w (n div b) @ [n mod b]"

lemma length_digits [simp]: "length (digits b w n) = w"
  by (induction w arbitrary: n) simp_all

lemma digits_below: "0 < b \<Longrightarrow> d \<in> set (digits b w n) \<Longrightarrow> d < b"
  by (induction w arbitrary: n) auto

lemma div_mod_less: "n < m \<longleftrightarrow> n div b < m div b \<or> n div b = m div b \<and> n mod b < m mod b" for b :: nat
proof (cases "n div b" "m div b" rule: linorder_cases)
  case less
  then have "n < m" by (metis div_le_mono leD not_le)
  with less show ?thesis by simp
next
  case equal
  then show ?thesis by (metis add_less_cancel_left div_mult_mod_eq less_irrefl)
next
  case greater
  then have "m < n" by (metis div_le_mono leD not_le)
  with greater show ?thesis by simp
qed

lemma digits_less:
  assumes "0 < b" "n < b ^ w" "m < b ^ w"
  shows "digits b w n < digits b w m \<longleftrightarrow> n < m" "digits b w n = digits b w m \<longleftrightarrow> n = m"
proof -
  have "(digits b w n < digits b w m \<longleftrightarrow> n < m) \<and> (digits b w n = digits b w m \<longleftrightarrow> n = m)"
    using assms
  proof (induction w arbitrary: n m)
    case (Suc w)
    then have "n div b < b ^ w" "m div b < b ^ w" by (simp_all add: less_mult_imp_div_less mult.commute)
    note IH = Suc.IH [OF Suc.prems(1) this]
    have eq: "n = m \<longleftrightarrow> n div b = m div b \<and> n mod b = m mod b" by (metis div_mult_mod_eq)
    from IH eq div_mod_less [of n m b] show ?case by (auto simp: less_snoc)
  qed simp
  then show "digits b w n < digits b w m \<longleftrightarrow> n < m" "digits b w n = digits b w m \<longleftrightarrow> n = m" by blast+
qed

lemma map_less:
  fixes f :: "'a::linorder \<Rightarrow> 'b::linorder"
  assumes "\<And>a b. a \<in> S \<Longrightarrow> b \<in> S \<Longrightarrow> (f a < f b \<longleftrightarrow> a < b)" "set xs \<subseteq> S" "set ys \<subseteq> S"
  shows "map f xs < map f ys \<longleftrightarrow> xs < ys"
  using assms(2,3)
proof (induction xs arbitrary: ys)
  case Nil
  then show ?case by (cases ys) auto
next
  case (Cons x xs)
  show ?case
  proof (cases ys)
    case (Cons y zs)
    have "f x = f y \<longleftrightarrow> x = y" using assms(1) [of x y] assms(1) [of y x] Cons.prems Cons
      by (metis insert_subset linorder_neq_iff list.simps(15) order_less_irrefl)
    with Cons Cons.prems Cons.IH [of zs] assms(1) [of x y] show ?thesis by auto
  qed simp
qed

lemma map_eq_strict:
  fixes f :: "'a::linorder \<Rightarrow> 'b::linorder"
  assumes "\<And>a b. a \<in> S \<Longrightarrow> b \<in> S \<Longrightarrow> (f a < f b \<longleftrightarrow> a < b)" "set xs \<subseteq> S" "set ys \<subseteq> S"
  shows "map f xs = map f ys \<longleftrightarrow> xs = ys"
  using map_less [OF assms] map_less [OF assms(1) assms(3) assms(2)] by (metis linorder_neq_iff order_less_irrefl)

section \<open>Decimals\<close>

lemma zero_padded_digits: "zero_padded w n = map (\<lambda>d. char_of (48 + d)) (digits 10 w n)"
  by (induction w arbitrary: n) simp_all

lemma decimal_digit_less:
  "a \<in> {0..<10} \<Longrightarrow> b \<in> {0..<10} \<Longrightarrow> (char_of (48 + a) :: char) < char_of (48 + b) \<longleftrightarrow> a < b" for a b :: nat
  by (simp add: less_char_def)

lemma digits_set: "0 < b \<Longrightarrow> set (digits b w n) \<subseteq> {0..<b}"
  using digits_below by (auto simp: subset_iff)

lemma zero_padded_less:
  assumes "n < 10 ^ w" "m < 10 ^ w"
  shows "zero_padded w n < zero_padded w m \<longleftrightarrow> n < m" "zero_padded w n = zero_padded w m \<longleftrightarrow> n = m"
proof -
  have ten: "set (digits 10 w k) \<subseteq> {0..<10}" for k using digits_set [of 10 w k] by simp
  show "zero_padded w n < zero_padded w m \<longleftrightarrow> n < m"
    unfolding zero_padded_digits
    using map_less [OF decimal_digit_less ten ten] digits_less(1) [of 10 n w m] assms by simp
  show "zero_padded w n = zero_padded w m \<longleftrightarrow> n = m"
    unfolding zero_padded_digits
    using map_eq_strict [OF decimal_digit_less ten ten] digits_less(2) [of 10 n w m] assms by simp
qed

lemma unat_below: "unat (x :: 'w::len word) < 2 ^ LENGTH('w)"
  by (rule unsigned_less)

lemma unat_same: "unat a = unat b \<longleftrightarrow> a = b" for a b :: "'w::len word"
  by (auto intro: unsigned_word_eqI)

lemma padded_less [simp]:
  "padded_u64 a < padded_u64 b \<longleftrightarrow> a < b" "padded_u64 a = padded_u64 b \<longleftrightarrow> a = b"
  "padded_u32 c < padded_u32 d \<longleftrightarrow> c < d" "padded_u32 c = padded_u32 d \<longleftrightarrow> c = d"
proof -
  have fits: "unat (x :: u64) < 10 ^ 20" "unat (y :: u32) < 10 ^ 10" for x y
    using unat_below [of x] unat_below [of y] by simp_all
  show "padded_u64 a < padded_u64 b \<longleftrightarrow> a < b" "padded_u64 a = padded_u64 b \<longleftrightarrow> a = b"
    "padded_u32 c < padded_u32 d \<longleftrightarrow> c < d" "padded_u32 c = padded_u32 d \<longleftrightarrow> c = d"
    unfolding padded_u64_def padded_u32_def zero_padded_less [OF fits(1) fits(1)]
      zero_padded_less [OF fits(2) fits(2)] word_less_nat_alt unat_same by (rule refl)+
qed

section \<open>Bodies\<close>

lemma alphabet_sorted: "sorted_wrt (<) GENERATED_ID_ALPHABET"
  by (simp add: GENERATED_ID_ALPHABET_def less_char_def)

lemma alphabet_length [simp]: "length GENERATED_ID_ALPHABET = 32"
  by (simp add: GENERATED_ID_ALPHABET_def)

lemma alphabet_less:
  "a \<in> {0..<32} \<Longrightarrow> b \<in> {0..<32} \<Longrightarrow> GENERATED_ID_ALPHABET ! a < GENERATED_ID_ALPHABET ! b \<longleftrightarrow> a < b"
  using sorted_wrt_nth_less [OF alphabet_sorted, of a b] sorted_wrt_nth_less [OF alphabet_sorted, of b a]
  by (cases a b rule: linorder_cases) auto

lemma encode_base_32_digits:
  "encode_base_32 v w = map (\<lambda>d. GENERATED_ID_ALPHABET ! d) (digits 32 w (unat v))"
proof (induction w arbitrary: v)
  case (Suc w)
  have positions: "rev [0..<Suc w] = map Suc (rev [0..<w]) @ [0]"
    by (simp add: upt_conv_Cons rev_map map_Suc_upt [symmetric] del: upt_Suc)
  have shift: "drop_bit (5 * Suc p) v = drop_bit (5 * p) (drop_bit 5 v)" for p
    by (simp add: add.commute)
  have low: "unat (v AND 31) = unat v mod 32"
    using take_bit_eq_mask [of 5 v] unsigned_take_bit_eq [of 5 v, where ?'a = nat]
    by (simp add: mask_eq_exp_minus_1 take_bit_eq_mod)
  have high: "unat (drop_bit 5 v) = unat v div 32"
    by (simp only: unat_drop_bit_eq) (simp add: drop_bit_eq_div)
  have "encode_base_32 v (Suc w) = encode_base_32 (drop_bit 5 v) w @ [GENERATED_ID_ALPHABET ! (unat v mod 32)]"
    unfolding encode_base_32_def positions by (simp add: shift low del: mult_Suc_right)
  with Suc.IH [of "drop_bit 5 v"] show ?case by (simp add: high)
qed (simp add: encode_base_32_def)

lemma body_digits:
  "encode_generated_id_body v = map (\<lambda>d. GENERATED_ID_ALPHABET ! d) (digits 32 26 (unat v))"
  by (simp add: encode_generated_id_body_def encode_base_32_digits GENERATED_ID_BODY_BYTES_def)

lemma body_less [simp]:
  "encode_generated_id_body a < encode_generated_id_body b \<longleftrightarrow> a < b"
  "encode_generated_id_body a = encode_generated_id_body b \<longleftrightarrow> a = b"
proof -
  have base: "set (digits 32 26 k) \<subseteq> {0..<32}" for k using digits_set [of 32 26 k] by simp
  have fits: "unat (x :: u128) < 32 ^ 26" for x using unat_below [of x] by simp
  show "encode_generated_id_body a < encode_generated_id_body b \<longleftrightarrow> a < b"
    unfolding body_digits
    using map_less [OF alphabet_less base base] digits_less(1) [OF _ fits fits, of a b]
    by (simp add: word_less_nat_alt)
  show "encode_generated_id_body a = encode_generated_id_body b \<longleftrightarrow> a = b"
    unfolding body_digits
    using map_eq_strict [OF alphabet_less base base] digits_less(2) [OF _ fits fits, of a b]
    by (simp add: unat_same)
qed

lemma alphabet_position_nth: "d < 32 \<Longrightarrow> alphabet_position (GENERATED_ID_ALPHABET ! d) = Some d"
proof -
  assume d: "d < 32"
  have "GENERATED_ID_ALPHABET ! i = GENERATED_ID_ALPHABET ! d \<longleftrightarrow> i = d" if "i < 32" for i
    using alphabet_less [of i d] alphabet_less [of d i] that d by (metis atLeastLessThan_iff le0 linorder_neq_iff order_less_irrefl)
  then show ?thesis using d unfolding alphabet_position_def find_Some_iff by (intro exI [of _ d]) auto
qed

lemma decode_digits_fold:
  "\<forall>d\<in>set ds. d < 32 \<Longrightarrow>
    decode_digits v (map (\<lambda>d. GENERATED_ID_ALPHABET ! d) ds) =
      Some (fold (\<lambda>d v. push_bit 5 v OR word_of_nat d) ds v)"
  by (induction ds arbitrary: v) (simp_all add: alphabet_position_nth)

lemma fold_digits_value: "fold (\<lambda>d v. push_bit 5 v OR word_of_nat d) (digits 32 w n) 0 = (word_of_nat n :: u128)"
  if "n < 32 ^ w"
  using that
proof (induction w arbitrary: n)
  case (Suc w)
  then have "n div 32 < 32 ^ w" by (simp add: less_mult_imp_div_less mult.commute)
  note IH = Suc.IH [OF this]
  have "n div 32 = drop_bit 5 n" "n mod 32 = take_bit 5 n" by (simp_all add: drop_bit_eq_div take_bit_eq_mod)
  then have "push_bit 5 (word_of_nat (n div 32)) OR word_of_nat (n mod 32) = (word_of_nat n :: u128)"
    by (intro bit_word_eqI) (auto simp: bit_simps)
  with IH show ?case by simp
qed simp

lemma digits_surj:
  assumes "0 < b" "\<forall>d\<in>set ds. d < b"
  shows "\<exists>n<b ^ length ds. ds = digits b (length ds) n"
  using assms(2)
proof (induction ds rule: rev_induct)
  case (snoc d ds)
  then obtain n where n: "n < b ^ length ds" "ds = digits b (length ds) n" by auto
  have "n * b + d < b ^ length (ds @ [d])"
  proof -
    have "n * b + d < (n + 1) * b" using snoc.prems by simp
    also have "\<dots> \<le> b ^ length ds * b" using n(1) by (intro mult_right_mono) auto
    finally show ?thesis by (simp add: mult.commute)
  qed
  moreover have "ds @ [d] = digits b (length (ds @ [d])) (n * b + d)"
    using n(2) snoc.prems assms(1) by simp
  ultimately show ?case by blast
qed simp

lemma digits_first: "0 < b \<Longrightarrow> n < b ^ Suc w \<Longrightarrow> digits b (Suc w) n = (n div b ^ w) # digits b w (n mod b ^ w)"
proof (induction w arbitrary: n)
  case 0
  then show ?case by simp
next
  case (Suc w)
  then have "n div b < b ^ Suc w" by (simp add: less_mult_imp_div_less mult.commute)
  from Suc.IH [OF Suc.prems(1) this]
  have "digits b (Suc (Suc w)) n = (n div b div b ^ w) # digits b w (n div b mod b ^ w) @ [n mod b]" by simp
  moreover have "n div b div b ^ w = n div b ^ Suc w" by (simp add: div_mult2_eq)
  moreover have "n div b mod b ^ w = n mod b ^ Suc w div b" using Suc.prems(1) by (simp add: mod_mult2_eq)
  moreover have "n mod b = n mod b ^ Suc w mod b" by (simp add: mod_mod_cancel)
  ultimately show ?case by simp
qed

lemma first_digit: "d < 32 \<Longrightarrow> GENERATED_ID_ALPHABET ! d \<le> CHR ''7'' \<longleftrightarrow> d \<le> 7"
proof -
  assume "d < 32"
  moreover have "CHR ''7'' = GENERATED_ID_ALPHABET ! 7" by (simp add: GENERATED_ID_ALPHABET_def)
  ultimately show ?thesis using alphabet_less [of 7 d] by (simp add: not_less [symmetric])
qed

lemma body_valid_iff:
  assumes "\<forall>d\<in>set ds. d < 32"
  shows "generated_id_body_error (map (\<lambda>d. GENERATED_ID_ALPHABET ! d) ds) = None \<longleftrightarrow>
    length ds = 26 \<and> hd ds \<le> 7"
proof -
  have "list_all (\<lambda>byte. byte \<in> set GENERATED_ID_ALPHABET) (map (\<lambda>d. GENERATED_ID_ALPHABET ! d) ds)"
    using assms by (auto simp: list_all_iff intro: nth_mem)
  moreover have "hd ds < 32" if "ds \<noteq> []" using assms that by (cases ds) auto
  ultimately show ?thesis
    by (cases ds) (auto simp: generated_id_body_error_def GENERATED_ID_BODY_BYTES_def first_digit)
qed

lemma spelled_over:
  "list_all (\<lambda>c. c \<in> set xs) s \<Longrightarrow> \<exists>ds. s = map (\<lambda>d. xs ! d) ds \<and> (\<forall>d\<in>set ds. d < length xs)"
proof (induction s)
  case (Cons c s)
  then obtain ds d where "s = map (\<lambda>d. xs ! d) ds" "\<forall>d\<in>set ds. d < length xs" "c = xs ! d" "d < length xs"
    by (auto simp: in_set_conv_nth)
  then show ?case by (intro exI [of _ "d # ds"]) simp
qed simp

text \<open>Reading a body is the inverse of spelling one.\<close>

lemma decode_body_iff: "decode_generated_id_body body = Some v \<longleftrightarrow> body = encode_generated_id_body v"
proof
  assume "body = encode_generated_id_body v"
  then have body: "body = map (\<lambda>d. GENERATED_ID_ALPHABET ! d) (digits 32 26 (unat v))" by (simp add: body_digits)
  have below: "\<forall>d\<in>set (digits 32 26 (unat v)). d < 32" using digits_below [of 32] by auto
  have small: "unat v < 32 ^ 26" "unat v div 32 ^ 25 \<le> 7" using unat_below [of v] by simp_all
  have "hd (digits 32 26 (unat v)) = unat v div 32 ^ 25"
    using digits_first [of 32 "unat v" 25] small(1) by simp
  with small below have "generated_id_body_error body = None" by (simp add: body body_valid_iff)
  moreover have "decode_digits 0 body = Some v"
    unfolding body decode_digits_fold [OF below] fold_digits_value [OF small(1)] by simp
  ultimately show "decode_generated_id_body body = Some v" by (simp add: decode_generated_id_body_def)
next
  assume "decode_generated_id_body body = Some v"
  then have valid: "generated_id_body_error body = None" and decoded: "decode_digits 0 body = Some v"
    by (auto simp: decode_generated_id_body_def split: if_splits)
  from valid have "list_all (\<lambda>c. c \<in> set GENERATED_ID_ALPHABET) body"
    by (auto simp: generated_id_body_error_def split: if_splits)
  from spelled_over [OF this] obtain ds where body: "body = map (\<lambda>d. GENERATED_ID_ALPHABET ! d) ds"
    and below: "\<forall>d\<in>set ds. d < 32" by auto
  from valid have len: "length ds = 26" and first: "hd ds \<le> 7" by (simp_all add: body body_valid_iff [OF below])
  from digits_surj [of 32 ds] below len obtain n where n: "n < 32 ^ 26" "ds = digits 32 26 n" by auto
  have "n div 32 ^ 25 \<le> 7" using first n digits_first [of 32 n 25] by simp
  then have fits: "n < 2 ^ 128" by simp
  have "fold (\<lambda>d v. push_bit 5 v OR word_of_nat d) ds 0 = (word_of_nat n :: u128)"
    unfolding n(2) by (rule fold_digits_value [OF n(1)])
  then have "v = word_of_nat n" using decoded unfolding body decode_digits_fold [OF below] by simp
  then have "unat v = n" using fits by (simp add: unsigned_of_nat take_bit_eq_mod)
  then show "body = encode_generated_id_body v" by (simp add: body n(2) body_digits)
qed

lemma strip_prefix_iff: "strip_prefix pre s = Some rest \<longleftrightarrow> s = pre @ rest"
  by (auto simp: strip_prefix_def) (metis append_take_drop_id)

lemma parse_inode_id_iff: "parse_inode_id s = Inr i \<longleftrightarrow> s = inode_id_to_string i"
  by (auto simp: parse_inode_id_def inode_id_to_string_def bind_eq_Some_conv decode_body_iff strip_prefix_iff)

section \<open>Hexadecimal spellings\<close>

lemma nibble_spelled: "d < 16 \<Longrightarrow> nibble (HEX ! d) = Inr d"
proof -
  have "list_all (\<lambda>d. nibble (HEX ! d) = Inr d) [0..<16]" by code_simp
  then show "d < 16 \<Longrightarrow> nibble (HEX ! d) = Inr d" by (simp add: list_all_iff)
qed

lemma nibble_Inr: "nibble c = Inr d \<Longrightarrow> d < 16 \<and> c = HEX ! d"
proof -
  let ?n = "of_char c :: nat"
  assume "nibble c = Inr d"
  then have "?n \<in> {48..<58} \<and> d = ?n - 48 \<or> ?n \<in> {97..<103} \<and> d = ?n - 97 + 10"
    by (auto simp: nibble_def less_eq_char_def split: if_splits)
  moreover have "list_all (\<lambda>n. n - 48 < 16 \<and> char_of n = HEX ! (n - 48)) [48..<58]"
    "list_all (\<lambda>n. n - 97 + 10 < 16 \<and> char_of n = HEX ! (n - 97 + 10)) [97..<103]" by code_simp+
  ultimately have "d < 16 \<and> char_of ?n = HEX ! d" unfolding list_all_iff set_upt by blast
  then show ?thesis by simp
qed

lemma hex_encode_simps [simp]:
  "hex_encode_bytes [] = []"
  "hex_encode_bytes (c # s) = HEX ! (of_char c div 16) # HEX ! (of_char c mod 16) # hex_encode_bytes s"
  by (simp_all add: hex_encode_bytes_def)

lemma hex_decode_encode: "hex_decode_pairs (hex_encode_bytes s) = Inr s"
proof (induction s)
  case (Cons c s)
  have "of_char c div 16 < (16 :: nat)" using nat_of_char_less_256 [of c] by (simp add: less_mult_imp_div_less)
  then show ?case using Cons.IH by (simp add: nibble_spelled)
qed simp

lemma hex_decode_iff: "hex_decode_bytes encoded = Inr s \<longleftrightarrow> encoded = hex_encode_bytes s"
proof
  assume "encoded = hex_encode_bytes s"
  moreover have "even (length (hex_encode_bytes s))" by (induction s) simp_all
  ultimately show "hex_decode_bytes encoded = Inr s" by (simp add: hex_decode_bytes_def hex_decode_encode)
next
  assume "hex_decode_bytes encoded = Inr s"
  then have "even (length encoded)" "hex_decode_pairs encoded = Inr s" by (auto simp: hex_decode_bytes_def)
  then show "encoded = hex_encode_bytes s"
  proof (induction encoded arbitrary: s rule: hex_decode_pairs.induct)
    case (1 high low rest)
    then obtain h l decoded where parts: "nibble high = Inr h" "nibble low = Inr l"
      "hex_decode_pairs rest = Inr decoded" "s = char_of (h * 16 + l) # decoded" by auto
    with 1 have rest: "rest = hex_encode_bytes decoded" by auto
    from nibble_Inr [OF parts(1)] nibble_Inr [OF parts(2)] show ?case by (simp add: parts(4) rest)
  qed simp_all
qed


lemma hex_less [simp]:
  "hex_encode_bytes s < hex_encode_bytes t \<longleftrightarrow> s < t"
  "hex_encode_bytes s = hex_encode_bytes t \<longleftrightarrow> s = t"
proof -
  have sorted: "sorted_wrt (<) HEX" "length HEX = 16" by (simp_all add: HEX_def less_char_def)
  have digit: "HEX ! a < HEX ! b \<longleftrightarrow> a < b" if "a < 16" "b < 16" for a b
    using sorted_wrt_nth_less [OF sorted(1), of a b] sorted_wrt_nth_less [OF sorted(1), of b a] that sorted(2)
    by (metis linorder_neq_iff order_less_asym)
  have same: "HEX ! a = HEX ! b \<longleftrightarrow> a = b" if "a < 16" "b < 16" for a b
    using digit [OF that] digit [OF that(2,1)] by (metis linorder_neq_iff order_less_irrefl)
  have pair: "HEX ! (of_char c div 16) < HEX ! (of_char d div 16) \<or>
      HEX ! (of_char c div 16) = HEX ! (of_char d div 16) \<and> HEX ! (of_char c mod 16) < HEX ! (of_char d mod 16)
      \<longleftrightarrow> c < d" for c d :: char
  proof -
    let ?c = "of_char c :: nat" and ?d = "of_char d :: nat"
    have below: "?c div 16 < 16" "?d div 16 < 16" "?c mod 16 < 16" "?d mod 16 < 16"
      using nat_of_char_less_256 [of c] nat_of_char_less_256 [of d] by (simp_all add: less_mult_imp_div_less)
    have "c < d \<longleftrightarrow> ?c div 16 < ?d div 16 \<or> ?c div 16 = ?d div 16 \<and> ?c mod 16 < ?d mod 16"
      unfolding less_char_def by (rule div_mod_less)
    then show ?thesis unfolding digit [OF below(1,2)] same [OF below(1,2)] digit [OF below(3,4)] by (rule sym)
  qed
  have injective: "s = t" if "hex_encode_bytes s = hex_encode_bytes t" for s t
    using hex_decode_encode [of s] hex_decode_encode [of t] unfolding that by (metis sum.inject(2))
  then show "hex_encode_bytes s = hex_encode_bytes t \<longleftrightarrow> s = t" by blast
  show "hex_encode_bytes s < hex_encode_bytes t \<longleftrightarrow> s < t"
  proof (induction s arbitrary: t)
    case Nil
    then show ?case by (cases t) auto
  next
    case (Cons c s)
    show ?case
    proof (cases t)
      case (Cons d u)
      have "HEX ! (of_char c div 16) = HEX ! (of_char d div 16) \<and> HEX ! (of_char c mod 16) = HEX ! (of_char d mod 16)
        \<longleftrightarrow> c = d" using injective [of "[c]" "[d]"] by auto
      with Cons Cons.IH [of u] pair [of c d] show ?thesis by auto
    qed simp
  qed
qed

section \<open>Components of keys\<close>

text \<open>
  A spelling that can be a component of a key: it keeps the order, and its characters sort
  above the hyphen that ends the component.
\<close>

locale key_component =
  fixes spell :: "'a::linorder \<Rightarrow> string"
  assumes spell_less: "spell a < spell b \<longleftrightarrow> a < b"
    and spell_high: "c \<in> set (spell a) \<Longrightarrow> CHR ''-'' < c"
begin

lemma spell_eq: "spell a = spell b \<longleftrightarrow> a = b"
  using spell_less [of a b] spell_less [of b a] by (metis linorder_neq_iff)

lemma hyphen_free: "CHR ''-'' \<notin> set (spell a)"
  using spell_high by blast

lemma component_less:
  "spell a @ CHR ''-'' # us < spell b @ CHR ''-'' # vs \<longleftrightarrow> a < b \<or> a = b \<and> us < vs"
proof -
  have "\<forall>c\<in>set (spell a). CHR ''-'' < c" "\<forall>c\<in>set (spell b). CHR ''-'' < c" using spell_high by blast+
  then show ?thesis using less_separated spell_less spell_eq by metis
qed

lemma component_eq:
  "spell a @ CHR ''-'' # us = spell b @ CHR ''-'' # vs \<longleftrightarrow> a = b \<and> us = vs"
  using eq_separated [OF hyphen_free hyphen_free] spell_eq by metis

end

lemma zero_padded_high: "c \<in> set (zero_padded w n) \<Longrightarrow> CHR ''-'' < c"
proof -
  assume "c \<in> set (zero_padded w n)"
  then obtain d where "d \<in> set (digits 10 w n)" "c = char_of (48 + d)" unfolding zero_padded_digits by auto
  moreover from this have "d < 10" using digits_below [of 10 d w n] by simp
  ultimately show ?thesis by (simp add: less_char_def)
qed

lemma alphabet_high: "d < 32 \<Longrightarrow> CHR ''-'' < GENERATED_ID_ALPHABET ! d"
proof -
  have "\<forall>c\<in>set GENERATED_ID_ALPHABET. CHR ''-'' < c" by (simp add: GENERATED_ID_ALPHABET_def less_char_def)
  then show "d < 32 \<Longrightarrow> CHR ''-'' < GENERATED_ID_ALPHABET ! d" by (simp add: alphabet_length nth_mem)
qed

lemma hex_high: "c \<in> set (hex_encode_bytes s) \<Longrightarrow> CHR ''-'' < c"
proof (induction s)
  case (Cons b s)
  have "\<forall>c\<in>set HEX. CHR ''-'' < c" "length HEX = 16" by (simp_all add: HEX_def less_char_def)
  moreover have "of_char b div 16 < (16 :: nat)" using nat_of_char_less_256 [of b] by (simp add: less_mult_imp_div_less)
  ultimately have "CHR ''-'' < HEX ! (of_char b div 16)" "CHR ''-'' < HEX ! (of_char b mod 16)" by (simp_all add: nth_mem)
  with Cons show ?case by auto
qed simp

interpretation body_part: key_component encode_generated_id_body
proof unfold_locales
  fix a c assume "c \<in> set (encode_generated_id_body a)"
  then show "CHR ''-'' < c" unfolding body_digits using digits_below [of 32] alphabet_high by auto
qed simp

interpretation hex_part: key_component hex_encode_bytes
  by unfold_locales (simp_all add: hex_high)

interpretation u64_part: key_component padded_u64
  by unfold_locales (simp, auto simp: padded_u64_def intro: zero_padded_high)

interpretation u32_part: key_component padded_u32
  by unfold_locales (simp, auto simp: padded_u32_def intro: zero_padded_high)

lemmas key_parts_less = body_part.component_less hex_part.component_less u64_part.component_less u32_part.component_less

lemmas key_parts_eq = body_part.component_eq hex_part.component_eq u64_part.component_eq u32_part.component_eq

text \<open>Subtracting from the largest value reverses the order.\<close>

lemma descending_word [simp]:
  "- 1 - a < - 1 - b \<longleftrightarrow> b < a" "- 1 - a = - 1 - b \<longleftrightarrow> a = b" for a b :: "'w::len word"
proof -
  have "a \<le> - 1" "b \<le> - 1" by simp_all
  then show "- 1 - a < - 1 - b \<longleftrightarrow> b < a"
    unfolding word_less_nat_alt word_le_nat_alt by (auto simp: unat_sub word_le_nat_alt)
  show "- 1 - a = - 1 - b \<longleftrightarrow> a = b" by auto
qed

text \<open>
  C31: an inode id has exactly one spelling.  A text parses as an id exactly when it is that
  id's spelling, so every other text is refused; the same holds of the hexadecimal spelling
  of bytes, and the spellings of ids are ordered as the ids are.
\<close>

theorem inode_ids_have_one_spelling:
  "(parse_inode_id s = Inr i \<longleftrightarrow> s = inode_id_to_string i) \<and>
   (inode_id_to_string i < inode_id_to_string j \<longleftrightarrow> i < j) \<and>
   (hex_decode_bytes encoded = Inr bytes \<longleftrightarrow> encoded = hex_encode_bytes bytes)"
  by (simp add: parse_inode_id_iff hex_decode_iff inode_id_to_string_def INODE_ID_PREFIX_def)

end
