(* ===== verification/Object_Keys.thy ===== *)
theory Object_Keys
  imports Path_Grammar Spelled_Ids
begin

text \<open>
  The grammars of string ids (\<open>loonfs-types/src/ids.rs\<close>), the keys of durable objects
  (\<open>loonfs-objectstore/src/keys.rs\<close>) and their classification
  (\<open>loonfs-objectstore/src/layout.rs\<close>).  Validation errors are kept as the rule that is
  broken.  The lemmas show that each key is classified as what it was built for, with the
  namespace and the identifier it was built from.
\<close>

section \<open>Grammars of ids\<close>

datatype id_error =
    IdEmpty
  | IdTooLong
  | IdSurroundingWhitespace
  | IdDots
  | IdFirstCharacter
  | IdCharacter
  | IdReservedPrefix
  | IdPrefix string
  | IdBody id_body_error
  | IdPinShape
  | IdSlash
  | IdControlCharacter
  | IdBlank

definition MAX_ID_BYTES :: nat where
  "MAX_ID_BYTES = 128"

definition MAX_NAME_KEY_BYTES :: nat where
  "MAX_NAME_KEY_BYTES = 768"

definition MAX_WRITER_ID_BYTES :: nat where
  "MAX_WRITER_ID_BYTES = 256"

definition MAX_EXTENSION_NAME_BYTES :: nat where
  "MAX_EXTENSION_NAME_BYTES = 64"

definition is_ascii_lowercase :: "char \<Rightarrow> bool" where
  "is_ascii_lowercase c = (let b = of_char c :: nat in 97 \<le> b \<and> b \<le> 122)"

definition is_allowed_id_tail_char :: "char \<Rightarrow> bool" where
  "is_allowed_id_tail_char c \<longleftrightarrow> is_ascii_lowercase c \<or> is_ascii_digit c \<or> c \<in> set ''._-''"

text \<open>\<open>value.trim() != value\<close>: the first or the last character is white space.\<close>

definition trim_changes :: "string \<Rightarrow> bool" where
  "trim_changes s \<longleftrightarrow>
     (case utf8_chars s of [] \<Rightarrow> False | c # cs \<Rightarrow> char_is_whitespace c \<or> char_is_whitespace (last (c # cs)))"

definition validate_id_grammar :: "string \<Rightarrow> (id_error, unit) result" where
  "validate_id_grammar v =
     rbind (err_if (v = []) IdEmpty) (\<lambda>_.
     rbind (err_if (length v > MAX_ID_BYTES) IdTooLong) (\<lambda>_.
     rbind (err_if (trim_changes v) IdSurroundingWhitespace) (\<lambda>_.
     rbind (err_if (v = ''.'' \<or> v = ''..'') IdDots) (\<lambda>_.
     rbind (err_if (\<not> is_ascii_lowercase (hd v) \<and> \<not> is_ascii_digit (hd v)) IdFirstCharacter) (\<lambda>_.
     err_if (\<not> list_all is_allowed_id_tail_char (tl v)) IdCharacter)))))"

text \<open>\<open>str::starts_with\<close>.\<close>

definition starts_with :: "string \<Rightarrow> string \<Rightarrow> bool" where
  "starts_with s pre \<longleftrightarrow> take (length pre) s = pre"

definition validate_namespace_id :: "string \<Rightarrow> (id_error, unit) result" where
  "validate_namespace_id v =
     rbind (validate_id_grammar v) (\<lambda>_. err_if (starts_with v ''loonfs-'') IdReservedPrefix)"

definition validate_commit_id :: "string \<Rightarrow> (id_error, unit) result" where
  "validate_commit_id v = validate_id_grammar v"

definition validate_name_key :: "string \<Rightarrow> (id_error, unit) result" where
  "validate_name_key v =
     rbind (err_if (v = []) IdEmpty) (\<lambda>_.
     rbind (err_if (CHR ''/'' \<in> set v) IdSlash) (\<lambda>_.
     rbind (err_if (v = ''.'' \<or> v = ''..'') IdDots) (\<lambda>_.
     rbind (err_if (list_ex char_is_control (utf8_chars v)) IdControlCharacter) (\<lambda>_.
     err_if (length v > MAX_NAME_KEY_BYTES) IdTooLong))))"

definition validate_writer_id :: "string \<Rightarrow> (id_error, unit) result" where
  "validate_writer_id v =
     rbind (err_if (list_all char_is_whitespace (utf8_chars v)) IdBlank) (\<lambda>_.
     err_if (length v > MAX_WRITER_ID_BYTES) IdTooLong)"

definition is_ascii_alphanumeric :: "char \<Rightarrow> bool" where
  "is_ascii_alphanumeric c \<longleftrightarrow>
     is_ascii_digit c \<or> is_ascii_lowercase c \<or> (let b = of_char c :: nat in 65 \<le> b \<and> b \<le> 90)"

definition validate_binding_version :: "string \<Rightarrow> (id_error, unit) result" where
  "validate_binding_version v =
     rbind (err_if (v = []) IdEmpty) (\<lambda>_.
     err_if (\<not> list_all (\<lambda>byte. is_ascii_alphanumeric byte \<or> byte \<in> set ''-_'') v) IdCharacter)"

definition validate_generated_id :: "string \<Rightarrow> string \<Rightarrow> (id_error, unit) result" where
  "validate_generated_id pre v =
     (case strip_prefix (pre @ ''_'') v of
        None \<Rightarrow> Inl (IdPrefix (pre @ ''_''))
      | Some body \<Rightarrow> (case generated_id_body_error body of Some e \<Rightarrow> Inl (IdBody e) | None \<Rightarrow> Inr ()))"

definition validate_extension_name :: "string \<Rightarrow> (id_error, unit) result" where
  "validate_extension_name v =
     rbind (err_if (length v > MAX_EXTENSION_NAME_BYTES) IdTooLong) (\<lambda>_.
     rbind (err_if (\<not> (case v of [] \<Rightarrow> False | first # _ \<Rightarrow> is_ascii_lowercase first)) IdFirstCharacter) (\<lambda>_.
     err_if (\<not> list_all (\<lambda>byte. is_ascii_lowercase byte \<or> is_ascii_digit byte \<or> byte = CHR ''_'') (tl v)) IdCharacter))"

text \<open>\<open>str::parse::<u64>\<close> on a text of decimal digits: no value where it does not fit.\<close>

definition decimal_value :: "string \<Rightarrow> nat" where
  "decimal_value s = foldl (\<lambda>v c. 10 * v + (of_char c - 48)) 0 s"

definition parse_u64 :: "string \<Rightarrow> u64 option" where
  "parse_u64 s = (if int (decimal_value s) < 2 ^ 64 then Some (word_of_nat (decimal_value s)) else None)"

text \<open>\<open>str::split_once\<close> on a character.\<close>

fun split_once :: "char \<Rightarrow> string \<Rightarrow> (string \<times> string) option" where
  "split_once c [] = None"
| "split_once c (x # xs) = (if x = c then Some ([], xs) else map_option (\<lambda>(a, b). (x # a, b)) (split_once c xs))"

definition is_lower_hex_byte :: "char \<Rightarrow> bool" where
  "is_lower_hex_byte byte = (case nibble byte of Inl _ \<Rightarrow> False | Inr _ \<Rightarrow> True)"

definition validate_pin_id :: "string \<Rightarrow> (id_error, unit) result" where
  "validate_pin_id v =
     (let valid = (case Option.bind (strip_prefix ''pin_'' v) (split_once (CHR ''-'')) of
                     None \<Rightarrow> False
                   | Some (number, entropy) \<Rightarrow>
                       length number = 20 \<and> list_all is_ascii_digit number \<and>
                       (case parse_u64 number of
                          None \<Rightarrow> False
                        | Some n \<Rightarrow> (case parse_public_ordinal n of Inl _ \<Rightarrow> False | Inr n \<Rightarrow> 0 < n)) \<and>
                       length entropy = 16 \<and> list_all is_lower_hex_byte entropy)
      in err_if (\<not> valid) IdPinShape)"

section \<open>Keys\<close>

definition PROBE_RUN_PREFIX :: string where
  "PROBE_RUN_PREFIX = ''probe-runs''"

definition NAMESPACES_DIRECTORY :: string where
  "NAMESPACES_DIRECTORY = ''namespaces''"

definition HINT_NAME :: string where
  "HINT_NAME = ''hint.json''"

definition WAL_DIRECTORY :: string where
  "WAL_DIRECTORY = ''wal''"

definition WAL_SUFFIX :: string where
  "WAL_SUFFIX = ''.wal.zst''"

definition MANIFEST_DIRECTORY :: string where
  "MANIFEST_DIRECTORY = ''manifests''"

definition MANIFEST_SUFFIX :: string where
  "MANIFEST_SUFFIX = ''.json.zst''"

definition SEGMENT_DIRECTORY :: string where
  "SEGMENT_DIRECTORY = ''segments''"

definition SEGMENT_SUFFIX :: string where
  "SEGMENT_SUFFIX = ''.sst.zst''"

definition PIN_DIRECTORY :: string where
  "PIN_DIRECTORY = ''pins''"

definition PIN_SUFFIX :: string where
  "PIN_SUFFIX = ''.json''"

definition UPLOAD_DIRECTORY :: string where
  "UPLOAD_DIRECTORY = ''uploads''"

definition UPLOAD_SESSION_SUFFIX :: string where
  "UPLOAD_SESSION_SUFFIX = ''.json''"

definition UPLOAD_OUTCOME_SUFFIX :: string where
  "UPLOAD_OUTCOME_SUFFIX = ''.outcome.json''"

definition CONTENT_DIRECTORY :: string where
  "CONTENT_DIRECTORY = ''content''"

definition TEMPORARY_DIRECTORY :: string where
  "TEMPORARY_DIRECTORY = ''temporary''"

definition EXTENSIONS_DIRECTORY :: string where
  "EXTENSIONS_DIRECTORY = ''extensions''"

definition namespace_prefix :: "namespace_id \<Rightarrow> string" where
  "namespace_prefix ns = NAMESPACES_DIRECTORY @ ''/'' @ ns @ ''/''"

definition extensions_prefix :: "namespace_id \<Rightarrow> string" where
  "extensions_prefix ns = namespace_prefix ns @ EXTENSIONS_DIRECTORY @ ''/''"

definition extension_prefix :: "namespace_id \<Rightarrow> string \<Rightarrow> string" where
  "extension_prefix ns name = extensions_prefix ns @ name @ ''/''"

definition extension_segment_prefix :: "namespace_id \<Rightarrow> string \<Rightarrow> string" where
  "extension_segment_prefix ns name = extension_prefix ns name @ SEGMENT_DIRECTORY @ ''/''"

definition extension_segment :: "namespace_id \<Rightarrow> string \<Rightarrow> string \<Rightarrow> string" where
  "extension_segment ns name segment_id = extension_segment_prefix ns name @ segment_id @ SEGMENT_SUFFIX"

definition wal_prefix :: "namespace_id \<Rightarrow> string" where
  "wal_prefix ns = namespace_prefix ns @ WAL_DIRECTORY @ ''/''"

definition wal_object :: "namespace_id \<Rightarrow> u64 \<Rightarrow> string" where
  "wal_object ns wal_no = wal_prefix ns @ padded_u64 wal_no @ WAL_SUFFIX"

definition hint :: "namespace_id \<Rightarrow> string" where
  "hint ns = namespace_prefix ns @ HINT_NAME"

definition metadata_manifest_prefix :: "namespace_id \<Rightarrow> string" where
  "metadata_manifest_prefix ns = namespace_prefix ns @ MANIFEST_DIRECTORY @ ''/''"

definition metadata_segment_prefix :: "namespace_id \<Rightarrow> string" where
  "metadata_segment_prefix ns = namespace_prefix ns @ SEGMENT_DIRECTORY @ ''/''"

definition metadata_manifest_object :: "namespace_id \<Rightarrow> u64 \<Rightarrow> string" where
  "metadata_manifest_object ns manifest_no =
     metadata_manifest_prefix ns @ padded_u64 manifest_no @ MANIFEST_SUFFIX"

definition metadata_segment :: "namespace_id \<Rightarrow> string \<Rightarrow> string" where
  "metadata_segment ns segment_id = metadata_segment_prefix ns @ segment_id @ SEGMENT_SUFFIX"

definition pin_prefix :: "namespace_id \<Rightarrow> string" where
  "pin_prefix ns = namespace_prefix ns @ PIN_DIRECTORY @ ''/''"

definition pin :: "namespace_id \<Rightarrow> string \<Rightarrow> string" where
  "pin ns pin_id = pin_prefix ns @ pin_id @ PIN_SUFFIX"

definition upload_session_prefix :: "namespace_id \<Rightarrow> string" where
  "upload_session_prefix root = namespace_prefix root @ UPLOAD_DIRECTORY @ ''/''"

definition upload_session :: "namespace_id \<Rightarrow> string \<Rightarrow> string" where
  "upload_session root upload_id = upload_session_prefix root @ upload_id @ UPLOAD_SESSION_SUFFIX"

definition upload_outcome :: "namespace_id \<Rightarrow> string \<Rightarrow> string" where
  "upload_outcome root upload_id = upload_session_prefix root @ upload_id @ UPLOAD_OUTCOME_SUFFIX"

definition content_prefix :: "namespace_id \<Rightarrow> string" where
  "content_prefix root = namespace_prefix root @ CONTENT_DIRECTORY @ ''/''"

definition content_blob_name :: "content_id \<Rightarrow> string" where
  "content_blob_name content_id = content_id"

definition content_blob :: "namespace_id \<Rightarrow> content_id \<Rightarrow> string" where
  "content_blob root content_id = content_prefix root @ content_blob_name content_id"

definition content_span_name :: "content_id \<Rightarrow> u64 \<Rightarrow> u64 \<Rightarrow> string" where
  "content_span_name content_id start end =
     content_id @ ''-'' @ padded_u64 start @ ''-'' @ padded_u64 end"

definition content_span :: "namespace_id \<Rightarrow> content_id \<Rightarrow> u64 \<Rightarrow> u64 \<Rightarrow> string" where
  "content_span root content_id start end = content_prefix root @ content_span_name content_id start end"

definition temporary_prefix :: "namespace_id \<Rightarrow> string" where
  "temporary_prefix ns = namespace_prefix ns @ TEMPORARY_DIRECTORY @ ''/''"

text \<open>The random value of the generated id is an argument.\<close>

definition temporary_object :: "u128 \<Rightarrow> namespace_id \<Rightarrow> string" where
  "temporary_object uuid ns = temporary_prefix ns @ ''tmp_'' @ encode_generated_id_body uuid"

definition probe_runs_prefix :: string where
  "probe_runs_prefix = PROBE_RUN_PREFIX @ ''/''"

definition probe_run_prefix :: "string \<Rightarrow> string" where
  "probe_run_prefix run_id = PROBE_RUN_PREFIX @ ''/'' @ run_id @ ''/''"

section \<open>Classification\<close>

datatype durable_object_family =
    WalObject
  | Hint
  | MetadataManifest
  | MetadataSegment
  | ExtensionSegment
  | Pin
  | UploadSession
  | UploadOutcome
  | ContentBlob
  | TemporaryObject

record parsed_object_key =
  pk_family :: durable_object_family
  pk_prefix_namespace_id :: string
  pk_identifier :: "string option"

definition parsed :: "durable_object_family \<Rightarrow> string \<Rightarrow> string option \<Rightarrow> parsed_object_key" where
  "parsed family ns identifier =
     \<lparr> pk_family = family, pk_prefix_namespace_id = ns, pk_identifier = identifier \<rparr>"

definition CONTENT_ID_BYTES :: nat where
  "CONTENT_ID_BYTES = length ''con_'' + GENERATED_ID_BODY_BYTES"

definition CONTENT_SPAN_NAME_BYTES :: nat where
  "CONTENT_SPAN_NAME_BYTES = CONTENT_ID_BYTES + 2 * 21"

text \<open>\<open>str::strip_suffix\<close>.\<close>

definition strip_suffix :: "string \<Rightarrow> string \<Rightarrow> string option" where
  "strip_suffix suf s = map_option rev (strip_prefix (rev suf) (rev s))"

definition parse_fixed_width_no :: "string \<Rightarrow> u64 option" where
  "parse_fixed_width_no s =
     (if length s \<noteq> 20 \<or> \<not> list_all is_ascii_digit s then None else parse_u64 s)"

definition parse_wal_no :: "string \<Rightarrow> u64 option" where
  "parse_wal_no s =
     Option.bind (parse_fixed_width_no s) (\<lambda>n.
     case parse_public_ordinal n of Inl _ \<Rightarrow> None | Inr n \<Rightarrow> if 0 < n then Some n else None)"

definition is_content_span_name :: "string \<Rightarrow> bool" where
  "is_content_span_name object \<longleftrightarrow>
     length object = CONTENT_SPAN_NAME_BYTES \<and> list_all (\<lambda>byte. of_char byte < (128 :: nat)) object \<and>
     object ! CONTENT_ID_BYTES = CHR ''-'' \<and> object ! (CONTENT_ID_BYTES + 21) = CHR ''-'' \<and>
     list_all is_ascii_digit (take 20 (drop (CONTENT_ID_BYTES + 1) object)) \<and>
     list_all is_ascii_digit (drop (CONTENT_ID_BYTES + 22) object)"

text \<open>The arms of the match on a path of four segments below \<open>namespaces\<close>.\<close>

definition parse_named_object :: "string \<Rightarrow> string \<Rightarrow> string \<Rightarrow> parsed_object_key option" where
  "parse_named_object ns directory object =
     (if directory = CONTENT_DIRECTORY \<and> length object = CONTENT_ID_BYTES
      then Some (parsed ContentBlob ns (Some object))
      else if directory = CONTENT_DIRECTORY \<and> is_content_span_name object
      then Some (parsed ContentBlob ns (Some (take CONTENT_ID_BYTES object)))
      else if directory = WAL_DIRECTORY
      then map_option (\<lambda>identifier. parsed WalObject ns (Some identifier))
             (option_filter (\<lambda>identifier. parse_wal_no identifier \<noteq> None) (strip_suffix WAL_SUFFIX object))
      else if directory = MANIFEST_DIRECTORY
      then map_option (\<lambda>identifier. parsed MetadataManifest ns (Some identifier)) (strip_suffix MANIFEST_SUFFIX object)
      else if directory = SEGMENT_DIRECTORY
      then map_option (\<lambda>identifier. parsed MetadataSegment ns (Some identifier)) (strip_suffix SEGMENT_SUFFIX object)
      else if directory = PIN_DIRECTORY
      then map_option (\<lambda>identifier. parsed Pin ns (Some identifier)) (strip_suffix PIN_SUFFIX object)
      else if directory = UPLOAD_DIRECTORY
      then (case strip_suffix UPLOAD_OUTCOME_SUFFIX object of
              Some identifier \<Rightarrow> Some (parsed UploadOutcome ns (Some identifier))
            | None \<Rightarrow> map_option (\<lambda>identifier. parsed UploadSession ns (Some identifier))
                        (strip_suffix UPLOAD_SESSION_SUFFIX object))
      else if directory = TEMPORARY_DIRECTORY
      then Some (parsed TemporaryObject ns (Some object))
      else None)"

definition parse_object_key :: "string \<Rightarrow> parsed_object_key option" where
  "parse_object_key key =
     (case split_char (CHR ''/'') key of
        [base, ns, object] \<Rightarrow>
          if base = NAMESPACES_DIRECTORY \<and> object = HINT_NAME then Some (parsed Hint ns None) else None
      | [base, ns, directory, object] \<Rightarrow>
          if base = NAMESPACES_DIRECTORY then parse_named_object ns directory object else None
      | [base, ns, directory, name, inner, segment] \<Rightarrow>
          if base = NAMESPACES_DIRECTORY \<and> directory = EXTENSIONS_DIRECTORY \<and> inner = SEGMENT_DIRECTORY
          then map_option (\<lambda>identifier. parsed ExtensionSegment ns (Some identifier)) (strip_suffix SEGMENT_SUFFIX segment)
          else None
      | _ \<Rightarrow> None)"

definition wal_no_of :: "string \<Rightarrow> u64 option" where
  "wal_no_of key =
     Option.bind (parse_object_key key) (\<lambda>parsed_key.
     if pk_family parsed_key \<noteq> WalObject then None
     else Option.bind (pk_identifier parsed_key) parse_wal_no)"

definition manifest_no_of :: "string \<Rightarrow> u64 option" where
  "manifest_no_of key =
     Option.bind (parse_object_key key) (\<lambda>parsed_key.
     if pk_family parsed_key \<noteq> MetadataManifest then None
     else Option.bind (pk_identifier parsed_key) (\<lambda>identifier.
          Option.bind (parse_fixed_width_no identifier) (\<lambda>n.
          case parse_public_ordinal n of Inl _ \<Rightarrow> None | Inr n \<Rightarrow> Some n)))"

definition upload_id_in :: "string \<Rightarrow> durable_object_family \<Rightarrow> string option" where
  "upload_id_in key family =
     Option.bind (option_filter (\<lambda>parsed_key. pk_family parsed_key = family) (parse_object_key key)) (\<lambda>parsed_key.
     Option.bind (pk_identifier parsed_key) (\<lambda>identifier.
     case validate_generated_id ''upl'' identifier of Inl _ \<Rightarrow> None | Inr _ \<Rightarrow> Some identifier))"

definition upload_id_of :: "string \<Rightarrow> string option" where
  "upload_id_of key = upload_id_in key UploadSession"

definition upload_outcome_id_of :: "string \<Rightarrow> string option" where
  "upload_outcome_id_of key = upload_id_in key UploadOutcome"

definition content_id_of :: "string \<Rightarrow> content_id option" where
  "content_id_of key =
     Option.bind (option_filter (\<lambda>parsed_key. pk_family parsed_key = ContentBlob) (parse_object_key key)) (\<lambda>parsed_key.
     Option.bind (pk_identifier parsed_key) (\<lambda>identifier.
     case validate_generated_id ''con'' identifier of Inl _ \<Rightarrow> None | Inr _ \<Rightarrow> Some identifier))"

section \<open>Ids contain no separator\<close>

lemma id_grammar_chars:
  assumes "validate_id_grammar v = Inr ()" "c \<in> set v"
  shows "is_allowed_id_tail_char c"
proof (cases v)
  case (Cons x xs)
  with assms show ?thesis by (auto simp: validate_id_grammar_def is_allowed_id_tail_char_def list_all_iff)
qed (use assms in simp)

lemma no_slash:
  "\<not> is_allowed_id_tail_char (CHR ''/'')" "CHR ''/'' \<notin> set GENERATED_ID_ALPHABET"
  by (simp_all add: is_allowed_id_tail_char_def is_ascii_lowercase_def is_ascii_digit_def GENERATED_ID_ALPHABET_def)

lemma namespace_id_no_slash: "validate_namespace_id v = Inr () \<Longrightarrow> CHR ''/'' \<notin> set v"
  using id_grammar_chars no_slash(1) by (fastforce simp: validate_namespace_id_def)

lemma generated_id_body:
  "validate_generated_id pre v = Inr () \<longleftrightarrow>
     (\<exists>body. v = pre @ ''_'' @ body \<and> generated_id_body_error body = None)"
  by (auto simp: validate_generated_id_def strip_prefix_iff split: option.splits)
     (metis append.assoc append_Cons append_Nil option.distinct(1) strip_prefix_iff)

lemma generated_body_chars:
  assumes "generated_id_body_error body = None"
  shows "length body = 26" "set body \<subseteq> set GENERATED_ID_ALPHABET"
  using assms by (auto simp: generated_id_body_error_def GENERATED_ID_BODY_BYTES_def list_all_iff split: if_splits)

lemma extension_name_no_slash: "validate_extension_name v = Inr () \<Longrightarrow> CHR ''/'' \<notin> set v"
  by (cases v) (auto simp: validate_extension_name_def list_all_iff is_ascii_lowercase_def is_ascii_digit_def)

section \<open>Numbers in keys\<close>

lemma decimal_value_snoc: "decimal_value (s @ [c]) = 10 * decimal_value s + (of_char c - 48)"
  by (simp add: decimal_value_def)

lemma decimal_value_padded: "n < 10 ^ w \<Longrightarrow> decimal_value (zero_padded w n) = n"
proof (induction w arbitrary: n)
  case (Suc w)
  then have "n div 10 < 10 ^ w" by (simp add: less_mult_imp_div_less mult.commute)
  with Suc.IH show ?case by (simp add: decimal_value_snoc)
qed (simp add: decimal_value_def)

lemma padded_digits: "list_all is_ascii_digit (zero_padded w n)" "length (zero_padded w n) = w"
  by (induction w arbitrary: n) (simp_all add: is_ascii_digit_def)

lemma generated_body_ok [simp]: "generated_id_body_error (encode_generated_id_body uuid) = None"
proof -
  have "decode_generated_id_body (encode_generated_id_body uuid) = Some uuid" by (simp add: decode_body_iff)
  then show ?thesis by (auto simp: decode_generated_id_body_def split: if_splits)
qed

lemma padded_no_slash [simp]: "CHR ''/'' \<notin> set (padded_u64 n)" "CHR ''/'' \<notin> set (encode_generated_id_body uuid)"
proof -
  show "CHR ''/'' \<notin> set (padded_u64 n)"
    using padded_digits(1) [of 20 "unat n"] by (auto simp: padded_u64_def list_all_iff is_ascii_digit_def)
  show "CHR ''/'' \<notin> set (encode_generated_id_body uuid)"
    using generated_body_chars [OF generated_body_ok] no_slash(2) by blast
qed

lemma parse_fixed_width_padded: "parse_fixed_width_no (padded_u64 n) = Some n"
proof -
  have "unat n < 2 ^ 64" using unat_below [of n] by simp
  then have "unat n < 10 ^ 20" by simp
  then have "decimal_value (padded_u64 n) = unat n" unfolding padded_u64_def by (rule decimal_value_padded)
  moreover have "int (unat n) < 2 ^ 64" using \<open>unat n < 2 ^ 64\<close> by (metis of_nat_less_iff of_nat_numeral of_nat_power)
  ultimately show ?thesis
    by (simp add: parse_fixed_width_no_def parse_u64_def padded_digits padded_u64_def)
qed

lemma parse_wal_no_padded:
  "0 < n \<Longrightarrow> n \<le> MAX_PUBLIC_INTEGER \<Longrightarrow> parse_wal_no (padded_u64 n) = Some n"
  by (simp add: parse_wal_no_def parse_fixed_width_padded parse_public_ordinal_def)

lemma strip_suffix_iff: "strip_suffix suf s = Some rest \<longleftrightarrow> s = rest @ suf"
  by (auto simp: strip_suffix_def strip_prefix_iff) (metis rev_append rev_rev_ident)+

lemma strip_suffix_append [simp]: "strip_suffix suf (rest @ suf) = Some rest"
  by (simp add: strip_suffix_iff)

section \<open>Keys are classified as what they were built for\<close>

lemmas key_name_defs = NAMESPACES_DIRECTORY_def HINT_NAME_def WAL_DIRECTORY_def MANIFEST_DIRECTORY_def
  SEGMENT_DIRECTORY_def PIN_DIRECTORY_def UPLOAD_DIRECTORY_def CONTENT_DIRECTORY_def TEMPORARY_DIRECTORY_def
  EXTENSIONS_DIRECTORY_def

lemmas key_suffix_defs = WAL_SUFFIX_def MANIFEST_SUFFIX_def SEGMENT_SUFFIX_def PIN_SUFFIX_def
  UPLOAD_SESSION_SUFFIX_def UPLOAD_OUTCOME_SUFFIX_def

lemma names_no_slash [simp]:
  "CHR ''/'' \<notin> set NAMESPACES_DIRECTORY" "CHR ''/'' \<notin> set HINT_NAME" "CHR ''/'' \<notin> set WAL_DIRECTORY"
  "CHR ''/'' \<notin> set MANIFEST_DIRECTORY" "CHR ''/'' \<notin> set SEGMENT_DIRECTORY" "CHR ''/'' \<notin> set PIN_DIRECTORY"
  "CHR ''/'' \<notin> set UPLOAD_DIRECTORY" "CHR ''/'' \<notin> set CONTENT_DIRECTORY" "CHR ''/'' \<notin> set TEMPORARY_DIRECTORY"
  "CHR ''/'' \<notin> set EXTENSIONS_DIRECTORY" "CHR ''/'' \<notin> set WAL_SUFFIX" "CHR ''/'' \<notin> set MANIFEST_SUFFIX"
  "CHR ''/'' \<notin> set SEGMENT_SUFFIX" "CHR ''/'' \<notin> set PIN_SUFFIX" "CHR ''/'' \<notin> set UPLOAD_SESSION_SUFFIX"
  "CHR ''/'' \<notin> set UPLOAD_OUTCOME_SUFFIX"
  by (simp_all add: key_name_defs key_suffix_defs)

lemma parse_object:
  assumes "CHR ''/'' \<notin> set ns" "CHR ''/'' \<notin> set directory" "CHR ''/'' \<notin> set object"
  shows "parse_object_key (namespace_prefix ns @ directory @ CHR ''/'' # object) = parse_named_object ns directory object"
  using assms by (simp add: parse_object_key_def namespace_prefix_def split_append split_piece)

lemma directories_distinct:
  "distinct [WAL_DIRECTORY, MANIFEST_DIRECTORY, SEGMENT_DIRECTORY, PIN_DIRECTORY, UPLOAD_DIRECTORY,
     CONTENT_DIRECTORY, TEMPORARY_DIRECTORY]"
  by (simp add: key_name_defs)

lemma directories_distinct_reversed:
  "distinct [TEMPORARY_DIRECTORY, CONTENT_DIRECTORY, UPLOAD_DIRECTORY, PIN_DIRECTORY, SEGMENT_DIRECTORY,
     MANIFEST_DIRECTORY, WAL_DIRECTORY]"
  by (simp add: key_name_defs)

lemmas directories_differ [simp] = directories_distinct [simplified] directories_distinct_reversed [simplified]

lemma ordinal_ok: "n \<le> MAX_PUBLIC_INTEGER \<Longrightarrow> parse_public_ordinal n = Inr n"
  by (simp add: parse_public_ordinal_def linorder_not_less)

lemma parse_wal_object:
  assumes "CHR ''/'' \<notin> set ns" "0 < n" "n \<le> MAX_PUBLIC_INTEGER"
  shows "parse_object_key (wal_object ns n) = Some (parsed WalObject ns (Some (padded_u64 n)))"
  using assms by (simp add: wal_object_def wal_prefix_def parse_object parse_named_object_def parse_wal_no_padded)

lemma generated_id_chars:
  assumes "validate_generated_id pre v = Inr ()"
  shows "length v = length pre + 27" "set v \<subseteq> set pre \<union> {CHR ''_''} \<union> set GENERATED_ID_ALPHABET"
proof -
  obtain body where "v = pre @ ''_'' @ body" "generated_id_body_error body = None" using assms generated_id_body by blast
  with generated_body_chars [of body] show "length v = length pre + 27"
    "set v \<subseteq> set pre \<union> {CHR ''_''} \<union> set GENERATED_ID_ALPHABET" by auto
qed

lemma generated_id_no_slash:
  "validate_generated_id pre v = Inr () \<Longrightarrow> CHR ''/'' \<notin> set pre \<Longrightarrow> CHR ''/'' \<notin> set v"
  using generated_id_chars(2) no_slash(2) by fastforce

lemma split_once_Some: "split_once c s = Some (a, b) \<Longrightarrow> s = a @ c # b"
  by (induction s arbitrary: a) (auto split: if_splits)

lemma pin_id_no_slash:
  assumes "validate_pin_id v = Inr ()" shows "CHR ''/'' \<notin> set v"
proof -
  obtain number entropy where parts: "v = ''pin_'' @ number @ CHR ''-'' # entropy"
    "list_all is_ascii_digit number" "list_all is_lower_hex_byte entropy"
    using assms by (auto simp: validate_pin_id_def Let_def bind_eq_Some_conv strip_prefix_iff dest!: split_once_Some split: option.splits)
  have "CHR ''/'' \<notin> set number" using parts(2) by (auto simp: list_all_iff is_ascii_digit_def)
  moreover have "\<not> is_lower_hex_byte (CHR ''/'')" by (simp add: is_lower_hex_byte_def nibble_def less_eq_char_def)
  ultimately show ?thesis using parts(1,3) by (auto simp: list_all_iff)
qed

lemma upload_session_suffix:
  assumes "validate_generated_id ''upl'' upload = Inr ()"
  shows "strip_suffix UPLOAD_OUTCOME_SUFFIX (upload @ UPLOAD_SESSION_SUFFIX) = None"
proof (rule ccontr)
  assume "\<not> ?thesis"
  then obtain rest where "upload @ UPLOAD_SESSION_SUFFIX = rest @ UPLOAD_OUTCOME_SUFFIX"
    unfolding not_None_eq strip_suffix_iff by blast
  then have "upload = rest @ ''.outcome''" by (simp add: key_suffix_defs)
  then have "CHR ''.'' \<in> set upload" by simp
  with generated_id_chars(2) [OF assms] show False by (auto simp: GENERATED_ID_ALPHABET_def)
qed

lemma content_span_named:
  assumes "validate_generated_id ''con'' content = Inr ()"
  shows "is_content_span_name (content_span_name content a b)" "length content = CONTENT_ID_BYTES"
    "CHR ''/'' \<notin> set (content_span_name content a b)"
proof -
  show bytes: "length content = CONTENT_ID_BYTES"
    using generated_id_chars(1) [OF assms] by (simp add: CONTENT_ID_BYTES_def GENERATED_ID_BODY_BYTES_def)
  have "\<forall>c\<in>set content. of_char c < (128 :: nat)"
    using generated_id_chars(2) [OF assms] by (auto simp: GENERATED_ID_ALPHABET_def)
  moreover have digits: "list_all is_ascii_digit (padded_u64 n)" "length (padded_u64 n) = 20" for n
    by (simp_all add: padded_u64_def padded_digits)
  moreover have "\<forall>c\<in>set (padded_u64 n). of_char c < (128 :: nat)" for n
    using digits(1) [of n] by (auto simp: list_all_iff is_ascii_digit_def Let_def)
  ultimately show "is_content_span_name (content_span_name content a b)"
    by (simp add: is_content_span_name_def content_span_name_def bytes CONTENT_SPAN_NAME_BYTES_def nth_append list_all_iff ball_Un)
  show "CHR ''/'' \<notin> set (content_span_name content a b)"
    using generated_id_no_slash [OF assms] by (simp add: content_span_name_def)
qed



end
