(* ===== verification/Manifests.thy ===== *)
theory Manifests
  imports Access_Rules Object_Keys
begin

text \<open>
  Namespace manifests: the payload and the rules of the manifest chain
  (\<open>loonfs-types/src/manifest.rs\<close>), the views of its runs (\<open>loonfs-core/src/segment/runs.rs\<close>)
  and the validation of a loaded manifest (\<open>loonfs-core/src/manifest/validate.rs\<close>).  The
  members of an extension entry that only the extension interprets are kept as one string.
  Messages are kept as the values they are formatted from.
\<close>

section \<open>Control state\<close>

record writer_block =
  wb_writer_id :: string
  wb_acquired_at_ms :: u64

datatype namespace_status = Active | Deleted u64

fun status_is_deleted :: "namespace_status \<Rightarrow> bool" where
  "status_is_deleted Active = False"
| "status_is_deleted (Deleted _) = True"

fun status_deleted_at_ms :: "namespace_status \<Rightarrow> u64 option" where
  "status_deleted_at_ms Active = None"
| "status_deleted_at_ms (Deleted deleted_at_ms) = Some deleted_at_ms"

section \<open>Runs and segments\<close>

record block_handle =
  bh_offset :: u64
  bh_stored_bytes :: u32
  bh_decoded_bytes :: u32
  bh_crc32c :: u32

datatype run_tier = Delta | Base

fun tier_rank :: "run_tier \<Rightarrow> nat" where
  "tier_rank Delta = 0"
| "tier_rank Base = 1"

instantiation run_tier :: linorder
begin

definition less_eq_run_tier :: "run_tier \<Rightarrow> run_tier \<Rightarrow> bool" where
  "a \<le> b \<longleftrightarrow> tier_rank a \<le> tier_rank b"

definition less_run_tier :: "run_tier \<Rightarrow> run_tier \<Rightarrow> bool" where
  "a < b \<longleftrightarrow> tier_rank a < tier_rank b"

instance
proof
  fix a b :: run_tier
  show "a \<le> b \<Longrightarrow> b \<le> a \<Longrightarrow> a = b" by (cases a; cases b) (simp_all add: less_eq_run_tier_def)
qed (auto simp: less_eq_run_tier_def less_run_tier_def)

end

record metadata_segment_ref =
  sg_owner_namespace_id :: namespace_id
  sg_segment_id :: string
  sg_family :: metadata_row_family
  sg_encoding :: u32
  sg_row_count :: u64
  sg_min_row_key :: string
  sg_max_row_key :: string
  sg_index_block :: block_handle
  sg_filter_block :: block_handle
  sg_filter_inline :: "string option"
  sg_extent_filter_block :: "block_handle option"

record metadata_run_ref =
  rr_run_no :: u64
  rr_run_seq :: change_seq
  rr_tier :: run_tier
  rr_segments :: "metadata_segment_ref list"

record extension_segment_ref =
  xs_owner_namespace_id :: namespace_id
  xs_segment_id :: string
  xs_row_count :: u64
  xs_min_row_key :: string
  xs_max_row_key :: string
  xs_index_block :: block_handle
  xs_filter_block :: block_handle
  xs_filter_inline :: "string option"

record extension_run_ref =
  xn_run_no :: u64
  xn_level :: u32
  xn_segments :: "extension_segment_ref list"

record extension_entry =
  ee_version :: u32
  ee_runs :: "extension_run_ref list"
  ee_state :: string

definition entry_segments :: "extension_entry \<Rightarrow> extension_segment_ref list" where
  "entry_segments entry = concat (map xn_segments (ee_runs entry))"

definition metadata_segment_object_key :: "metadata_segment_ref \<Rightarrow> string" where
  "metadata_segment_object_key descriptor =
     metadata_segment (sg_owner_namespace_id descriptor) (sg_segment_id descriptor)"

definition extension_segment_object_key :: "string \<Rightarrow> extension_segment_ref \<Rightarrow> string" where
  "extension_segment_object_key name descriptor =
     extension_segment (xs_owner_namespace_id descriptor) name (xs_segment_id descriptor)"

definition METADATA_SEGMENT_ENCODING :: u32 where
  "METADATA_SEGMENT_ENCODING = 1"

section \<open>The payload\<close>

text \<open>The extensions are a map in the order of their names.\<close>

record namespace_manifest_payload =
  mp_namespace_id :: namespace_id
  mp_created_at_ms :: u64
  mp_created_by :: actor_id
  mp_access :: namespace_access
  mp_retention_window_ms :: "u64 option"
  mp_fork_basis :: "fork_basis option"
  mp_family_root_id :: namespace_id
  mp_status :: namespace_status
  mp_writer :: "writer_block option"
  mp_folded_wal_no :: u64
  mp_manifest_no :: u64
  mp_compactor_epoch :: u64
  mp_head_seq :: change_seq
  mp_activity :: manifest_activity
  mp_writer_epoch :: u64
  mp_next_run_no :: u64
  mp_retention_floor_seq :: change_seq
  mp_runs :: "metadata_run_ref list"
  mp_extensions :: "(string \<times> extension_entry) list"

definition default_activity :: manifest_activity where
  "default_activity = \<lparr> ma_content_bytes = 0, ma_file_revisions = 0, ma_mutations = 0 \<rparr>"

definition base_seq :: "namespace_manifest_payload \<Rightarrow> change_seq" where
  "base_seq payload =
     (case map rr_run_seq (filter (\<lambda>run. rr_segments run \<noteq> []) (mp_runs payload)) of
        [] \<Rightarrow> mp_head_seq payload
      | s # seqs \<Rightarrow> foldl min s seqs)"

definition is_family_root :: "namespace_manifest_payload \<Rightarrow> bool" where
  "is_family_root payload \<longleftrightarrow> mp_family_root_id payload = mp_namespace_id payload"

definition manifest_initial ::
  "namespace_id \<Rightarrow> u64 \<Rightarrow> actor_id \<Rightarrow> namespace_access \<Rightarrow> namespace_manifest_payload" where
  "manifest_initial namespace_id created_at_ms created_by access =
     \<lparr> mp_namespace_id = namespace_id, mp_created_at_ms = created_at_ms, mp_created_by = created_by,
       mp_access = access, mp_retention_window_ms = None, mp_fork_basis = None,
       mp_family_root_id = namespace_id, mp_status = Active, mp_writer = None, mp_folded_wal_no = 0,
       mp_manifest_no = 1, mp_compactor_epoch = 0, mp_head_seq = 0, mp_activity = default_activity,
       mp_writer_epoch = 0, mp_next_run_no = 0, mp_retention_floor_seq = 0, mp_runs = [],
       mp_extensions = [] \<rparr>"

definition manifest_initial_fork ::
  "namespace_id \<Rightarrow> u64 \<Rightarrow> actor_id \<Rightarrow> fork_basis \<Rightarrow> namespace_manifest_payload \<Rightarrow> namespace_manifest_payload" where
  "manifest_initial_fork namespace_id created_at_ms created_by basis source =
     (manifest_initial namespace_id created_at_ms created_by (mp_access source))
       \<lparr> mp_retention_window_ms := mp_retention_window_ms source,
         mp_fork_basis := Some basis,
         mp_family_root_id := mp_family_root_id source,
         mp_head_seq := mp_head_seq source,
         mp_next_run_no := mp_next_run_no source,
         mp_retention_floor_seq := mref_head_seq (fb_manifest basis),
         mp_runs := mp_runs source,
         mp_extensions := mp_extensions source \<rparr>"

definition manifest_successor ::
  "namespace_manifest_payload \<Rightarrow> metadata_run_ref list
    \<Rightarrow> (public_ordinal_range_error, namespace_manifest_payload) result" where
  "manifest_successor payload runs =
     rbind (successor (mp_manifest_no payload)) (\<lambda>manifest_no.
     Inr (payload \<lparr> mp_manifest_no := manifest_no, mp_runs := runs \<rparr>))"

section \<open>The manifest chain\<close>

text \<open>The error names the field that breaks the rule.\<close>

type_synonym manifest_chain_error = string

definition ensure_first_manifest :: "namespace_manifest_payload \<Rightarrow> (manifest_chain_error, unit) result" where
  "ensure_first_manifest payload =
     rbind (err_if (mp_manifest_no payload \<noteq> 1) ''manifest_no'') (\<lambda>_.
     rbind (err_if (status_is_deleted (mp_status payload)) ''status'') (\<lambda>_.
     rbind (err_if (mp_writer payload \<noteq> None) ''writer'') (\<lambda>_.
     rbind (err_if (mp_activity payload \<noteq> default_activity) ''activity'') (\<lambda>_.
     case mp_fork_basis payload of
       Some basis \<Rightarrow>
         err_if (mref_head_seq (fb_manifest basis) \<noteq> mp_head_seq payload \<or>
                 mp_retention_floor_seq payload \<noteq> mp_head_seq payload) ''head_seq''
     | None \<Rightarrow>
         rbind (err_if (mp_runs payload \<noteq> []) ''runs'') (\<lambda>_.
         rbind (err_if (mp_extensions payload \<noteq> []) ''extensions'') (\<lambda>_.
         rbind (err_if (mp_head_seq payload \<noteq> 0 \<or> mp_retention_floor_seq payload \<noteq> 0) ''head_seq'') (\<lambda>_.
         err_if (mp_next_run_no payload \<noteq> 0) ''next_run_no'')))))))"

definition ensure_followed_by ::
  "namespace_manifest_payload \<Rightarrow> namespace_manifest_payload \<Rightarrow> bool \<Rightarrow> (manifest_chain_error, unit) result" where
  "ensure_followed_by self succ next_number =
     rbind (err_if (mp_namespace_id succ \<noteq> mp_namespace_id self) ''namespace_id'') (\<lambda>_.
     let numbered = (if next_number then successor (mp_manifest_no self) = Inr (mp_manifest_no succ)
                     else mp_manifest_no succ > mp_manifest_no self)
     in
     rbind (err_if (\<not> numbered) ''manifest_no'') (\<lambda>_.
     rbind (err_if (mp_folded_wal_no succ < mp_folded_wal_no self) ''folded_wal_no'') (\<lambda>_.
     rbind (err_if (mp_writer_epoch succ < mp_writer_epoch self) ''writer_epoch'') (\<lambda>_.
     rbind (err_if (mp_compactor_epoch succ < mp_compactor_epoch self) ''compactor_epoch'') (\<lambda>_.
     rbind (err_if (mp_head_seq succ < mp_head_seq self) ''head_seq'') (\<lambda>_.
     rbind (err_if (mp_retention_floor_seq succ < mp_retention_floor_seq self) ''retention_floor_seq'') (\<lambda>_.
     rbind (err_if (mp_next_run_no succ < mp_next_run_no self) ''next_run_no'') (\<lambda>_.
     rbind (err_if (mp_created_at_ms succ \<noteq> mp_created_at_ms self) ''created_at_ms'') (\<lambda>_.
     rbind (err_if (mp_created_by succ \<noteq> mp_created_by self) ''created_by'') (\<lambda>_.
     rbind (err_if (mp_access succ \<noteq> mp_access self) ''access'') (\<lambda>_.
     rbind (err_if (mp_fork_basis succ \<noteq> mp_fork_basis self) ''fork_basis'') (\<lambda>_.
     rbind (err_if (mp_family_root_id succ \<noteq> mp_family_root_id self) ''family_root_id'') (\<lambda>_.
     rbind (err_if (status_is_deleted (mp_status self)) ''status'') (\<lambda>_.
     let before = mp_activity self; after = mp_activity succ
     in err_if (ma_content_bytes after < ma_content_bytes before \<or>
                ma_file_revisions after < ma_file_revisions before \<or>
                ma_mutations after < ma_mutations before \<or>
                mp_head_seq succ = mp_head_seq self \<and> after \<noteq> before) ''activity''))))))))))))))"

definition ensure_successor ::
  "namespace_manifest_payload \<Rightarrow> namespace_manifest_payload \<Rightarrow> (manifest_chain_error, unit) result" where
  "ensure_successor self succ = ensure_followed_by self succ True"

definition ensure_later ::
  "namespace_manifest_payload \<Rightarrow> namespace_manifest_payload \<Rightarrow> (manifest_chain_error, unit) result" where
  "ensure_later self later = ensure_followed_by self later False"

section \<open>Views of the runs\<close>

record metadata_family_segments =
  fs_family :: metadata_row_family
  fs_segments :: "metadata_segment_ref list"

record metadata_run_manifest =
  rm_run_no :: u64
  rm_run_seq :: change_seq
  rm_tier :: run_tier
  rm_segments :: "metadata_family_segments list"

definition metadata_run_manifest_of :: "metadata_run_ref \<Rightarrow> metadata_run_manifest" where
  "metadata_run_manifest_of run =
     \<lparr> rm_run_no = rr_run_no run, rm_run_seq = rr_run_seq run, rm_tier = rr_tier run,
       rm_segments = map (\<lambda>family. \<lparr> fs_family = family,
                                       fs_segments = filter (\<lambda>descriptor. sg_family descriptor = family) (rr_segments run) \<rparr>)
                       metadata_row_family_ALL \<rparr>"

definition flatten_manifest_segments :: "metadata_family_segments list \<Rightarrow> metadata_segment_ref list" where
  "flatten_manifest_segments segments_by_family = concat (map fs_segments segments_by_family)"

text \<open>\<open>slice::sort_by\<close>, a stable sort; the argument says when one element is strictly before another.\<close>

fun insert_by :: "('a \<Rightarrow> 'a \<Rightarrow> bool) \<Rightarrow> 'a \<Rightarrow> 'a list \<Rightarrow> 'a list" where
  "insert_by before x [] = [x]"
| "insert_by before x (y # ys) = (if before y x then y # insert_by before x ys else x # y # ys)"

definition sort_by :: "('a \<Rightarrow> 'a \<Rightarrow> bool) \<Rightarrow> 'a list \<Rightarrow> 'a list" where
  "sort_by before xs = foldr (insert_by before) xs []"

definition newest_before :: "metadata_run_manifest \<Rightarrow> metadata_run_manifest \<Rightarrow> bool" where
  "newest_before left right \<longleftrightarrow>
     rm_tier left < rm_tier right \<or> rm_tier left = rm_tier right \<and>
     (rm_run_seq right < rm_run_seq left \<or> rm_run_seq left = rm_run_seq right \<and> rm_run_no right < rm_run_no left)"

definition runs_newest_first :: "namespace_manifest_payload \<Rightarrow> metadata_run_manifest list" where
  "runs_newest_first payload = sort_by newest_before (map metadata_run_manifest_of (mp_runs payload))"

definition oldest_before :: "metadata_run_manifest \<Rightarrow> metadata_run_manifest \<Rightarrow> bool" where
  "oldest_before left right \<longleftrightarrow>
     rm_run_seq left < rm_run_seq right \<or> rm_run_seq left = rm_run_seq right \<and>
     (rm_tier right < rm_tier left \<or> rm_tier left = rm_tier right \<and> rm_run_no left < rm_run_no right)"

definition runs_oldest_first :: "namespace_manifest_payload \<Rightarrow> metadata_run_manifest list" where
  "runs_oldest_first payload = sort_by oldest_before (map metadata_run_manifest_of (mp_runs payload))"

definition compaction_before :: "metadata_run_manifest \<Rightarrow> metadata_run_manifest \<Rightarrow> bool" where
  "compaction_before left right \<longleftrightarrow>
     rm_tier right < rm_tier left \<or> rm_tier left = rm_tier right \<and>
     (rm_run_seq left < rm_run_seq right \<or> rm_run_seq left = rm_run_seq right \<and> rm_run_no left < rm_run_no right)"

definition runs_in_compaction_order :: "metadata_run_manifest list \<Rightarrow> metadata_run_manifest list" where
  "runs_in_compaction_order runs = sort_by compaction_before runs"

section \<open>Validation\<close>

datatype run_problem =
    ForkProvenance
  | FamilyRootWithoutBasis namespace_id
  | FloorBeyondHead
  | DuplicateRunNumber u64
  | EmptyPastGenesis
  | RunNotBelowNext u64 u64
  | RunBeyondHead u64 change_seq change_seq
  | UnsupportedEncoding string u32
  | DuplicateSegmentId string
  | NoRunAtHead change_seq
  | ExtensionRunNotBelowNext string u64 u64
  | ExtensionSegmentTwice string string
  | FewerBindsThanChildBinds u64 u64 u64
  | CommitsWithoutReceipts u64 u64 u64
  | TwoBaseRuns metadata_family_group u64 u64

datatype layout_problem =
    SectionBeyondAddressSpace
  | ExtentFilterGap u64 u64
  | FilterGap u64 u64
  | InlineFilterLength nat u32

datatype segment_problem =
    BadExtensionKeyRange u64 string string
  | BadBlockLayout layout_problem
  | WrongExtentFilter metadata_row_family bool
  | BadKeyRange u64 string string
  | SegmentWithoutRows
  | SegmentsTouch string string metadata_row_family u64
  | RowAfterMaximum nat change_seq change_seq

datatype manifest_load_error =
    ManifestNamespaceMismatch string namespace_id namespace_id
  | ManifestNoMismatch string u64 u64
  | MissingRowFamily string metadata_row_family
  | DuplicateRowFamily string metadata_row_family
  | RunManifestMismatch string run_problem
  | SegmentDescriptorMismatch string segment_problem

definition validate_namespace_manifest ::
  "namespace_id \<Rightarrow> u64 \<Rightarrow> string \<Rightarrow> namespace_manifest_payload \<Rightarrow> (manifest_load_error, unit) result" where
  "validate_namespace_manifest namespace_id manifest_no object_key payload =
     rbind (err_if (mp_namespace_id payload \<noteq> namespace_id)
              (ManifestNamespaceMismatch object_key namespace_id (mp_namespace_id payload))) (\<lambda>_.
     err_if (mp_manifest_no payload \<noteq> manifest_no)
       (ManifestNoMismatch object_key manifest_no (mp_manifest_no payload)))"

text \<open>A loop that stops at the first error.\<close>

fun each :: "('a \<Rightarrow> ('e, unit) result) \<Rightarrow> 'a list \<Rightarrow> ('e, unit) result" where
  "each f [] = Inr ()"
| "each f (x # xs) = rbind (f x) (\<lambda>_. each f xs)"

text \<open>A loop that inserts into a set and stops at the first value that is already there.\<close>

fun refuse_repeated :: "('a \<Rightarrow> 'e) \<Rightarrow> 'a list \<Rightarrow> 'a list \<Rightarrow> ('e, unit) result" where
  "refuse_repeated err seen [] = Inr ()"
| "refuse_repeated err seen (x # xs) = (if x \<in> set seen then Inl (err x) else refuse_repeated err (x # seen) xs)"

definition validate_unique_run_numbers ::
  "string \<Rightarrow> namespace_manifest_payload \<Rightarrow> (manifest_load_error, unit) result" where
  "validate_unique_run_numbers object_key payload =
     refuse_repeated (\<lambda>run_no. RunManifestMismatch object_key (DuplicateRunNumber run_no)) []
       (map rr_run_no (mp_runs payload) @
        map xn_run_no (concat (map (ee_runs \<circ> snd) (mp_extensions payload))))"

text \<open>The loop over a run's descriptors, with the segment ids seen so far.\<close>

fun check_descriptors ::
  "string \<Rightarrow> string list \<Rightarrow> metadata_segment_ref list \<Rightarrow> (manifest_load_error, string list) result" where
  "check_descriptors object_key seen [] = Inr seen"
| "check_descriptors object_key seen (descriptor # descriptors) =
     rbind (err_if (sg_encoding descriptor \<noteq> METADATA_SEGMENT_ENCODING)
              (RunManifestMismatch object_key (UnsupportedEncoding (sg_segment_id descriptor) (sg_encoding descriptor)))) (\<lambda>_.
     rbind (err_if (sg_segment_id descriptor \<in> set seen)
              (RunManifestMismatch object_key (DuplicateSegmentId (sg_segment_id descriptor)))) (\<lambda>_.
     check_descriptors object_key (sg_segment_id descriptor # seen) descriptors))"

text \<open>The loop over the runs: whether one with segments is at the head.\<close>

fun check_runs ::
  "string \<Rightarrow> namespace_manifest_payload \<Rightarrow> bool \<Rightarrow> string list \<Rightarrow> metadata_run_ref list
    \<Rightarrow> (manifest_load_error, bool) result" where
  "check_runs object_key payload saw_head_seq_run seen [] = Inr saw_head_seq_run"
| "check_runs object_key payload saw_head_seq_run seen (run # runs) =
     rbind (err_if (rr_run_no run \<ge> mp_next_run_no payload)
              (RunManifestMismatch object_key (RunNotBelowNext (rr_run_no run) (mp_next_run_no payload)))) (\<lambda>_.
     rbind (err_if (rr_run_seq run > mp_head_seq payload)
              (RunManifestMismatch object_key (RunBeyondHead (rr_run_no run) (rr_run_seq run) (mp_head_seq payload)))) (\<lambda>_.
     rbind (check_descriptors object_key seen (rr_segments run)) (\<lambda>seen.
     check_runs object_key payload
       (saw_head_seq_run \<or> rr_segments run \<noteq> [] \<and> rr_run_seq run = mp_head_seq payload) seen runs)))"

definition validate_manifest_sequence_ranges ::
  "string \<Rightarrow> namespace_manifest_payload \<Rightarrow> (manifest_load_error, unit) result" where
  "validate_manifest_sequence_ranges object_key payload =
     rbind (err_if (mp_retention_floor_seq payload > mp_head_seq payload)
              (RunManifestMismatch object_key FloorBeyondHead)) (\<lambda>_.
     rbind (validate_unique_run_numbers object_key payload) (\<lambda>_.
     if mp_runs payload = []
     then err_if (mp_head_seq payload \<noteq> 0) (RunManifestMismatch object_key EmptyPastGenesis)
     else rbind (check_runs object_key payload False [] (mp_runs payload)) (\<lambda>saw_head_seq_run.
          err_if (\<not> saw_head_seq_run) (RunManifestMismatch object_key (NoRunAtHead (mp_head_seq payload))))))"

text \<open>A layout check over the handles; \<open>Inl\<close> is the error.\<close>

definition check_block_layout ::
  "block_handle \<Rightarrow> block_handle option \<Rightarrow> block_handle \<Rightarrow> string option \<Rightarrow> (layout_problem, unit) result" where
  "check_block_layout filter_block extent_filter_block index_block filter_inline =
     rbind (each (\<lambda>handle. err_if (checked_add (bh_offset handle) (ucast (bh_stored_bytes handle)) = None)
                              SectionBeyondAddressSpace)
              ((case extent_filter_block of Some handle \<Rightarrow> [handle] | None \<Rightarrow> []) @ [filter_block, index_block])) (\<lambda>_.
     rbind (case extent_filter_block of
              None \<Rightarrow> Inr ()
            | Some extent_filter \<Rightarrow>
                let extent_filter_end = bh_offset extent_filter + ucast (bh_stored_bytes extent_filter)
                in err_if (extent_filter_end \<noteq> bh_offset filter_block)
                     (ExtentFilterGap extent_filter_end (bh_offset filter_block))) (\<lambda>_.
     let filter_end = bh_offset filter_block + ucast (bh_stored_bytes filter_block)
     in rbind (err_if (filter_end \<noteq> bh_offset index_block) (FilterGap filter_end (bh_offset index_block))) (\<lambda>_.
     case filter_inline of
       None \<Rightarrow> Inr ()
     | Some inline \<Rightarrow>
         err_if (word_of_nat (length inline) \<noteq> 2 * (ucast (bh_stored_bytes filter_block) :: u64))
           (InlineFilterLength (length inline) (bh_stored_bytes filter_block)))))"

text \<open>The loop over an extension's descriptors, with the segment ids seen so far.\<close>

fun check_extension_descriptors ::
  "string \<Rightarrow> string \<Rightarrow> string list \<Rightarrow> extension_segment_ref list \<Rightarrow> (manifest_load_error, unit) result" where
  "check_extension_descriptors object_key name seen [] = Inr ()"
| "check_extension_descriptors object_key name seen (descriptor # descriptors) =
     (let segment_key = extension_segment_object_key name descriptor
      in rbind (err_if (xs_segment_id descriptor \<in> set seen)
                  (RunManifestMismatch object_key (ExtensionSegmentTwice name (xs_segment_id descriptor)))) (\<lambda>_.
         rbind (err_if (xs_row_count descriptor = 0 \<or> xs_min_row_key descriptor = [] \<or>
                        xs_min_row_key descriptor > xs_max_row_key descriptor)
                  (SegmentDescriptorMismatch segment_key
                     (BadExtensionKeyRange (xs_row_count descriptor) (xs_min_row_key descriptor) (xs_max_row_key descriptor)))) (\<lambda>_.
         rbind (map_err (\<lambda>problem. SegmentDescriptorMismatch segment_key (BadBlockLayout problem))
                  (check_block_layout (xs_filter_block descriptor) None (xs_index_block descriptor) (xs_filter_inline descriptor))) (\<lambda>_.
         check_extension_descriptors object_key name (xs_segment_id descriptor # seen) descriptors))))"

definition validate_extension_runs ::
  "string \<Rightarrow> namespace_manifest_payload \<Rightarrow> (manifest_load_error, unit) result" where
  "validate_extension_runs object_key payload =
     each (\<lambda>(name, entry).
       rbind (case find (\<lambda>run. xn_run_no run \<ge> mp_next_run_no payload) (ee_runs entry) of
                Some run \<Rightarrow> Inl (RunManifestMismatch object_key
                              (ExtensionRunNotBelowNext name (xn_run_no run) (mp_next_run_no payload)))
              | None \<Rightarrow> Inr ()) (\<lambda>_.
       check_extension_descriptors object_key name [] (entry_segments entry))) (mp_extensions payload)"

fun ordered_families ::
  "string \<Rightarrow> metadata_family_segments list \<Rightarrow> metadata_row_family list
    \<Rightarrow> (manifest_load_error, metadata_family_segments list) result" where
  "ordered_families object_key segments_by_family [] = Inr []"
| "ordered_families object_key segments_by_family (family # families) =
     (case filter (\<lambda>family_segments. fs_family family_segments = family) segments_by_family of
        [] \<Rightarrow> Inl (MissingRowFamily object_key family)
      | [family_segments] \<Rightarrow>
          rbind (ordered_families object_key segments_by_family families) (\<lambda>ordered. Inr (family_segments # ordered))
      | _ \<Rightarrow> Inl (DuplicateRowFamily object_key family))"

definition ordered_manifest_segments ::
  "string \<Rightarrow> metadata_family_segments list \<Rightarrow> (manifest_load_error, metadata_family_segments list) result" where
  "ordered_manifest_segments object_key segments_by_family =
     ordered_families object_key segments_by_family metadata_row_family_ALL"

definition validate_segment_block_layout ::
  "string \<Rightarrow> metadata_run_manifest list \<Rightarrow> (manifest_load_error, unit) result" where
  "validate_segment_block_layout object_key =
     each (\<lambda>run. rbind (ordered_manifest_segments object_key (rm_segments run)) (\<lambda>ordered.
       each (\<lambda>family_segments. each (\<lambda>descriptor.
         let has_extent_filter = sg_family descriptor = ContentLayouts;
             segment_key = metadata_segment_object_key descriptor
         in rbind (err_if ((sg_extent_filter_block descriptor \<noteq> None) \<noteq> has_extent_filter)
                     (SegmentDescriptorMismatch segment_key (WrongExtentFilter (sg_family descriptor) has_extent_filter))) (\<lambda>_.
            map_err (\<lambda>problem. SegmentDescriptorMismatch segment_key (BadBlockLayout problem))
              (check_block_layout (sg_filter_block descriptor) (sg_extent_filter_block descriptor)
                 (sg_index_block descriptor) (sg_filter_inline descriptor))))
         (fs_segments family_segments)) ordered))"

fun check_key_order ::
  "u64 \<Rightarrow> metadata_segment_ref option \<Rightarrow> metadata_segment_ref list \<Rightarrow> (manifest_load_error, unit) result" where
  "check_key_order run_no previous [] = Inr ()"
| "check_key_order run_no previous (descriptor # descriptors) =
     (let segment_key = metadata_segment_object_key descriptor
      in rbind (err_if (sg_row_count descriptor = 0) (SegmentDescriptorMismatch segment_key SegmentWithoutRows)) (\<lambda>_.
         rbind (case previous of
                  None \<Rightarrow> Inr ()
                | Some earlier \<Rightarrow>
                    err_if (sg_min_row_key descriptor \<le> sg_max_row_key earlier)
                      (SegmentDescriptorMismatch segment_key
                         (SegmentsTouch (sg_min_row_key descriptor) (sg_max_row_key earlier) (sg_family descriptor) run_no))) (\<lambda>_.
         check_key_order run_no (Some descriptor) descriptors)))"

definition validate_segment_key_order ::
  "u64 \<Rightarrow> metadata_segment_ref list \<Rightarrow> (manifest_load_error, unit) result" where
  "validate_segment_key_order run_no descriptors = check_key_order run_no None descriptors"

definition validate_segment_key_ranges ::
  "string \<Rightarrow> metadata_run_manifest list \<Rightarrow> (manifest_load_error, unit) result" where
  "validate_segment_key_ranges object_key =
     each (\<lambda>run. rbind (ordered_manifest_segments object_key (rm_segments run)) (\<lambda>ordered.
       each (\<lambda>family_segments.
         rbind (validate_segment_key_order (rm_run_no run) (fs_segments family_segments)) (\<lambda>_.
         each (\<lambda>descriptor.
           err_if (sg_min_row_key descriptor = [] \<or> sg_max_row_key descriptor = [] \<or>
                   sg_min_row_key descriptor > sg_max_row_key descriptor)
             (SegmentDescriptorMismatch (metadata_segment_object_key descriptor)
                (BadKeyRange (sg_row_count descriptor) (sg_min_row_key descriptor) (sg_max_row_key descriptor))))
           (fs_segments family_segments))) ordered))"

definition family_rows :: "metadata_family_segments list \<Rightarrow> metadata_row_family \<Rightarrow> u64" where
  "family_rows ordered family =
     (case rev (filter (\<lambda>family_segments. fs_family family_segments = family) ordered) of
        [] \<Rightarrow> 0
      | family_segments # _ \<Rightarrow> foldl saturating_add 0 (map sg_row_count (fs_segments family_segments)))"

definition validate_run_index_parity ::
  "string \<Rightarrow> metadata_run_manifest list \<Rightarrow> (manifest_load_error, unit) result" where
  "validate_run_index_parity object_key =
     each (\<lambda>run. rbind (ordered_manifest_segments object_key (rm_segments run)) (\<lambda>ordered.
       let direntry_bind_rows = family_rows ordered DirentryBinds;
           direntry_child_bind_rows = family_rows ordered DirentryChildBinds;
           commit_rows = family_rows ordered Commits;
           commit_receipt_rows = family_rows ordered CommitReceipts
       in rbind (err_if (direntry_bind_rows < direntry_child_bind_rows)
                   (RunManifestMismatch object_key
                      (FewerBindsThanChildBinds (rm_run_no run) direntry_bind_rows direntry_child_bind_rows))) (\<lambda>_.
          err_if (commit_rows \<noteq> commit_receipt_rows)
            (RunManifestMismatch object_key (CommitsWithoutReceipts (rm_run_no run) commit_rows commit_receipt_rows)))))"

definition is_base_run_of_group :: "metadata_family_group \<Rightarrow> metadata_run_manifest \<Rightarrow> bool" where
  "is_base_run_of_group grp run \<longleftrightarrow>
     rm_tier run = Base \<and>
     list_ex (\<lambda>family_segments. fs_family family_segments \<in> set (group_families grp) \<and> fs_segments family_segments \<noteq> [])
       (rm_segments run)"

definition validate_one_base_run_per_family_group ::
  "string \<Rightarrow> metadata_run_manifest list \<Rightarrow> (manifest_load_error, unit) result" where
  "validate_one_base_run_per_family_group object_key runs =
     each (\<lambda>grp. case filter (is_base_run_of_group grp) runs of
               first # second # _ \<Rightarrow>
                 Inl (RunManifestMismatch object_key (TwoBaseRuns grp (rm_run_no first) (rm_run_no second)))
             | _ \<Rightarrow> Inr ()) metadata_family_group_ALL"

definition validate_manifest :: "string \<Rightarrow> namespace_manifest_payload \<Rightarrow> (manifest_load_error, unit) result" where
  "validate_manifest object_key payload =
     rbind (err_if (case mp_fork_basis payload of
                      None \<Rightarrow> False
                    | Some basis \<Rightarrow> mref_owner_namespace_id (fb_manifest basis) = mp_namespace_id payload \<or>
                                    is_family_root payload \<or>
                                    mref_head_seq (fb_manifest basis) > mp_retention_floor_seq payload)
              (RunManifestMismatch object_key ForkProvenance)) (\<lambda>_.
     rbind (err_if (mp_fork_basis payload = None \<and> \<not> is_family_root payload)
              (RunManifestMismatch object_key (FamilyRootWithoutBasis (mp_family_root_id payload)))) (\<lambda>_.
     rbind (validate_manifest_sequence_ranges object_key payload) (\<lambda>_.
     rbind (validate_extension_runs object_key payload) (\<lambda>_.
     let runs = runs_oldest_first payload
     in rbind (validate_one_base_run_per_family_group object_key runs) (\<lambda>_.
        rbind (validate_segment_block_layout object_key runs) (\<lambda>_.
        rbind (validate_segment_key_ranges object_key runs) (\<lambda>_.
        validate_run_index_parity object_key runs)))))))"

fun manifest_row_commit_seq :: "metadata_row \<Rightarrow> change_seq" where
  "manifest_row_commit_seq (InodeRow r) = ir_committed_seq r"
| "manifest_row_commit_seq (DirentryBindingRow r) = db_committed_seq r"
| "manifest_row_commit_seq (FileRevisionRow r) = rv_committed_seq r"
| "manifest_row_commit_seq (TombstoneRow r) = tb_committed_seq r"
| "manifest_row_commit_seq (ActiveDeletionRow r) =
     (case ad_action r of Listed _ _ _ _ \<Rightarrow> ad_deletion_seq r | Removed removed_seq \<Rightarrow> removed_seq)"
| "manifest_row_commit_seq (CommitReceiptRow r) = cr_committed_seq r"
| "manifest_row_commit_seq (CommitRow r) = wc_committed_seq r"
| "manifest_row_commit_seq (MergeRow r) = mi_committed_seq r"
| "manifest_row_commit_seq (ContentLayoutRow r) = cl_committed_seq r"
| "manifest_row_commit_seq (AttributesRevisionRow r) = ar_committed_seq r"
| "manifest_row_commit_seq (AccessRevisionRow r) = xr_committed_seq r"

definition validate_manifest_row_seq_range ::
  "string \<Rightarrow> metadata_row list \<Rightarrow> change_seq \<Rightarrow> (manifest_load_error, unit) result" where
  "validate_manifest_row_seq_range object_key rows max_seq =
     each (\<lambda>(row_index, row).
       let row_seq = manifest_row_commit_seq row
       in err_if (row_seq > max_seq)
            (SegmentDescriptorMismatch object_key (RowAfterMaximum row_index row_seq max_seq))) (enumerate 0 rows)"

section \<open>Chains only grow\<close>

definition may_follow :: "namespace_manifest_payload \<Rightarrow> namespace_manifest_payload \<Rightarrow> bool" where
  "may_follow a b \<longleftrightarrow>
     mp_namespace_id b = mp_namespace_id a \<and> mp_folded_wal_no a \<le> mp_folded_wal_no b \<and>
     mp_writer_epoch a \<le> mp_writer_epoch b \<and> mp_compactor_epoch a \<le> mp_compactor_epoch b \<and>
     mp_head_seq a \<le> mp_head_seq b \<and> mp_retention_floor_seq a \<le> mp_retention_floor_seq b \<and>
     mp_next_run_no a \<le> mp_next_run_no b \<and> mp_created_at_ms b = mp_created_at_ms a \<and>
     mp_created_by b = mp_created_by a \<and> mp_access b = mp_access a \<and> mp_fork_basis b = mp_fork_basis a \<and>
     mp_family_root_id b = mp_family_root_id a \<and> \<not> status_is_deleted (mp_status a) \<and>
     ma_content_bytes (mp_activity a) \<le> ma_content_bytes (mp_activity b) \<and>
     ma_file_revisions (mp_activity a) \<le> ma_file_revisions (mp_activity b) \<and>
     ma_mutations (mp_activity a) \<le> ma_mutations (mp_activity b) \<and>
     (mp_head_seq b = mp_head_seq a \<longrightarrow> mp_activity b = mp_activity a)"

lemma ensure_successor_iff:
  "ensure_successor a b = Inr () \<longleftrightarrow> successor (mp_manifest_no a) = Inr (mp_manifest_no b) \<and> may_follow a b"
  by (auto simp: ensure_successor_def ensure_followed_by_def may_follow_def Let_def not_less)

lemma ensure_later_iff:
  "ensure_later a b = Inr () \<longleftrightarrow> mp_manifest_no a < mp_manifest_no b \<and> may_follow a b"
  by (auto simp: ensure_later_def ensure_followed_by_def may_follow_def Let_def not_less)

lemma may_follow_trans:
  assumes "may_follow a b" "may_follow b c" shows "may_follow a c"
proof -
  note ab = assms(1) [unfolded may_follow_def] and bc = assms(2) [unfolded may_follow_def]
  have "mp_activity c = mp_activity a" if "mp_head_seq c = mp_head_seq a"
  proof -
    have "mp_head_seq b = mp_head_seq a" using ab bc that by (intro order_antisym) simp_all
    with ab bc that show ?thesis by simp
  qed
  with ab bc show ?thesis unfolding may_follow_def by (auto intro: order_trans)
qed

lemma later_than_successor: "ensure_successor a b = Inr () \<Longrightarrow> ensure_later a b = Inr ()"
  using next_public_ordinal_Some(1) by (cases "next_public_ordinal (mp_manifest_no a)")
    (auto simp: ensure_successor_iff ensure_later_iff successor_def)

lemma later_trans: "ensure_later a b = Inr () \<Longrightarrow> ensure_later b c = Inr () \<Longrightarrow> ensure_later a c = Inr ()"
  by (auto simp: ensure_later_iff intro: may_follow_trans less_trans)

lemma chain_later:
  assumes "successively (\<lambda>a b. ensure_successor a b = Inr ()) (a # chain)" "b \<in> set chain"
  shows "ensure_later a b = Inr ()"
  using assms
proof (induction chain arbitrary: a)
  case (Cons c chain)
  then have "ensure_later a c = Inr ()" by (auto intro: later_than_successor)
  with Cons show ?case by (auto intro: later_trans)
qed simp


text \<open>The first manifest of a namespace, a claim of the compactor and a retention advance.\<close>

definition docs_manifest :: namespace_manifest_payload where
  "docs_manifest = manifest_initial ''docs'' 5 ''ann'' UnrestrictedAccess"


section \<open>First manifests\<close>

lemma validate_fork:
  assumes "validate_manifest key source = Inr ()" "ns \<noteq> mref_owner_namespace_id (fb_manifest basis)"
    "ns \<noteq> mp_family_root_id source" "mref_head_seq (fb_manifest basis) = mp_head_seq source"
  shows "validate_manifest key (manifest_initial_fork ns at actor basis source) = Inr ()"
proof -
  let ?fork = "manifest_initial_fork ns at actor basis source"
  have runs: "check_runs key ?fork b seen runs = check_runs key source b seen runs" for b seen runs
    by (induction runs arbitrary: b seen) (simp_all add: manifest_initial_fork_def)
  have sel: "mp_next_run_no ?fork = mp_next_run_no source" "mp_extensions ?fork = mp_extensions source"
    "mp_runs ?fork = mp_runs source" by (simp_all add: manifest_initial_fork_def)
  have parts: "validate_unique_run_numbers key ?fork = validate_unique_run_numbers key source"
    "validate_extension_runs key ?fork = validate_extension_runs key source"
    "runs_oldest_first ?fork = runs_oldest_first source"
    unfolding validate_unique_run_numbers_def validate_extension_runs_def runs_oldest_first_def sel by (rule refl)+
  have "validate_manifest_sequence_ranges key source = Inr ()"
    using assms(1) by (simp add: validate_manifest_def split: if_splits)
  then have "validate_manifest_sequence_ranges key ?fork = Inr ()"
    using assms(4) unfolding validate_manifest_sequence_ranges_def runs parts
    by (auto simp: manifest_initial_fork_def manifest_initial_def)
  with assms show ?thesis
    unfolding validate_manifest_def parts
    by (auto simp: manifest_initial_fork_def manifest_initial_def is_family_root_def Let_def)
qed

text \<open>
  C28: the first manifest of a new namespace, and that of a fork at the head of a valid
  manifest, start a chain and pass the validation of a loaded manifest.  A fork has another
  id than its source and its family root.
\<close>

theorem first_manifests_are_valid:
  assumes "validate_manifest key source = Inr ()" "ns \<noteq> mref_owner_namespace_id (fb_manifest basis)"
    "ns \<noteq> mp_family_root_id source" "mref_head_seq (fb_manifest basis) = mp_head_seq source"
  shows "ensure_first_manifest (manifest_initial ns at actor access) = Inr () \<and>
    validate_manifest key (manifest_initial ns at actor access) = Inr () \<and>
    ensure_first_manifest (manifest_initial_fork ns at actor basis source) = Inr () \<and>
    validate_manifest key (manifest_initial_fork ns at actor basis source) = Inr ()"
proof -
  have "ensure_first_manifest (manifest_initial ns at actor access) = Inr ()"
    by (simp add: ensure_first_manifest_def manifest_initial_def)
  moreover have "validate_manifest key (manifest_initial ns at actor access) = Inr ()"
    by (simp add: validate_manifest_def manifest_initial_def is_family_root_def validate_manifest_sequence_ranges_def
      validate_unique_run_numbers_def validate_extension_runs_def runs_oldest_first_def sort_by_def
      validate_one_base_run_per_family_group_def metadata_family_group_ALL_def validate_segment_block_layout_def
      validate_segment_key_ranges_def validate_run_index_parity_def)
  moreover have "ensure_first_manifest (manifest_initial_fork ns at actor basis source) = Inr ()"
    using assms(4) by (simp add: ensure_first_manifest_def manifest_initial_fork_def manifest_initial_def)
  ultimately show ?thesis using validate_fork [OF assms] by blast
qed

theorem first_manifests_are_valid_witness:
  "ensure_first_manifest (manifest_initial_fork ''copy'' 9 ''bob''
     \<lparr> fb_manifest = \<lparr> mref_owner_namespace_id = ''docs'', mref_manifest_no = 1, mref_head_seq = 0, mref_payload_checksum = ''sum'' \<rparr>,
       fb_source_pin_id = ''pin_00000000000000000001-0000000000000001'', fb_rebased_from = None \<rparr> docs_manifest) = Inr ()"
proof -
  have "validate_manifest ''key'' docs_manifest = Inr ()" by code_simp
  from first_manifests_are_valid [OF this, of "''copy''" "\<lparr> fb_manifest = \<lparr> mref_owner_namespace_id = ''docs'', mref_manifest_no = 1,
      mref_head_seq = 0, mref_payload_checksum = ''sum'' \<rparr>, fb_source_pin_id = ''pin_00000000000000000001-0000000000000001'',
      fb_rebased_from = None \<rparr>" 9 "''bob''" UnrestrictedAccess]
  show ?thesis by (simp add: docs_manifest_def manifest_initial_def)
qed

section \<open>The orders of runs\<close>


end
