(* ===== verification/Row_Keys.thy ===== *)
theory Row_Keys
  imports Rows Spelled_Ids
begin

text \<open>
  The durable row keys, lookup prefixes and filter probes of
  \<open>loonfs-types/src/row_keys.rs\<close>.  A key is its family's
  prefix and components separated by hyphens.  The builders that a source expression may
  panic in return an option: a binding row has keys in the two binding families only, and
  the body of a content id is what follows its \<open>con_\<close>.

  The lemmas show what the scans rely on: the order of the keys is the order of their
  components, positions newest first, and a key determines its components.
\<close>

section \<open>Lookup keys\<close>

definition INODE_ROW_PREFIX :: string where
  "INODE_ROW_PREFIX = ''inode-''"

definition REVISION_ROW_PREFIX :: string where
  "REVISION_ROW_PREFIX = ''revision-''"

definition COMMIT_ROW_PREFIX :: string where
  "COMMIT_ROW_PREFIX = ''commit-''"

definition DIRENTRY_BIND_ROW_PREFIX :: string where
  "DIRENTRY_BIND_ROW_PREFIX = ''direntry-bind-''"

definition DIRENTRY_CHILD_BIND_ROW_PREFIX :: string where
  "DIRENTRY_CHILD_BIND_ROW_PREFIX = ''direntry-child-bind-''"

definition TOMBSTONE_ROW_PREFIX :: string where
  "TOMBSTONE_ROW_PREFIX = ''tombstone-''"

definition CONTENT_LAYOUT_ROW_PREFIX :: string where
  "CONTENT_LAYOUT_ROW_PREFIX = ''content-layout-''"

definition COMMIT_RECEIPT_ROW_PREFIX :: string where
  "COMMIT_RECEIPT_ROW_PREFIX = ''commit-receipt-''"

definition ATTRIBUTE_ROW_PREFIX :: string where
  "ATTRIBUTE_ROW_PREFIX = ''attribute-''"

definition ACCESS_ROW_PREFIX :: string where
  "ACCESS_ROW_PREFIX = ''access-''"

definition MERGE_ROW_PREFIX :: string where
  "MERGE_ROW_PREFIX = ''merge-''"

definition ACTIVE_DELETION_ROW_PREFIX :: string where
  "ACTIVE_DELETION_ROW_PREFIX = ''active-deletion-''"

definition ACTIVE_DELETION_RANK_REMOVED :: u32 where
  "ACTIVE_DELETION_RANK_REMOVED = 0"

definition ACTIVE_DELETION_RANK_LISTED :: u32 where
  "ACTIVE_DELETION_RANK_LISTED = 1"

fun row_key_prefix :: "metadata_row_family \<Rightarrow> string" where
  "row_key_prefix Inodes = INODE_ROW_PREFIX"
| "row_key_prefix DirentryBinds = DIRENTRY_BIND_ROW_PREFIX"
| "row_key_prefix DirentryChildBinds = DIRENTRY_CHILD_BIND_ROW_PREFIX"
| "row_key_prefix Revisions = REVISION_ROW_PREFIX"
| "row_key_prefix Tombstones = TOMBSTONE_ROW_PREFIX"
| "row_key_prefix ActiveDeletions = ACTIVE_DELETION_ROW_PREFIX"
| "row_key_prefix CommitReceipts = COMMIT_RECEIPT_ROW_PREFIX"
| "row_key_prefix Commits = COMMIT_ROW_PREFIX"
| "row_key_prefix ContentLayouts = CONTENT_LAYOUT_ROW_PREFIX"
| "row_key_prefix AttributesFamily = ATTRIBUTE_ROW_PREFIX"
| "row_key_prefix AccessFamily = ACCESS_ROW_PREFIX"
| "row_key_prefix Merges = MERGE_ROW_PREFIX"

definition hex_encode_row_key_component :: "string \<Rightarrow> string" where
  "hex_encode_row_key_component v = hex_encode_bytes v"

text \<open>\<open>ContentId::body\<close>, which panics where the id does not start with its prefix.\<close>

definition content_id_body :: "content_id \<Rightarrow> string option" where
  "content_id_body content_id = strip_prefix ''con_'' content_id"

definition after_row_key :: "string \<Rightarrow> string" where
  "after_row_key row_key = row_key @ [char_of (0 :: nat)]"

definition commit_row_key :: "change_seq \<Rightarrow> string" where
  "commit_row_key seq = COMMIT_ROW_PREFIX @ padded_u64 seq"

definition inode_key :: "inode_id \<Rightarrow> string" where
  "inode_key inode_id = INODE_ROW_PREFIX @ encode_generated_id_body inode_id"

definition inode_key_after :: "inode_id \<Rightarrow> string" where
  "inode_key_after inode_id = after_row_key (inode_key inode_id)"

definition direntry_parent_probe :: "inode_id \<Rightarrow> string" where
  "direntry_parent_probe parent = DIRENTRY_BIND_ROW_PREFIX @ encode_generated_id_body parent"

definition direntry_parent_prefix :: "inode_id \<Rightarrow> string" where
  "direntry_parent_prefix parent = direntry_parent_probe parent @ ''-''"

definition direntry_bind_probe :: "inode_id \<Rightarrow> name_key \<Rightarrow> string" where
  "direntry_bind_probe parent name_key =
     direntry_parent_prefix parent @ hex_encode_row_key_component name_key"

definition direntry_bind_prefix :: "inode_id \<Rightarrow> name_key \<Rightarrow> string" where
  "direntry_bind_prefix parent name_key = direntry_bind_probe parent name_key @ ''-''"

definition direntry_bind_edge_prefix :: "inode_id \<Rightarrow> name_key \<Rightarrow> inode_id \<Rightarrow> string" where
  "direntry_bind_edge_prefix parent name_key child =
     direntry_bind_prefix parent name_key @ encode_generated_id_body child @ ''-''"

definition direntry_bind_row_key :: "inode_id \<Rightarrow> name_key \<Rightarrow> inode_id \<Rightarrow> change_seq \<Rightarrow> u32 \<Rightarrow> string" where
  "direntry_bind_row_key parent name_key child committed_seq delta_index =
     direntry_bind_edge_prefix parent name_key child @
     padded_u64 (- 1 - committed_seq) @ ''-'' @ padded_u32 (- 1 - delta_index)"

definition direntry_child_probe :: "inode_id \<Rightarrow> string" where
  "direntry_child_probe child = DIRENTRY_CHILD_BIND_ROW_PREFIX @ encode_generated_id_body child"

definition direntry_child_prefix :: "inode_id \<Rightarrow> string" where
  "direntry_child_prefix child = direntry_child_probe child @ ''-''"

definition direntry_child_bind_edge_prefix :: "inode_id \<Rightarrow> inode_id \<Rightarrow> name_key \<Rightarrow> string" where
  "direntry_child_bind_edge_prefix child parent name_key =
     direntry_child_prefix child @ encode_generated_id_body parent @ ''-'' @
     hex_encode_row_key_component name_key @ ''-''"

definition direntry_child_bind_row_key ::
  "inode_id \<Rightarrow> inode_id \<Rightarrow> name_key \<Rightarrow> change_seq \<Rightarrow> u32 \<Rightarrow> string" where
  "direntry_child_bind_row_key child parent name_key committed_seq delta_index =
     direntry_child_bind_edge_prefix child parent name_key @
     padded_u64 (- 1 - committed_seq) @ ''-'' @ padded_u32 (- 1 - delta_index)"

definition tombstone_probe :: "inode_id \<Rightarrow> string" where
  "tombstone_probe root = TOMBSTONE_ROW_PREFIX @ encode_generated_id_body root"

definition tombstone_prefix :: "inode_id \<Rightarrow> string" where
  "tombstone_prefix root = tombstone_probe root @ ''-''"

definition tombstone_row_key :: "inode_id \<Rightarrow> change_seq \<Rightarrow> u32 \<Rightarrow> string" where
  "tombstone_row_key root committed_seq delta_index =
     tombstone_prefix root @ padded_u64 (- 1 - committed_seq) @ ''-'' @ padded_u32 (- 1 - delta_index)"

definition active_deletion_probe :: "change_seq \<Rightarrow> inode_id \<Rightarrow> string" where
  "active_deletion_probe deletion_seq root =
     ACTIVE_DELETION_ROW_PREFIX @ padded_u64 deletion_seq @ ''-'' @ encode_generated_id_body root"

definition active_deletion_row_key :: "change_seq \<Rightarrow> inode_id \<Rightarrow> u32 \<Rightarrow> string" where
  "active_deletion_row_key deletion_seq root sort_rank =
     active_deletion_probe deletion_seq root @ ''-'' @ padded_u32 sort_rank"

definition active_deletion_key_after :: "change_seq \<Rightarrow> inode_id \<Rightarrow> string" where
  "active_deletion_key_after deletion_seq root =
     after_row_key (active_deletion_row_key deletion_seq root ACTIVE_DELETION_RANK_LISTED)"

definition active_deletion_key_after_seq :: "change_seq \<Rightarrow> string" where
  "active_deletion_key_after_seq deletion_seq = ACTIVE_DELETION_ROW_PREFIX @ padded_u64 deletion_seq @ ''.''"

definition content_layout_probe :: "content_id \<Rightarrow> string option" where
  "content_layout_probe content_id =
     map_option (\<lambda>body. CONTENT_LAYOUT_ROW_PREFIX @ body) (content_id_body content_id)"

definition content_layout_prefix :: "content_id \<Rightarrow> string option" where
  "content_layout_prefix content_id = map_option (\<lambda>probe. probe @ ''-'') (content_layout_probe content_id)"

definition content_layout_row_key :: "content_id \<Rightarrow> u64 \<Rightarrow> change_seq \<Rightarrow> string option" where
  "content_layout_row_key content_id size_bytes committed_seq =
     map_option (\<lambda>pre. pre @ padded_u64 (- 1 - size_bytes) @ ''-'' @ padded_u64 (- 1 - committed_seq))
       (content_layout_prefix content_id)"

definition commit_receipt_probe :: "commit_id \<Rightarrow> string" where
  "commit_receipt_probe commit_id = COMMIT_RECEIPT_ROW_PREFIX @ hex_encode_row_key_component commit_id"

definition commit_receipt_prefix :: "commit_id \<Rightarrow> string" where
  "commit_receipt_prefix commit_id = commit_receipt_probe commit_id @ ''-''"

definition commit_receipt_row_key :: "commit_id \<Rightarrow> change_seq \<Rightarrow> string" where
  "commit_receipt_row_key commit_id committed_seq = commit_receipt_prefix commit_id @ padded_u64 committed_seq"

definition merge_probe :: "namespace_id \<Rightarrow> string" where
  "merge_probe source = MERGE_ROW_PREFIX @ hex_encode_row_key_component source"

definition merge_prefix :: "namespace_id \<Rightarrow> string" where
  "merge_prefix source = merge_probe source @ ''-''"

definition merge_row_key :: "namespace_id \<Rightarrow> change_seq \<Rightarrow> string" where
  "merge_row_key source committed_seq = merge_prefix source @ padded_u64 (- 1 - committed_seq)"

definition revision_probe :: "inode_id \<Rightarrow> string" where
  "revision_probe inode_id = REVISION_ROW_PREFIX @ encode_generated_id_body inode_id"

definition revision_prefix :: "inode_id \<Rightarrow> string" where
  "revision_prefix inode_id = revision_probe inode_id @ ''-''"

definition revision_no_prefix :: "inode_id \<Rightarrow> revision_no \<Rightarrow> string" where
  "revision_no_prefix inode_id revision_no =
     revision_prefix inode_id @ padded_u64 (- 1 - revision_no) @ ''-''"

definition revision_row_key :: "inode_id \<Rightarrow> revision_no \<Rightarrow> change_seq \<Rightarrow> u32 \<Rightarrow> string" where
  "revision_row_key inode_id revision_no committed_seq delta_index =
     revision_no_prefix inode_id revision_no @
     padded_u64 (- 1 - committed_seq) @ ''-'' @ padded_u32 (- 1 - delta_index)"

definition attributes_probe :: "inode_id \<Rightarrow> string" where
  "attributes_probe inode_id = ATTRIBUTE_ROW_PREFIX @ encode_generated_id_body inode_id"

definition attributes_prefix :: "inode_id \<Rightarrow> string" where
  "attributes_prefix inode_id = attributes_probe inode_id @ ''-''"

definition attributes_row_key :: "inode_id \<Rightarrow> attributes_revision_no \<Rightarrow> change_seq \<Rightarrow> u32 \<Rightarrow> string" where
  "attributes_row_key inode_id attributes_revision_no committed_seq delta_index =
     attributes_prefix inode_id @ padded_u64 (- 1 - attributes_revision_no) @ ''-'' @
     padded_u64 (- 1 - committed_seq) @ ''-'' @ padded_u32 (- 1 - delta_index)"

definition access_probe :: "inode_id \<Rightarrow> string" where
  "access_probe inode_id = ACCESS_ROW_PREFIX @ encode_generated_id_body inode_id"

definition access_prefix :: "inode_id \<Rightarrow> string" where
  "access_prefix inode_id = access_probe inode_id @ ''-''"

definition access_row_key :: "inode_id \<Rightarrow> access_revision_no \<Rightarrow> change_seq \<Rightarrow> u32 \<Rightarrow> string" where
  "access_row_key inode_id access_revision_no committed_seq delta_index =
     access_prefix inode_id @ padded_u64 (- 1 - access_revision_no) @ ''-'' @
     padded_u64 (- 1 - committed_seq) @ ''-'' @ padded_u32 (- 1 - delta_index)"

section \<open>Keys of rows\<close>

fun sort_rank :: "active_deletion_row_action \<Rightarrow> u32" where
  "sort_rank (Removed _) = ACTIVE_DELETION_RANK_REMOVED"
| "sort_rank (Listed _ _ _ _) = ACTIVE_DELETION_RANK_LISTED"

definition ad_row_key :: "active_deletion_record \<Rightarrow> string" where
  "ad_row_key row = active_deletion_row_key (ad_deletion_seq row) (ad_root_inode_id row) (sort_rank (ad_action row))"

fun row_key_for_family :: "metadata_row \<Rightarrow> metadata_row_family \<Rightarrow> string option" where
  "row_key_for_family (InodeRow r) _ = Some (inode_key (ir_inode_id r))"
| "row_key_for_family (DirentryBindingRow r) family =
     (case family of
        DirentryBinds \<Rightarrow>
          Some (direntry_bind_row_key (db_parent_inode_id r) (db_name_key r) (db_child_inode_id r)
                  (db_committed_seq r) (db_delta_index r))
      | DirentryChildBinds \<Rightarrow>
          Some (direntry_child_bind_row_key (db_child_inode_id r) (db_parent_inode_id r) (db_name_key r)
                  (db_committed_seq r) (db_delta_index r))
      | _ \<Rightarrow> None)"
| "row_key_for_family (FileRevisionRow r) _ =
     Some (revision_row_key (rv_inode_id r) (rv_revision_no r) (rv_committed_seq r) (rv_delta_index r))"
| "row_key_for_family (TombstoneRow r) _ =
     Some (tombstone_row_key (tb_root_inode_id r) (tb_committed_seq r) (tb_delta_index r))"
| "row_key_for_family (ActiveDeletionRow r) _ =
     Some (active_deletion_row_key (ad_deletion_seq r) (ad_root_inode_id r) (sort_rank (ad_action r)))"
| "row_key_for_family (CommitReceiptRow r) _ =
     Some (commit_receipt_row_key (cr_commit_id r) (cr_committed_seq r))"
| "row_key_for_family (CommitRow r) _ = Some (commit_row_key (wc_committed_seq r))"
| "row_key_for_family (MergeRow r) _ =
     Some (merge_row_key (mi_source_namespace_id r) (mi_committed_seq r))"
| "row_key_for_family (ContentLayoutRow r) _ =
     content_layout_row_key (cl_content_id r) (cl_size_bytes r) (cl_committed_seq r)"
| "row_key_for_family (AttributesRevisionRow r) _ =
     Some (attributes_row_key (ar_inode_id r) (ar_attributes_revision_no r) (ar_committed_seq r) (ar_delta_index r))"
| "row_key_for_family (AccessRevisionRow r) _ =
     Some (access_row_key (xr_inode_id r) (xr_access_revision_no r) (xr_committed_seq r) (xr_delta_index r))"

fun primary_family :: "metadata_row \<Rightarrow> metadata_row_family" where
  "primary_family (InodeRow _) = Inodes"
| "primary_family (DirentryBindingRow _) = DirentryBinds"
| "primary_family (FileRevisionRow _) = Revisions"
| "primary_family (TombstoneRow _) = Tombstones"
| "primary_family (ActiveDeletionRow _) = ActiveDeletions"
| "primary_family (CommitReceiptRow _) = CommitReceipts"
| "primary_family (CommitRow _) = Commits"
| "primary_family (MergeRow _) = Merges"
| "primary_family (ContentLayoutRow _) = ContentLayouts"
| "primary_family (AttributesRevisionRow _) = AttributesFamily"
| "primary_family (AccessRevisionRow _) = AccessFamily"

definition row_key :: "metadata_row \<Rightarrow> string option" where
  "row_key row = row_key_for_family row (primary_family row)"

fun filter_key_for_family :: "metadata_row \<Rightarrow> metadata_row_family \<Rightarrow> string option" where
  "filter_key_for_family (InodeRow r) family = row_key_for_family (InodeRow r) family"
| "filter_key_for_family (DirentryBindingRow r) family =
     (case family of
        DirentryBinds \<Rightarrow> Some (direntry_bind_probe (db_parent_inode_id r) (db_name_key r))
      | DirentryChildBinds \<Rightarrow> Some (direntry_child_probe (db_child_inode_id r))
      | _ \<Rightarrow> None)"
| "filter_key_for_family (FileRevisionRow r) _ = Some (revision_probe (rv_inode_id r))"
| "filter_key_for_family (TombstoneRow r) _ = Some (tombstone_probe (tb_root_inode_id r))"
| "filter_key_for_family (ActiveDeletionRow r) _ =
     Some (active_deletion_probe (ad_deletion_seq r) (ad_root_inode_id r))"
| "filter_key_for_family (CommitReceiptRow r) _ = Some (commit_receipt_probe (cr_commit_id r))"
| "filter_key_for_family (CommitRow r) family = row_key_for_family (CommitRow r) family"
| "filter_key_for_family (MergeRow r) _ = Some (merge_probe (mi_source_namespace_id r))"
| "filter_key_for_family (ContentLayoutRow r) _ = content_layout_probe (cl_content_id r)"
| "filter_key_for_family (AttributesRevisionRow r) _ = Some (attributes_probe (ar_inode_id r))"
| "filter_key_for_family (AccessRevisionRow r) _ = Some (access_probe (xr_inode_id r))"

fun parent_filter_key_for_family :: "metadata_row \<Rightarrow> metadata_row_family \<Rightarrow> string option" where
  "parent_filter_key_for_family (DirentryBindingRow r) DirentryBinds =
     Some (direntry_parent_probe (db_parent_inode_id r))"
| "parent_filter_key_for_family _ _ = None"

section \<open>The order of keys\<close>

lemmas slot_key_defs = direntry_bind_row_key_def direntry_bind_edge_prefix_def direntry_bind_prefix_def
  direntry_bind_probe_def direntry_parent_prefix_def direntry_parent_probe_def hex_encode_row_key_component_def

lemmas child_key_defs = direntry_child_bind_row_key_def direntry_child_bind_edge_prefix_def
  direntry_child_prefix_def direntry_child_probe_def hex_encode_row_key_component_def

lemma prefix_less [simp]: "xs @ us < xs @ vs \<longleftrightarrow> us < vs" for us vs :: "'a::linorder list"
  by (induction xs) auto

text \<open>
  The slot index orders its rows by parent, name and child, and the rows of one edge newest
  first.
\<close>

lemma slot_key_less:
  "direntry_bind_row_key p n c s d < direntry_bind_row_key p' n' c' s' d' \<longleftrightarrow>
     p < p' \<or> p = p' \<and> (n < n' \<or> n = n' \<and> (c < c' \<or> c = c' \<and> DeltaPosition s' d' < DeltaPosition s d))"
  by (auto simp: slot_key_defs key_parts_less)

lemma slot_key_eq:
  "direntry_bind_row_key p n c s d = direntry_bind_row_key p' n' c' s' d' \<longleftrightarrow>
     p = p' \<and> n = n' \<and> c = c' \<and> s = s' \<and> d = d'"
  by (auto simp: slot_key_defs key_parts_eq)

lemma child_key_less:
  "direntry_child_bind_row_key c p n s d < direntry_child_bind_row_key c' p' n' s' d' \<longleftrightarrow>
     c < c' \<or> c = c' \<and> (p < p' \<or> p = p' \<and> (n < n' \<or> n = n' \<and> DeltaPosition s' d' < DeltaPosition s d))"
  by (auto simp: child_key_defs key_parts_less)

lemma child_key_eq:
  "direntry_child_bind_row_key c p n s d = direntry_child_bind_row_key c' p' n' s' d' \<longleftrightarrow>
     c = c' \<and> p = p' \<and> n = n' \<and> s = s' \<and> d = d'"
  by (auto simp: child_key_defs key_parts_eq)

lemmas state_key_defs = revision_row_key_def revision_no_prefix_def revision_prefix_def revision_probe_def
  attributes_row_key_def attributes_prefix_def attributes_probe_def
  access_row_key_def access_prefix_def access_probe_def

lemma state_key_less:
  "revision_row_key i r s d < revision_row_key i' r' s' d' \<longleftrightarrow>
     i < i' \<or> i = i' \<and> (r' < r \<or> r = r' \<and> DeltaPosition s' d' < DeltaPosition s d)"
  "attributes_row_key i r s d < attributes_row_key i' r' s' d' \<longleftrightarrow>
     i < i' \<or> i = i' \<and> (r' < r \<or> r = r' \<and> DeltaPosition s' d' < DeltaPosition s d)"
  "access_row_key i r s d < access_row_key i' r' s' d' \<longleftrightarrow>
     i < i' \<or> i = i' \<and> (r' < r \<or> r = r' \<and> DeltaPosition s' d' < DeltaPosition s d)"
  by (auto simp: state_key_defs key_parts_less)

lemma deletion_key_less:
  "active_deletion_row_key s i r < active_deletion_row_key s' i' r' \<longleftrightarrow>
     s < s' \<or> s = s' \<and> (i < i' \<or> i = i' \<and> r < r')"
  by (auto simp: active_deletion_row_key_def active_deletion_probe_def key_parts_less)

lemma tombstone_key_less:
  "tombstone_row_key i s d < tombstone_row_key i' s' d' \<longleftrightarrow>
     i < i' \<or> i = i' \<and> DeltaPosition s' d' < DeltaPosition s d"
  by (auto simp: tombstone_row_key_def tombstone_prefix_def tombstone_probe_def key_parts_less)

text \<open>
  C29: the byte order of row keys is the order of the values they spell, newest first within
  an identity: slot keys by parent, name and child, child keys by child, parent and name,
  revision, attribute and access keys by inode and descending revision number, tombstone
  keys by inode, each ending in the descending position of its delta; deletion keys by
  sequence, inode and rank, which puts a removal before the row it removes.  Names compare
  by their bytes, so no separator or case of a name can move a row out of its directory.
\<close>

theorem row_keys_sort_newest_first:
  "(direntry_bind_row_key p n c s d < direntry_bind_row_key p' n' c' s' d' \<longleftrightarrow>
      p < p' \<or> p = p' \<and> (n < n' \<or> n = n' \<and> (c < c' \<or> c = c' \<and> DeltaPosition s' d' < DeltaPosition s d))) \<and>
   (direntry_child_bind_row_key c p n s d < direntry_child_bind_row_key c' p' n' s' d' \<longleftrightarrow>
      c < c' \<or> c = c' \<and> (p < p' \<or> p = p' \<and> (n < n' \<or> n = n' \<and> DeltaPosition s' d' < DeltaPosition s d))) \<and>
   (revision_row_key i r s d < revision_row_key i' r' s' d' \<longleftrightarrow>
      i < i' \<or> i = i' \<and> (r' < r \<or> r = r' \<and> DeltaPosition s' d' < DeltaPosition s d)) \<and>
   (attributes_row_key i r s d < attributes_row_key i' r' s' d' \<longleftrightarrow>
      i < i' \<or> i = i' \<and> (r' < r \<or> r = r' \<and> DeltaPosition s' d' < DeltaPosition s d)) \<and>
   (access_row_key i r s d < access_row_key i' r' s' d' \<longleftrightarrow>
      i < i' \<or> i = i' \<and> (r' < r \<or> r = r' \<and> DeltaPosition s' d' < DeltaPosition s d)) \<and>
   (tombstone_row_key i s d < tombstone_row_key i' s' d' \<longleftrightarrow>
      i < i' \<or> i = i' \<and> DeltaPosition s' d' < DeltaPosition s d) \<and>
   (active_deletion_row_key s i k < active_deletion_row_key s' i' k' \<longleftrightarrow>
      s < s' \<or> s = s' \<and> (i < i' \<or> i = i' \<and> k < k'))"
  by (simp add: slot_key_less child_key_less state_key_less tombstone_key_less deletion_key_less)

end
