(* ===== verification/Retention.thy ===== *)
theory Retention
  imports Row_Keys Core_Error
begin

text \<open>
  The retention rules of \<open>loonfs-core/src/compaction/retention.rs\<close>, which a compaction applies
  to the rows of a family as they arrive in key order, and the locality groups of
  \<open>compaction/run_iterator.rs\<close> that the rules judge together.  An operator's state is
  passed on explicitly.
\<close>

section \<open>Locality groups\<close>

datatype locality_grouping = RowGrouping | LeadingKeyComponents nat

text \<open>\<open>str::find\<close> of one character.\<close>

fun find_char :: "char \<Rightarrow> string \<Rightarrow> nat option" where
  "find_char c [] = None"
| "find_char c (x # xs) = (if x = c then Some 0 else map_option Suc (find_char c xs))"

text \<open>The loop over the components; \<open>opening\<close> says that no component has been passed yet.\<close>

fun leading_end :: "string \<Rightarrow> bool \<Rightarrow> nat \<Rightarrow> nat \<Rightarrow> nat option" where
  "leading_end tail opening e 0 = Some e"
| "leading_end tail opening e (Suc components) =
     (let e = (if opening then e else e + 1)
      in case find_char (CHR ''-'') (drop e tail) of
           Some offset \<Rightarrow> leading_end tail False (e + offset) components
         | None \<Rightarrow> None)"

definition locality_of :: "metadata_row_family \<Rightarrow> string \<Rightarrow> locality_grouping \<Rightarrow> string" where
  "locality_of family key locality =
     (let prefix_len = length (row_key_prefix family);
          tail = (if prefix_len \<le> length key then drop prefix_len key else key)
      in case locality of
           RowGrouping \<Rightarrow> tail
         | LeadingKeyComponents components \<Rightarrow>
             (case leading_end tail True 0 components of Some e \<Rightarrow> take e tail | None \<Rightarrow> tail))"

section \<open>Rules and operators\<close>

datatype retention_rule =
    KeepEveryRow
  | FirstPerGroup
  | CommitHistory
  | WholeState
  | ActiveDeletionsRule
  | BindingsRule

datatype floor_event = FloorBound | FloorUnbound

record binding_retention =
  br_floor_event :: "floor_event option"
  br_floor_summary_seen :: bool
  br_last_bound_edge :: "(inode_id \<times> name_key \<times> inode_id) option"

text \<open>
  \<open>WholeState\<close> holds the revision of the previous row at or below the floor,
  \<open>ActiveDeletions\<close> whether the deletion's removal marker has arrived, \<open>FirstPerGroup\<close>
  whether the group has kept a row.
\<close>

datatype retention_operator =
    KeepEveryRowOperator
  | FirstPerGroupOperator bool
  | CommitHistoryOperator
  | WholeStateOperator "u64 option"
  | ActiveDeletionsOperator bool
  | BindingsOperator binding_retention

definition default_binding_retention :: binding_retention where
  "default_binding_retention =
     \<lparr> br_floor_event = None, br_floor_summary_seen = False, br_last_bound_edge = None \<rparr>"

fun rule_operator :: "retention_rule \<Rightarrow> retention_operator" where
  "rule_operator KeepEveryRow = KeepEveryRowOperator"
| "rule_operator FirstPerGroup = FirstPerGroupOperator False"
| "rule_operator CommitHistory = CommitHistoryOperator"
| "rule_operator WholeState = WholeStateOperator None"
| "rule_operator ActiveDeletionsRule = ActiveDeletionsOperator False"
| "rule_operator BindingsRule = BindingsOperator default_binding_retention"

definition keep_commit_history_row :: "metadata_row \<Rightarrow> change_seq \<Rightarrow> metadata_row option" where
  "keep_commit_history_row row floor_seq =
     (case row of
        CommitReceiptRow r \<Rightarrow> if cr_committed_seq r < floor_seq then None else Some row
      | CommitRow r \<Rightarrow> if wc_committed_seq r < floor_seq then None else Some row
      | MergeRow r \<Rightarrow> if mi_committed_seq r < floor_seq then None else Some row
      | _ \<Rightarrow> Some row)"

fun whole_state_revision :: "metadata_row \<Rightarrow> (inode_id \<times> u64 \<times> change_seq) option" where
  "whole_state_revision (FileRevisionRow r) = Some (rv_inode_id r, rv_revision_no r, rv_committed_seq r)"
| "whole_state_revision (AttributesRevisionRow r) =
     Some (ar_inode_id r, ar_attributes_revision_no r, ar_committed_seq r)"
| "whole_state_revision (AccessRevisionRow r) =
     Some (xr_inode_id r, xr_access_revision_no r, xr_committed_seq r)"
| "whole_state_revision _ = None"

definition whole_state_push ::
  "u64 option \<Rightarrow> metadata_row_family \<Rightarrow> metadata_row \<Rightarrow> change_seq
    \<Rightarrow> (core_error, u64 option \<times> metadata_row option) result" where
  "whole_state_push previous_at_floor family row floor_seq =
     (case whole_state_revision row of
        None \<Rightarrow> Inr (previous_at_floor, Some row)
      | Some (inode_id, revision, committed_seq) \<Rightarrow>
          if committed_seq > floor_seq then Inr (previous_at_floor, Some row)
          else if previous_at_floor = Some revision
          then Inl (NamespaceCorrupt (RepeatedStateRevision inode_id family revision))
          else if previous_at_floor \<noteq> None then Inr (Some revision, None)
          else Inr (Some revision, Some row))"

definition active_deletion_push :: "bool \<Rightarrow> metadata_row \<Rightarrow> change_seq \<Rightarrow> bool \<times> metadata_row option" where
  "active_deletion_push revoked row floor_seq =
     (case row of
        ActiveDeletionRow r \<Rightarrow>
          (case ad_action r of
             Removed _ \<Rightarrow> (True, None)
           | Listed _ _ _ _ \<Rightarrow>
               if revoked \<or> ad_deletion_seq r \<le> floor_seq then (revoked, None) else (revoked, Some row))
      | _ \<Rightarrow> (revoked, Some row))"

section \<open>Binding retention\<close>

definition refuse_a_second_bound_edge ::
  "binding_retention \<Rightarrow> metadata_row_family \<Rightarrow> direntry_binding_record
    \<Rightarrow> (core_error, binding_retention) result" where
  "refuse_a_second_bound_edge state family binding =
     rbind (case br_last_bound_edge state of
              None \<Rightarrow> Inr ()
            | Some (parent, name_key, child) \<Rightarrow>
                let same_slot = parent = db_parent_inode_id binding \<and> name_key = db_name_key binding;
                    same_child = child = db_child_inode_id binding
                in rbind (err_if (family = DirentryBinds \<and> same_slot)
                            (NamespaceCorrupt (SlotBoundTwice parent name_key child (db_child_inode_id binding)))) (\<lambda>_.
                   err_if (family = DirentryChildBinds \<and> same_child)
                     (NamespaceCorrupt (ChildBoundTwice child name_key parent (db_name_key binding)
                        (db_parent_inode_id binding))))) (\<lambda>_.
     Inr (state \<lparr> br_last_bound_edge :=
                    Some (db_parent_inode_id binding, db_name_key binding, db_child_inode_id binding) \<rparr>))"

definition binding_push ::
  "binding_retention \<Rightarrow> metadata_row_family \<Rightarrow> metadata_row \<Rightarrow> change_seq
    \<Rightarrow> (core_error, binding_retention \<times> metadata_row option) result" where
  "binding_push state family row floor_seq =
     (case row of
        DirentryBindingRow binding \<Rightarrow>
          if db_committed_seq binding > floor_seq then Inr (state, Some row)
          else if \<not> is_binding_event binding
          then let keep = br_floor_event state \<noteq> Some FloorUnbound \<and> \<not> br_floor_summary_seen state
               in Inr (state \<lparr> br_floor_summary_seen := True \<rparr>, if keep then Some row else None)
          else if br_floor_event state \<noteq> None then Inr (state, None)
          else if \<not> is_bound binding then Inr (state \<lparr> br_floor_event := Some FloorUnbound \<rparr>, None)
          else rbind (refuse_a_second_bound_edge (state \<lparr> br_floor_event := Some FloorBound \<rparr>) family binding)
                 (\<lambda>state. Inr (state, Some row))
      | _ \<Rightarrow> Inr (state, Some row))"

definition binding_close_group :: "binding_retention \<Rightarrow> binding_retention" where
  "binding_close_group state = state \<lparr> br_floor_event := None, br_floor_summary_seen := False \<rparr>"

section \<open>The operators\<close>

type_synonym kept_row = "metadata_row_family \<times> metadata_row"

fun operator_push_row ::
  "retention_operator \<Rightarrow> metadata_row_family \<Rightarrow> metadata_row \<Rightarrow> change_seq
    \<Rightarrow> (core_error, retention_operator \<times> metadata_row option) result" where
  "operator_push_row KeepEveryRowOperator family row floor_seq = Inr (KeepEveryRowOperator, Some row)"
| "operator_push_row (FirstPerGroupOperator kept) family row floor_seq =
     Inr (FirstPerGroupOperator True, if \<not> kept then Some row else None)"
| "operator_push_row CommitHistoryOperator family row floor_seq =
     Inr (CommitHistoryOperator, keep_commit_history_row row floor_seq)"
| "operator_push_row (WholeStateOperator state) family row floor_seq =
     rbind (whole_state_push state family row floor_seq) (\<lambda>(state, kept). Inr (WholeStateOperator state, kept))"
| "operator_push_row (ActiveDeletionsOperator state) family row floor_seq =
     (case active_deletion_push state row floor_seq of (state, kept) \<Rightarrow> Inr (ActiveDeletionsOperator state, kept))"
| "operator_push_row (BindingsOperator state) family row floor_seq =
     rbind (binding_push state family row floor_seq) (\<lambda>(state, kept). Inr (BindingsOperator state, kept))"

definition operator_push ::
  "retention_operator \<Rightarrow> metadata_row_family \<Rightarrow> metadata_row \<Rightarrow> change_seq
    \<Rightarrow> (core_error, retention_operator \<times> kept_row option) result" where
  "operator_push operator family row floor_seq =
     rbind (operator_push_row operator family row floor_seq) (\<lambda>(operator, kept).
     Inr (operator, map_option (Pair family) kept))"

fun close_group :: "retention_operator \<Rightarrow> retention_operator" where
  "close_group KeepEveryRowOperator = KeepEveryRowOperator"
| "close_group CommitHistoryOperator = CommitHistoryOperator"
| "close_group (FirstPerGroupOperator kept) = FirstPerGroupOperator False"
| "close_group (WholeStateOperator state) = WholeStateOperator None"
| "close_group (ActiveDeletionsOperator state) = ActiveDeletionsOperator False"
| "close_group (BindingsOperator state) = BindingsOperator (binding_close_group state)"

section \<open>Clusters\<close>

record retention_cluster =
  rc_families :: "metadata_row_family list"
  rc_locality :: locality_grouping
  rc_rule :: retention_rule

definition BINDINGS_CLUSTERS :: "retention_cluster list" where
  "BINDINGS_CLUSTERS =
     [\<lparr> rc_families = [DirentryBinds], rc_locality = LeadingKeyComponents 3, rc_rule = BindingsRule \<rparr>,
      \<lparr> rc_families = [DirentryChildBinds], rc_locality = LeadingKeyComponents 3, rc_rule = BindingsRule \<rparr>]"

definition row_cluster :: "metadata_row_family list \<Rightarrow> retention_cluster" where
  "row_cluster families = \<lparr> rc_families = families, rc_locality = RowGrouping, rc_rule = KeepEveryRow \<rparr>"

definition LAYOUT_CLUSTERS :: "retention_cluster list" where
  "LAYOUT_CLUSTERS =
     [\<lparr> rc_families = [ContentLayouts], rc_locality = LeadingKeyComponents 1, rc_rule = FirstPerGroup \<rparr>]"

definition INODE_CLUSTERS :: "retention_cluster list" where
  "INODE_CLUSTERS = [row_cluster [Inodes]]"

definition TOMBSTONE_CLUSTERS :: "retention_cluster list" where
  "TOMBSTONE_CLUSTERS = [row_cluster [Tombstones]]"

definition COMMIT_CLUSTERS :: "retention_cluster list" where
  "COMMIT_CLUSTERS =
     [\<lparr> rc_families = [Commits], rc_locality = RowGrouping, rc_rule = CommitHistory \<rparr>,
      \<lparr> rc_families = [CommitReceipts], rc_locality = RowGrouping, rc_rule = CommitHistory \<rparr>,
      \<lparr> rc_families = [Merges], rc_locality = RowGrouping, rc_rule = CommitHistory \<rparr>]"

definition ACTIVE_DELETION_CLUSTERS :: "retention_cluster list" where
  "ACTIVE_DELETION_CLUSTERS =
     [\<lparr> rc_families = [ActiveDeletions], rc_locality = LeadingKeyComponents 2, rc_rule = ActiveDeletionsRule \<rparr>]"

definition REVISION_CLUSTERS :: "retention_cluster list" where
  "REVISION_CLUSTERS =
     [\<lparr> rc_families = [Revisions], rc_locality = LeadingKeyComponents 1, rc_rule = WholeState \<rparr>]"

definition ATTRIBUTE_CLUSTERS :: "retention_cluster list" where
  "ATTRIBUTE_CLUSTERS =
     [\<lparr> rc_families = [AttributesFamily], rc_locality = LeadingKeyComponents 1, rc_rule = WholeState \<rparr>]"

definition ACCESS_CLUSTERS :: "retention_cluster list" where
  "ACCESS_CLUSTERS =
     [\<lparr> rc_families = [AccessFamily], rc_locality = LeadingKeyComponents 1, rc_rule = WholeState \<rparr>]"

fun retention_clusters :: "metadata_family_group \<Rightarrow> retention_cluster list" where
  "retention_clusters BindingsGroup = BINDINGS_CLUSTERS"
| "retention_clusters RevisionsGroup = REVISION_CLUSTERS"
| "retention_clusters InodesGroup = INODE_CLUSTERS"
| "retention_clusters TombstonesGroup = TOMBSTONE_CLUSTERS"
| "retention_clusters ActiveDeletionsGroup = ACTIVE_DELETION_CLUSTERS"
| "retention_clusters CommitsGroup = COMMIT_CLUSTERS"
| "retention_clusters ContentLayoutsGroup = LAYOUT_CLUSTERS"
| "retention_clusters AttributesGroup = ATTRIBUTE_CLUSTERS"
| "retention_clusters AccessGroup = ACCESS_CLUSTERS"

end
