(* ===== verification/Spec2Isabelle.thy ===== *)
theory Spec2Isabelle
  imports Rule_Guarantees Session_Guarantees Bloom_Filter Manifests Retention
begin

text \<open>
  LoonFS stores file-system namespaces in an object store.  A namespace is a history of
  append-only metadata rows: inodes, directory bindings, file revisions, tombstones,
  attribute and access rows, commits.  A writer plans a commit from a request, validates the
  operations of the plan against the rows at the head and the commits of its own batch, and
  appends the resulting deltas to a write-ahead log.  The log is folded into runs of sorted
  segments that a manifest lists; compactions rewrite runs and drop rows below a retention
  floor.  Readers combine the manifest's rows with the log tail.  The sources are the crates
  \<open>loonfs-types\<close>, \<open>loonfs-objectstore\<close>, \<open>loonfs-core\<close> and the reference model \<open>loonfs-model\<close>
  under \<open>src/crates\<close>.

  \<^bold>\<open>Conventions.\<close>  Structs are records, enums are datatypes, machine integers are words of
  their width, strings are their UTF-8 bytes as character lists, so the order of strings is
  the byte order of the source.  Fallible code returns \<open>('e, 'a) result\<close>, a sum with the
  error on the left, sequenced by \<open>rbind\<close>; a panic is the error \<open>Panicked\<close>.  Messages are
  kept as the values they are formatted from.  Mutated state is passed and returned.  Code
  outside the sources is an argument: the Unicode tables of name folding (\<open>unicode_data\<close>),
  the hash \<open>xxh64\<close>, the digests and the spelling of binding versions (fields of the planning
  context), and the manifest lookups of a view (\<open>metadata_manifest\<close>).  What is relied on
  there is a named hypothesis: \<open>provider_ok\<close> says that the manifest lookups answer from the
  rows of one state.

  \<^bold>\<open>Values and rows.\<close>  \<open>Prelude\<close> has integers, results and iterator adaptors; \<open>Vocabulary\<close>
  ids, ordinals, content layouts, rights and grants (\<open>ids.rs\<close>, \<open>layout.rs\<close>, \<open>access.rs\<close>);
  \<open>Rows\<close> the rows, their families and groups, and the deltas of the log (\<open>metadata_rows.rs\<close>,
  \<open>wal.rs\<close>); \<open>Paths\<close> and \<open>Path_Grammar\<close> paths, display names and their parser (\<open>path.rs\<close>,
  \<open>name_policy.rs\<close>); \<open>Attributes\<close> attribute maps.  \<open>Rule_Guarantees\<close> shows that parsing
  inverts printing, that rights words are sets, that layouts fit their size, that ordinals
  stay public and that generated inode ids hold their parts.

  \<^bold>\<open>State and reads.\<close>  \<open>Metadata_State\<close> is \<open>metadata/rows.rs\<close>, \<open>indexes.rs\<close> and \<open>apply.rs\<close>:
  the rows with the indexes at their head, and the application of deltas.  \<open>Visibility\<close> is
  \<open>metadata/visibility.rs\<close> over a record of lookups; its locales \<open>visibility_provider\<close> and
  \<open>total_provider\<close> state what the lookups promise, and are interpreted by the reads of a
  state (\<open>State_Reads\<close>, \<open>queries.rs\<close>) and of a view (\<open>Metadata_View\<close>, \<open>View_Reads\<close>,
  \<open>metadata/view*.rs\<close>).  \<open>Wal_Tail\<close> is the projected log tail (\<open>wal/projected_tail.rs\<close>,
  \<open>wal/replay.rs\<close>).  \<open>Inode_Paths\<close> finds the path of an inode by climbing
  (\<open>path/read/current_files.rs\<close>).  \<open>Read_Guarantees\<close> shows that indexed reads and view
  lookups are scans of all rows, that projecting the tail is replaying it, that replayed
  objects are contiguous, and which deletion covers an inode.

  \<^bold>\<open>Commits.\<close>  \<open>Commit_Validation\<close> is \<open>commit/validate\<close>.  \<open>Namespace_Tree\<close> is the abstract
  namespace: slots, parents, deletions and kinds, with one step per delta; \<open>core_tree\<close> and
  \<open>view_tree\<close> map rows to it.  \<open>Commit_Safety\<close> proves that validated deltas are steps the
  tree allows.  \<open>Reference_Model\<close> is \<open>loonfs-model\<close>; \<open>Model_Agreement\<close> proves that it accepts
  the same commits and resolves the same paths.  \<open>Planning\<close>, \<open>Planner\<close>, \<open>Preconditions\<close> and
  \<open>Publish_Session\<close> are \<open>path/write\<close> with the candidates and log records of \<open>commit/engine\<close>
  and \<open>commit/wal_payload.rs\<close>; \<open>Planning_Safety\<close> and \<open>Session_Safety\<close> carry the tree through a
  whole session.  \<open>Access_Rules\<close> is \<open>metadata/access.rs\<close> and \<open>authorize.rs\<close>.
  \<open>Planning_Guarantees\<close> and \<open>Session_Guarantees\<close> show that every commit a session publishes
  keeps the tree, that moves and access updates hand out only rights the requester may hand
  out, what attribute updates change, and which precondition is reported.
  \<open>Example_Namespace\<close> is the small namespace the instances of these properties evaluate.

  \<^bold>\<open>Durable formats.\<close>  \<open>Spelled_Ids\<close> has the base-32, hexadecimal and decimal spellings
  (\<open>ids.rs\<close>, \<open>inode_id.rs\<close>, \<open>hex.rs\<close>) with the locale \<open>key_component\<close>: a spelling that keeps
  order and contains no separator; \<open>Row_Keys\<close> composes them into the keys of
  \<open>row_keys.rs\<close>, whose byte order is shown to be the order of the values.  \<open>Object_Keys\<close> is
  \<open>keys.rs\<close> and \<open>layout.rs\<close> of the object store with the grammars of ids: a key is classified
  as what it was built for.  \<open>Manifests\<close> is the manifest payload, its chain and its
  validation (\<open>manifest.rs\<close>, \<open>segment/runs.rs\<close>, \<open>manifest/validate.rs\<close>).  \<open>Bloom_Filter\<close> is
  \<open>bloom_filter.rs\<close>, with the double-precision arithmetic that sizes a level on integers.
  \<open>Retention\<close> is \<open>compaction/retention.rs\<close>.

  \<^bold>\<open>Loops.\<close>  Walks towards the root (\<open>covering_loop\<close>, \<open>allows_loop\<close>, \<open>cycle_loop\<close>,
  \<open>walk_access_loop\<close>, \<open>current_path_loop\<close>, \<open>ancestry_loop\<close>) keep the set of inodes they have
  seen, as the source does; the number of unseen inode ids is their measure, so they are
  total functions without fuel, and a cycle of parents is an error they return.  The other
  loops recurse on lists or numbers.

  \<^bold>\<open>Not modelled.\<close>  Input and output against object stores and the protocols built on it
  (publication of log objects and manifests, uploads, garbage collection, snapshots, the
  lifecycle of namespaces); the CBOR, JSON and zstd encodings and the block format of
  segments; caches, permits and heap accounting; listings, content ranges, diffs, change
  feeds and the three-way merge; the asynchronous runtime, the server, the clients, the
  command line, the text search index and the test infrastructure.
\<close>

section \<open>Commits keep the namespace a tree\<close>

text \<open>
  C3: Every delta of a commit that validation accepts is allowed by the abstract namespace
  at the moment it is applied, the rows after the commit stand for the namespace those
  deltas lead to, and that namespace is a tree again: slots and parents agree, no inode is
  its own ancestor, deleted inodes are bound nowhere.
\<close>

theorem validated_commit_keeps_tree:
  assumes "session_ok (session_new base accepted seq cid actor ms) m"
    and "plan_ok (view_tree (session_view (session_new base accepted seq cid actor ms)) m) ops"
    and "validate_ops u hvc rl (session_new base accepted seq cid actor ms) ops = Inr (deltas, vs')"
  shows "tree_run seq (view_tree (session_view (session_new base accepted seq cid actor ms)) m)
      (map wd_delta deltas) \<and>
    view_tree (session_view vs') m =
      fold (tree_step seq) (map wd_delta deltas)
        (view_tree (session_view (session_new base accepted seq cid actor ms)) m) \<and>
    tree_inv (view_tree (session_view vs') m)"
proof -
  have seq: "vs_committed_seq (session_new base accepted seq cid actor ms) = seq"
    by (simp add: session_new_def)
  note ok = validate_ops_ok [OF assms, unfolded seq]
  then have "session_ok vs' m" by blast
  then have "tree_inv (view_tree (session_view vs') m)" by (simp add: session_ok_def)
  with ok show ?thesis by blast
qed

theorem validated_commit_keeps_tree_witness:
  "\<exists>deltas vs'. validate_ops plain_unicode no_children (\<lambda>_. None)
       (genesis_session 1 ''c_1'' ''alice'' 1000) first_ops = Inr (deltas, vs') \<and>
     map (wal_delta_index \<circ> wd_delta) deltas = [0, 1, 2, 3, 4] \<and>
     tree_inv (view_tree (session_view vs') genesis_rows)"
proof -
  let ?vs = "genesis_session 1 ''c_1'' ''alice'' 1000"
  obtain deltas vs' where run: "validate_ops plain_unicode no_children (\<lambda>_. None) ?vs first_ops = Inr (deltas, vs')"
    and idx: "map (wal_delta_index \<circ> wd_delta) deltas = [0, 1, 2, 3, 4]"
    using first_commit_runs by (auto split: sum.splits prod.splits)
  have "tree_inv (view_tree (session_view vs') genesis_rows)"
    using validated_commit_keeps_tree
      [OF genesis_session_ok [unfolded genesis_session_def]
        first_plan_ok [unfolded genesis_session_def] run [unfolded genesis_session_def]]
    by blast
  with run idx show ?thesis by (intro exI conjI)
qed

section \<open>The core agrees with the reference model\<close>

text \<open>
  C4: The reference model accepts every commit that validation accepts: where the model's
  rows stand for the namespace the commit was validated against, its own verification of
  the bindings passes after the commit's deltas, and the model's rows then stand for the
  namespace of the core's rows.
\<close>

theorem model_accepts_validated_commit:
  assumes "session_ok (session_new base accepted seq cid actor ms) m"
    and "plan_ok (view_tree (session_view (session_new base accepted seq cid actor ms)) m) ops"
    and "validate_ops u hvc rl (session_new base accepted seq cid actor ms) ops = Inr (deltas, vs')"
    and "model_below md seq 0"
    and "model_tree md seq = view_tree (session_view (session_new base accepted seq cid actor ms)) m"
  shows "\<exists>md'. model_apply_committed_wal_deltas seq cid actor ms (map wd_delta deltas) md = Inr md' \<and>
    model_tree md' seq = view_tree (session_view vs') m"
proof -
  let ?vs = "session_new base accepted seq cid actor ms"
  have new: "vs_committed_seq ?vs = seq" "cn_next_delta_index (vs_numbering ?vs) = 0"
    by (simp_all add: session_new_def default_numbering_def)
  note ok = validate_ops_ok [OF assms(1-3), unfolded new, folded assms(5)]
  from assms(1) have "tree_inv (model_tree md seq)" by (simp add: session_ok_def assms(5))
  from model_accepts_run [OF assms(4) _ _ this, of "map wd_delta deltas" _ cid actor ms] ok
  show ?thesis by metis
qed

theorem model_accepts_validated_commit_witness:
  "\<exists>deltas vs' md'.
     validate_ops plain_unicode no_children (\<lambda>_. None) (genesis_session 1 ''c_1'' ''alice'' 1000) first_ops =
       Inr (deltas, vs') \<and>
     model_apply_committed_wal_deltas 1 ''c_1'' ''alice'' 1000 (map wd_delta deltas)
       (bootstrap_metadata_state 0) = Inr md' \<and>
     model_tree md' 1 = view_tree (session_view vs') genesis_rows"
proof -
  let ?vs = "genesis_session 1 ''c_1'' ''alice'' 1000"
  obtain deltas vs' where run: "validate_ops plain_unicode no_children (\<lambda>_. None) ?vs first_ops = Inr (deltas, vs')"
    using first_commit_runs by (auto split: sum.splits prod.splits)
  have same: "model_tree (bootstrap_metadata_state 0) 1 = view_tree (session_view ?vs) genesis_rows"
    by (simp add: bootstrap_tree genesis_tree)
  from model_accepts_validated_commit
    [OF genesis_session_ok [unfolded genesis_session_def] first_plan_ok [unfolded genesis_session_def]
      run [unfolded genesis_session_def] bootstrap_below same [unfolded genesis_session_def]]
  obtain md' where "model_apply_committed_wal_deltas 1 ''c_1'' ''alice'' 1000 (map wd_delta deltas)
      (bootstrap_metadata_state 0) = Inr md'" "model_tree md' 1 = view_tree (session_view vs') genesis_rows"
    by blast
  with run show ?thesis by (intro exI conjI)
qed

text \<open>
  C5: The core and the reference model resolve every path alike: where their rows stand
  for one namespace and the manifest's lookups return, a path leads both to the same inode
  of the same kind under the same stored spelling and binding, or both report the same
  missing spelling, or the same component that is not a directory; neither fails otherwise.
\<close>

theorem core_and_model_resolve_alike:
  assumes "session_ok vs m" and "manifest_total (mv_manifest (session_view vs))"
    and "model_tree md (vs_committed_seq vs) = view_tree (session_view vs) m"
  shows "case resolve_path u md path (vs_committed_seq vs) of
      Inr (Found spelling inode b) \<Rightarrow>
        \<exists>r. resolve_visible_path u (view_reads (session_view vs)) path = Inr r \<and>
          ap_normalized (rp_absolute_path r) = spelling \<and> rp_inode_id r = min_inode_id inode \<and>
          rp_inode_kind r = min_inode_kind inode \<and> rp_binding_version r = map_option mdb_position b
    | Inr (NotFound spelling) \<Rightarrow>
        resolve_visible_path u (view_reads (session_view vs)) path =
          Inl (core_from_visible_path (PathNotFound spelling))
    | Inr (NotADirectory spelling inode) \<Rightarrow>
        resolve_visible_path u (view_reads (session_view vs)) path =
          Inl (core_from_visible_path
                 (PathComponentNotDirectory spelling (min_inode_id inode) (min_inode_kind inode)))
    | Inl e \<Rightarrow> False"
  using assms by (intro resolve_agrees) (simp_all add: session_okD)

theorem core_and_model_resolve_alike_witness:
  "\<exists>vs md r. vs_committed_seq vs = 1 \<and>
     resolve_path plain_unicode md (from_components [''docs'', ''a.txt'']) 1 \<noteq> Inr (NotFound ''/docs/a.txt'') \<and>
     resolve_visible_path plain_unicode (view_reads (session_view vs)) (from_components [''docs'', ''a.txt'']) = Inr r \<and>
     rp_inode_id r = 6 \<and> ap_normalized (rp_absolute_path r) = ''/docs/a.txt''"
proof -
  let ?vs = "genesis_session 1 ''c_1'' ''alice'' 1000" and ?path = "from_components [''docs'', ''a.txt'']"
  obtain deltas vs' where run: "validate_ops plain_unicode no_children (\<lambda>_. None) ?vs first_ops = Inr (deltas, vs')"
    using first_commit_runs by (auto split: sum.splits prod.splits)
  obtain md where md: "model_apply_committed_wal_deltas 1 ''c_1'' ''alice'' 1000 (map wd_delta deltas)
      (bootstrap_metadata_state 0) = Inr md" and same: "model_tree md 1 = view_tree (session_view vs') genesis_rows"
    using first_commit_agrees [OF run] by blast
  obtain inode b where model: "resolve_path plain_unicode md ?path 1 = Inr (Found ''/docs/a.txt'' inode b)"
    and six: "min_inode_id inode = 6"
    using first_model_path run md by (auto split: sum.splits prod.splits resolved_path.splits)
  note ok = first_session_ok [OF run]
  have seq: "vs_committed_seq vs' = 1" using ok by blast
  from core_and_model_resolve_alike [of vs' genesis_rows md plain_unicode ?path] ok same model
  obtain r where "resolve_visible_path plain_unicode (view_reads (session_view vs')) ?path = Inr r"
    "ap_normalized (rp_absolute_path r) = ''/docs/a.txt''" "rp_inode_id r = min_inode_id inode"
    unfolding seq by auto
  with model six seq show ?thesis by (intro exI [of _ vs'] exI [of _ md] exI [of _ r]) simp
qed

section \<open>Inodes and paths\<close>

lemma genesis_named: "tree_named u (view_tree (session_view (genesis_session seq cid actor ms)) genesis_rows)"
  by (simp add: genesis_tree tree_named_def)

lemma first_inode_path:
  "case validate_ops plain_unicode no_children (\<lambda>_. None) (genesis_session 1 ''c_1'' ''alice'' 1000) first_ops of
     Inr (deltas, vs') \<Rightarrow>
       (case resolve_visible_inode (view_reads (session_view vs')) Map.empty 6 of
          Inr (Some r, known) \<Rightarrow> ap_normalized (rp_absolute_path r) = ''/docs/a.txt''
        | _ \<Rightarrow> False)
   | Inl _ \<Rightarrow> False"
  by code_simp

text \<open>
  C6: The path of an inode leads back to it: after a validated commit to a namespace whose
  slots are keyed by the folded names they hold, the path that is found for a visible inode
  by climbing its parents resolves to that inode, under the same spelling, of the same kind
  and with the same binding version.
\<close>

theorem inode_paths_lead_back:
  assumes "session_ok (session_new base accepted seq cid actor ms) m"
    and "plan_ok (view_tree (session_view (session_new base accepted seq cid actor ms)) m) ops"
    and "tree_named u (view_tree (session_view (session_new base accepted seq cid actor ms)) m)"
    and "validate_ops u hvc rl (session_new base accepted seq cid actor ms) ops = Inr (deltas, vs')"
    and "manifest_total (mv_manifest (session_view vs'))"
    and "resolve_visible_inode (view_reads (session_view vs')) Map.empty i = Inr (Some r, known)"
  shows "\<exists>q. resolve_visible_path u (view_reads (session_view vs')) (rp_absolute_path r) = Inr q \<and>
    rp_inode_id q = i \<and> rp_absolute_path q = rp_absolute_path r \<and> rp_inode_kind q = rp_inode_kind r \<and>
    rp_binding_version q = rp_binding_version r"
proof -
  have seq: "vs_committed_seq (session_new base accepted seq cid actor ms) = seq"
    by (simp add: session_new_def)
  note ok = validate_ops_ok [OF assms(1,2,4), unfolded seq]
  then have "session_ok vs' m"
    and tree: "view_tree (session_view vs') m = fold (tree_step seq) (map wd_delta deltas)
      (view_tree (session_view (session_new base accepted seq cid actor ms)) m)" by blast+
  note vs' = session_okD [OF this(1)]
  have "tree_named u (view_tree (session_view vs') m)"
    unfolding tree using tree_named_run [OF assms(3) _ validate_ops_named [OF assms(4)]] ok by blast
  with vs' assms(5,6) show ?thesis by (intro inode_path_resolves) (simp_all add: paths_ok_empty)
qed

theorem inode_paths_lead_back_witness:
  "\<exists>vs r known q. resolve_visible_inode (view_reads (session_view vs)) Map.empty 6 = Inr (Some r, known) \<and>
     ap_normalized (rp_absolute_path r) = ''/docs/a.txt'' \<and>
     resolve_visible_path plain_unicode (view_reads (session_view vs)) (rp_absolute_path r) = Inr q \<and>
     rp_inode_id q = 6"
proof -
  let ?vs = "genesis_session 1 ''c_1'' ''alice'' 1000"
  obtain deltas vs' where run: "validate_ops plain_unicode no_children (\<lambda>_. None) ?vs first_ops = Inr (deltas, vs')"
    using first_commit_runs by (auto split: sum.splits prod.splits)
  obtain r known where found: "resolve_visible_inode (view_reads (session_view vs')) Map.empty 6 = Inr (Some r, known)"
    and path: "ap_normalized (rp_absolute_path r) = ''/docs/a.txt''"
    using first_inode_path run by (auto split: sum.splits prod.splits option.splits)
  note ok = first_session_ok [OF run]
  from inode_paths_lead_back
    [OF genesis_session_ok [unfolded genesis_session_def] first_plan_ok [unfolded genesis_session_def]
      genesis_named [unfolded genesis_session_def] run [unfolded genesis_session_def] _ found] ok path found
  show ?thesis by blast
qed

end
